(* ===== verification/Bm_Prelude.thy ===== *)
theory Bm_Prelude
  imports Main "HOL-Library.Word" "HOL-Library.Multiset" "HOL-Library.Sublist"
begin

unbundle bit_operations_syntax

text \<open>
  Shared material of the bmboot development: the machine integer types of the source, flat
  physical memory with the C library's byte copies, little-endian encoding of words, the C
  integer conversions the source relies on, and generic lemmas on words and lists.

  The collections \<open>ipc_simps\<close>, \<open>mmio_simps\<close> and \<open>ring_simps\<close> gather the rewrite rules of the
  component theories.
\<close>

named_theorems ipc_simps \<open>accessors and updates of the shared IPC block\<close>
named_theorems mmio_simps \<open>memory-mapped register accesses\<close>
named_theorems ring_simps \<open>circular stdout buffer\<close>
named_theorems mem_simps \<open>flat physical memory\<close>

type_synonym u8 = "8 word"
type_synonym u32 = "32 word"
type_synonym u64 = "64 word"
type_synonym bytes = "u8 list"

text \<open>Physical memory is byte addressed by 64-bit addresses; address arithmetic wraps.\<close>

type_synonym memory = "u64 \<Rightarrow> u8"

section \<open>Flat memory: \<open>memcpy\<close> and reads through a pointer\<close>

definition mem_read :: "memory \<Rightarrow> u64 \<Rightarrow> nat \<Rightarrow> bytes" where
  "mem_read m a n = map (\<lambda>i. m (a + of_nat i)) [0..<n]"

fun mem_write :: "memory \<Rightarrow> u64 \<Rightarrow> bytes \<Rightarrow> memory" where
  "mem_write m a [] = m"
| "mem_write m a (b # bs) = mem_write (m(a := b)) (a + 1) bs"

section \<open>Little-endian words\<close>

definition le_bytes :: "nat \<Rightarrow> 'a::len word \<Rightarrow> bytes" where
  "le_bytes n w = map (\<lambda>i. ucast (drop_bit (8 * i) w)) [0..<n]"

fun le_word :: "bytes \<Rightarrow> 'a::len word" where
  "le_word [] = 0"
| "le_word (b # bs) = ucast b OR push_bit 8 (le_word bs)"

section \<open>C integer conversions\<close>

text \<open>
  \<open>int_of_u64\<close> is the conversion of a 64-bit unsigned value to a 32-bit \<open>int\<close> (two's complement,
  as every supported compiler does it); \<open>u64_of_int32\<close> is the sign-extending conversion back.
\<close>

definition int_of_u64 :: "u64 \<Rightarrow> int" where
  "int_of_u64 w = sint (ucast w :: u32)"

definition u64_of_int32 :: "int \<Rightarrow> u64" where
  "u64_of_int32 i = scast (word_of_int i :: u32)"

text \<open>The bytes of a string literal, without the terminating zero.\<close>

definition ascii :: "string \<Rightarrow> bytes" where
  "ascii s = map (\<lambda>c. of_nat (of_char c)) s"

section \<open>Lists\<close>

lemma map_nth_upt_cong:
  "length xs = n \<Longrightarrow> map (\<lambda>i. xs ! i) [0..<n] = xs"
  by (metis map_nth)

lemma list_update_beyond_map:
  "(\<And>i. i \<in> set is \<Longrightarrow> f i \<noteq> p) \<Longrightarrow> map (\<lambda>i. xs[p := v] ! f i) is = map (\<lambda>i. xs ! f i) is"
  by (rule map_cong [OF refl]) (metis nth_list_update_neq)

lemma concat_length_const:
  "(\<And>x. x \<in> set xs \<Longrightarrow> length (f x) = n) \<Longrightarrow> length (concat (map f xs)) = n * length xs"
  by (induction xs) auto

lemma upt_plus_one: "[i..<j] = (if i < j then i # [i + 1..<j] else [])"
  by (simp add: upt_conv_Cons)

lemma mod_below_double: "m < 2 * n \<Longrightarrow> m mod n = (if m < n then m else m - (n :: nat))"
  by (auto simp: le_mod_geq)

section \<open>Words\<close>

lemma xor_right_cancel [simp]: "(x :: 'a::len word) XOR z = y XOR z \<longleftrightarrow> x = y"
  by (metis bit.xor_self xor.assoc xor.right_neutral)

lemma xor_left_cancel [simp]: "(z :: 'a::len word) XOR x = z XOR y \<longleftrightarrow> x = y"
  by (metis xor.commute xor_right_cancel)

section \<open>Memory laws\<close>

lemma length_mem_read [simp, mem_simps]: "length (mem_read m a n) = n"
  by (simp add: mem_read_def)

lemma mem_read_0 [simp, mem_simps]: "mem_read m a 0 = []"
  by (simp add: mem_read_def)

lemma mem_read_Suc: "mem_read m a (Suc n) = m a # mem_read m (a + 1) n"
proof -
  have "map (\<lambda>i. m (a + of_nat i)) [Suc 0..<Suc n]
      = map (\<lambda>i. m (a + 1 + of_nat i)) [0..<n]"
    by (simp add: map_Suc_upt [symmetric] add.assoc del: upt_Suc)
  then show ?thesis
    by (simp add: mem_read_def upt_conv_Cons del: upt_Suc)
qed

lemma mem_read_append: "mem_read m a (n + k) = mem_read m a n @ mem_read m (a + of_nat n) k"
  by (induction n arbitrary: a) (simp_all add: mem_read_Suc add.assoc add.commute add.left_commute)

lemma mem_write_append: "mem_write m a (xs @ ys) = mem_write (mem_write m a xs) (a + of_nat (length xs)) ys"
  by (induction xs arbitrary: m a) (simp_all add: add.assoc)

text \<open>A write leaves alone every address it does not reach.\<close>

lemma mem_write_other:
  "(\<And>i. i < length bs \<Longrightarrow> x \<noteq> a + of_nat i) \<Longrightarrow> mem_write m a bs x = m x"
proof (induction bs arbitrary: m a)
  case Nil
  then show ?case by simp
next
  case (Cons b bs)
  from Cons.prems [of 0] have "x \<noteq> a" by simp
  moreover have "x \<noteq> (a + 1) + of_nat i" if "i < length bs" for i
    using Cons.prems [of "Suc i"] that by (simp add: add.assoc)
  ultimately show ?case
    using Cons.IH by simp
qed

lemma of_nat_u64_neq:
  assumes "0 < i" and "i < 2 ^ 64"
  shows "a \<noteq> a + (of_nat i :: u64)"
proof
  assume "a = a + (of_nat i :: u64)"
  then have "(of_nat i :: u64) = 0" by simp
  then have "unat (of_nat i :: u64) = 0" by simp
  with assms show False by (simp add: unat_of_nat take_bit_eq_mod)
qed

text \<open>What was copied is what is read back (round trip of \<open>memcpy\<close> through memory).\<close>

lemma mem_read_write:
  "length bs \<le> 2 ^ 64 \<Longrightarrow> mem_read (mem_write m a bs) a (length bs) = bs"
proof (induction bs arbitrary: m a)
  case Nil
  then show ?case by simp
next
  case (Cons b bs)
  have keep: "mem_write (m(a := b)) (a + 1) bs a = b"
  proof -
    have "a \<noteq> (a + 1) + of_nat i" if "i < length bs" for i
      using that Cons.prems of_nat_u64_neq [of "Suc i" a] by (simp add: add.assoc)
    then have "mem_write (m(a := b)) (a + 1) bs a = (m(a := b)) a"
      by (rule mem_write_other)
    then show ?thesis by simp
  qed
  from Cons show ?case
    by (simp add: mem_read_Suc keep)
qed

lemma mem_read_cong:
  "(\<And>i. i < n \<Longrightarrow> m (a + of_nat i) = m' (a + of_nat i)) \<Longrightarrow> mem_read m a n = mem_read m' a n"
  by (simp add: mem_read_def)

lemma mem_read_take: "k \<le> n \<Longrightarrow> take k (mem_read m a n) = mem_read m a k"
  by (simp add: mem_read_def take_map min_absorb1)

section \<open>Little-endian round trip\<close>

lemma length_le_bytes [simp]: "length (le_bytes n w) = n"
  by (simp add: le_bytes_def)

lemma le_bytes_Suc: "le_bytes (Suc n) w = ucast w # le_bytes n (drop_bit 8 w)"
proof -
  have "map (\<lambda>i. ucast (drop_bit (8 * i) w) :: u8) [Suc 0..<Suc n]
      = map (\<lambda>i. ucast (drop_bit (8 * i) (drop_bit 8 w))) [0..<n]"
    by (simp add: map_Suc_upt [symmetric] drop_bit_drop_bit add.commute del: upt_Suc)
  then show ?thesis
    by (simp add: le_bytes_def upt_conv_Cons del: upt_Suc)
qed

lemma ucast_or_push: "(ucast (ucast w :: u8) :: 'a::len word) OR push_bit 8 (drop_bit 8 w) = w"
proof (rule bit_word_eqI)
  fix n
  assume "n < LENGTH('a)"
  then show "bit ((ucast (ucast w :: u8) :: 'a word) OR push_bit 8 (drop_bit 8 w)) n = bit w n"
    by (cases "n < 8") (auto simp: bit_or_iff bit_ucast_iff bit_push_bit_iff bit_drop_bit_eq)
qed

lemma le_word_le_bytes:
  "drop_bit (8 * n) w = (0 :: 'a::len word) \<Longrightarrow> le_word (le_bytes n w) = w"
proof (induction n arbitrary: w)
  case 0
  then show ?case by (simp add: le_bytes_def)
next
  case (Suc n)
  from Suc.prems have "drop_bit (8 * n) (drop_bit 8 w) = 0"
    by (simp add: drop_bit_drop_bit add.commute)
  then have "le_word (le_bytes n (drop_bit 8 w)) = drop_bit 8 w"
    by (rule Suc.IH)
  then show ?case
    by (simp add: le_bytes_Suc ucast_or_push)
qed

lemma drop_bit_len_0: "LENGTH('a) \<le> n \<Longrightarrow> drop_bit n (w :: 'a::len word) = 0"
  by (rule bit_eqI) (auto simp: bit_drop_bit_eq dest: bit_imp_le_length)

lemma le_word_le_bytes_u32 [simp]: "le_word (le_bytes 4 (w :: u32)) = w"
  by (rule le_word_le_bytes) simp

lemma le_word_le_bytes_u64 [simp]: "le_word (le_bytes 8 (w :: u64)) = w"
  by (rule le_word_le_bytes) simp

end
