(* ===== verification/Crc32.thy ===== *)
theory Crc32
  imports Bm_Prelude
begin

unbundle bit_operations_syntax

text \<open>
  The payload checksum, \<open>src/utility/crc32.c\<close>: the 256-entry feedback table and the byte-at-a-time
  loop, as the C code has them. The file's own comment gives the reference: the table entries
  "represent the results of eight shift/xor operations" with the polynomial \<open>edb88320\<close>.
  That bit-serial reference is \<open>crc_bit\<close> / \<open>crc32_serial\<close>; the table-driven routine is proved
  equal to it, and the error-detection guarantees are derived from the reference.
\<close>

section \<open>The routine\<close>

definition crc32_tab :: "u32 list" where
  "crc32_tab = [
     0x00000000, 0x77073096, 0xee0e612c, 0x990951ba, 0x076dc419, 0x706af48f,
     0xe963a535, 0x9e6495a3, 0x0edb8832, 0x79dcb8a4, 0xe0d5e91e, 0x97d2d988,
     0x09b64c2b, 0x7eb17cbd, 0xe7b82d07, 0x90bf1d91, 0x1db71064, 0x6ab020f2,
     0xf3b97148, 0x84be41de, 0x1adad47d, 0x6ddde4eb, 0xf4d4b551, 0x83d385c7,
     0x136c9856, 0x646ba8c0, 0xfd62f97a, 0x8a65c9ec, 0x14015c4f, 0x63066cd9,
     0xfa0f3d63, 0x8d080df5, 0x3b6e20c8, 0x4c69105e, 0xd56041e4, 0xa2677172,
     0x3c03e4d1, 0x4b04d447, 0xd20d85fd, 0xa50ab56b, 0x35b5a8fa, 0x42b2986c,
     0xdbbbc9d6, 0xacbcf940, 0x32d86ce3, 0x45df5c75, 0xdcd60dcf, 0xabd13d59,
     0x26d930ac, 0x51de003a, 0xc8d75180, 0xbfd06116, 0x21b4f4b5, 0x56b3c423,
     0xcfba9599, 0xb8bda50f, 0x2802b89e, 0x5f058808, 0xc60cd9b2, 0xb10be924,
     0x2f6f7c87, 0x58684c11, 0xc1611dab, 0xb6662d3d, 0x76dc4190, 0x01db7106,
     0x98d220bc, 0xefd5102a, 0x71b18589, 0x06b6b51f, 0x9fbfe4a5, 0xe8b8d433,
     0x7807c9a2, 0x0f00f934, 0x9609a88e, 0xe10e9818, 0x7f6a0dbb, 0x086d3d2d,
     0x91646c97, 0xe6635c01, 0x6b6b51f4, 0x1c6c6162, 0x856530d8, 0xf262004e,
     0x6c0695ed, 0x1b01a57b, 0x8208f4c1, 0xf50fc457, 0x65b0d9c6, 0x12b7e950,
     0x8bbeb8ea, 0xfcb9887c, 0x62dd1ddf, 0x15da2d49, 0x8cd37cf3, 0xfbd44c65,
     0x4db26158, 0x3ab551ce, 0xa3bc0074, 0xd4bb30e2, 0x4adfa541, 0x3dd895d7,
     0xa4d1c46d, 0xd3d6f4fb, 0x4369e96a, 0x346ed9fc, 0xad678846, 0xda60b8d0,
     0x44042d73, 0x33031de5, 0xaa0a4c5f, 0xdd0d7cc9, 0x5005713c, 0x270241aa,
     0xbe0b1010, 0xc90c2086, 0x5768b525, 0x206f85b3, 0xb966d409, 0xce61e49f,
     0x5edef90e, 0x29d9c998, 0xb0d09822, 0xc7d7a8b4, 0x59b33d17, 0x2eb40d81,
     0xb7bd5c3b, 0xc0ba6cad, 0xedb88320, 0x9abfb3b6, 0x03b6e20c, 0x74b1d29a,
     0xead54739, 0x9dd277af, 0x04db2615, 0x73dc1683, 0xe3630b12, 0x94643b84,
     0x0d6d6a3e, 0x7a6a5aa8, 0xe40ecf0b, 0x9309ff9d, 0x0a00ae27, 0x7d079eb1,
     0xf00f9344, 0x8708a3d2, 0x1e01f268, 0x6906c2fe, 0xf762575d, 0x806567cb,
     0x196c3671, 0x6e6b06e7, 0xfed41b76, 0x89d32be0, 0x10da7a5a, 0x67dd4acc,
     0xf9b9df6f, 0x8ebeeff9, 0x17b7be43, 0x60b08ed5, 0xd6d6a3e8, 0xa1d1937e,
     0x38d8c2c4, 0x4fdff252, 0xd1bb67f1, 0xa6bc5767, 0x3fb506dd, 0x48b2364b,
     0xd80d2bda, 0xaf0a1b4c, 0x36034af6, 0x41047a60, 0xdf60efc3, 0xa867df55,
     0x316e8eef, 0x4669be79, 0xcb61b38c, 0xbc66831a, 0x256fd2a0, 0x5268e236,
     0xcc0c7795, 0xbb0b4703, 0x220216b9, 0x5505262f, 0xc5ba3bbe, 0xb2bd0b28,
     0x2bb45a92, 0x5cb36a04, 0xc2d7ffa7, 0xb5d0cf31, 0x2cd99e8b, 0x5bdeae1d,
     0x9b64c2b0, 0xec63f226, 0x756aa39c, 0x026d930a, 0x9c0906a9, 0xeb0e363f,
     0x72076785, 0x05005713, 0x95bf4a82, 0xe2b87a14, 0x7bb12bae, 0x0cb61b38,
     0x92d28e9b, 0xe5d5be0d, 0x7cdcefb7, 0x0bdbdf21, 0x86d3d2d4, 0xf1d4e242,
     0x68ddb3f8, 0x1fda836e, 0x81be16cd, 0xf6b9265b, 0x6fb077e1, 0x18b74777,
     0x88085ae6, 0xff0f6a70, 0x66063bca, 0x11010b5c, 0x8f659eff, 0xf862ae69,
     0x616bffd3, 0x166ccf45, 0xa00ae278, 0xd70dd2ee, 0x4e048354, 0x3903b3c2,
     0xa7672661, 0xd06016f7, 0x4969474d, 0x3e6e77db, 0xaed16a4a, 0xd9d65adc,
     0x40df0b66, 0x37d83bf0, 0xa9bcae53, 0xdebb9ec5, 0x47b2cf7f, 0x30b5ffe9,
     0xbdbdf21c, 0xcabac28a, 0x53b39330, 0x24b4a3a6, 0xbad03605, 0xcdd70693,
     0x54de5729, 0x23d967bf, 0xb3667a2e, 0xc4614ab8, 0x5d681b02, 0x2a6f2b94,
     0xb40bbe37, 0xc30c8ea1, 0x5a05df1b, 0x2d02ef8d]"

text \<open>The body of \<open>while (size--)\<close>: one table look-up per byte.\<close>

definition crc32_step :: "u32 \<Rightarrow> u8 \<Rightarrow> u32" where
  "crc32_step crc p = crc32_tab ! unat ((crc XOR ucast p) AND 0xFF) XOR drop_bit 8 crc"

fun crc32_loop :: "u32 \<Rightarrow> bytes \<Rightarrow> u32" where
  "crc32_loop crc [] = crc"
| "crc32_loop crc (p # buf) = crc32_loop (crc32_step crc p) buf"

text \<open>\<open>crc32(crc, buf, size)\<close>, where the list holds the \<open>size\<close> bytes at \<open>buf\<close>.\<close>

definition crc32 :: "u32 \<Rightarrow> bytes \<Rightarrow> u32" where
  "crc32 crc buf = crc32_loop (crc XOR NOT 0) buf XOR NOT 0"

section \<open>The bit-serial reference\<close>

definition crc_poly :: u32 where
  "crc_poly = 0xEDB88320"

definition crc_bit :: "u32 \<Rightarrow> u32" where
  "crc_bit c = (if bit c 0 then drop_bit 1 c XOR crc_poly else drop_bit 1 c)"

definition crc_bits :: "nat \<Rightarrow> u32 \<Rightarrow> u32" where
  "crc_bits n c = (crc_bit ^^ n) c"

fun crc_serial_loop :: "u32 \<Rightarrow> bytes \<Rightarrow> u32" where
  "crc_serial_loop c [] = c"
| "crc_serial_loop c (b # bs) = crc_serial_loop (crc_bits 8 (c XOR ucast b)) bs"

definition crc32_serial :: "u32 \<Rightarrow> bytes \<Rightarrow> u32" where
  "crc32_serial c bs = crc_serial_loop (c XOR NOT 0) bs XOR NOT 0"

section \<open>Shift-register algebra\<close>

lemma crc_bit_xor: "crc_bit (a XOR b) = crc_bit a XOR crc_bit b"
  by (rule bit_word_eqI) (auto simp: crc_bit_def bit_xor_iff bit_drop_bit_eq)

lemma crc_bits_0 [simp]: "crc_bits 0 c = c"
  by (simp add: crc_bits_def)

lemma crc_bits_Suc: "crc_bits (Suc n) c = crc_bits n (crc_bit c)"
  by (simp add: crc_bits_def funpow_swap1)

lemma crc_bits_add: "crc_bits (m + n) c = crc_bits m (crc_bits n c)"
  by (simp add: crc_bits_def funpow_add)

lemma crc_bits_xor: "crc_bits n (a XOR b) = crc_bits n a XOR crc_bits n b"
  by (induction n arbitrary: a b) (simp_all add: crc_bits_Suc crc_bit_xor)

text \<open>Shifting in zero bits is a plain shift.\<close>

lemma crc_bits_shift:
  "(\<And>i. i < n \<Longrightarrow> \<not> bit c i) \<Longrightarrow> crc_bits n c = drop_bit n c"
proof (induction n arbitrary: c)
  case 0
  then show ?case by simp
next
  case (Suc n)
  from Suc.prems [of 0] have step: "crc_bit c = drop_bit 1 c"
    by (simp add: crc_bit_def)
  have "\<not> bit (drop_bit 1 c) i" if "i < n" for i
    using Suc.prems [of "Suc i"] that by (simp add: bit_drop_bit_eq)
  then have "crc_bits n (drop_bit 1 c) = drop_bit n (drop_bit 1 c)"
    by (rule Suc.IH)
  then show ?case
    by (simp add: crc_bits_Suc step drop_bit_drop_bit)
qed

text \<open>
  One shift is injective: the polynomial has its top bit set, so the bit shifted out can be read
  off the result.
\<close>

lemma crc_bit_top: "bit (crc_bit c) 31 \<longleftrightarrow> bit c 0"
proof -
  have "\<not> bit (drop_bit (Suc 0) c) 31"
    by (auto simp: bit_drop_bit_eq dest: bit_imp_le_length)
  moreover have "bit crc_poly 31"
    by (simp add: crc_poly_def)
  ultimately show ?thesis
    by (simp add: crc_bit_def bit_xor_iff)
qed

lemma crc_bit_inj: "crc_bit a = crc_bit b \<Longrightarrow> a = b"
proof (rule bit_word_eqI)
  fix n
  assume eq: "crc_bit a = crc_bit b"
  then have low: "bit a 0 = bit b 0"
    by (metis crc_bit_top)
  with eq have shifted: "drop_bit 1 a = drop_bit 1 b"
    by (auto simp: crc_bit_def split: if_splits)
  show "bit a n = bit b n"
  proof (cases n)
    case 0
    with low show ?thesis by simp
  next
    case (Suc k)
    from shifted have "bit (drop_bit 1 a) k = bit (drop_bit 1 b) k" by simp
    with Suc show ?thesis by (simp add: bit_drop_bit_eq)
  qed
qed

lemma crc_bits_inj: "crc_bits n a = crc_bits n b \<Longrightarrow> a = b"
  by (induction n arbitrary: a b) (auto simp: crc_bits_Suc dest: crc_bit_inj)

section \<open>The table is the reference, eight bits at a time\<close>

lemma length_crc32_tab [simp]: "length crc32_tab = 256"
  by (simp add: crc32_tab_def)

lemma crc_bits_8: "crc_bits 8 c = crc_bit (crc_bit (crc_bit (crc_bit (crc_bit (crc_bit (crc_bit (crc_bit c)))))))"
  by (simp add: crc_bits_def numeral_eq_Suc)

lemma crc_bit_numeral:
  "crc_bit (numeral k) = (if bit (numeral k :: u32) 0 then drop_bit (Suc 0) (numeral k) XOR 0xEDB88320
     else drop_bit (Suc 0) (numeral k))"
  "crc_bit 0 = 0" "crc_bit 1 = 0xEDB88320"
  by (simp_all add: crc_bit_def crc_poly_def)

text \<open>
  The 256 entries are checked by linearity: the sixteen entries of the low nibble and the sixteen of
  the high nibble are computed bit by bit, every other entry is their exclusive or.
\<close>

lemma upt_16: "[0..<16] = [0, 1, 2, 3, 4, 5, 6, 7, 8, 9, 10, 11, 12, 13, 14, 15]"
  by (simp add: upt_plus_one [of 0 16] upt_plus_one [of 1 16] del: One_nat_def)

lemma upt_256: "[0..<256] = concat (map (\<lambda>h. map (\<lambda>l. 16 * h + l) [0..<16]) [0..<16])"
  by (simp add: upt_16 upt_plus_one [of 0 256] upt_plus_one [of 1 256] del: One_nat_def)

lemma crc_low_nibble:
  "map (\<lambda>l. crc_bits 8 (of_nat l)) [0..<16] =
    [0x00000000, 0x77073096, 0xee0e612c, 0x990951ba, 0x076dc419, 0x706af48f,
     0xe963a535, 0x9e6495a3, 0x0edb8832, 0x79dcb8a4, 0xe0d5e91e, 0x97d2d988,
     0x09b64c2b, 0x7eb17cbd, 0xe7b82d07, 0x90bf1d91]"
  by (simp add: upt_16 crc_bits_8 crc_bit_numeral)

lemma crc_high_nibble:
  "map (\<lambda>h. crc_bits 8 (of_nat (16 * h))) [0..<16] =
    [0x00000000, 0x1db71064, 0x3b6e20c8, 0x26d930ac, 0x76dc4190, 0x6b6b51f4,
     0x4db26158, 0x5005713c, 0xedb88320, 0xf00f9344, 0xd6d6a3e8, 0xcb61b38c,
     0x9b64c2b0, 0x86d3d2d4, 0xa00ae278, 0xbdbdf21c]"
  by (simp add: upt_16 crc_bits_8 crc_bit_numeral)

lemma bit_small_nat: "l < 2 ^ k \<Longrightarrow> bit (l :: nat) n \<Longrightarrow> n < k"
proof (rule ccontr)
  assume l: "l < 2 ^ k" "bit l n" and "\<not> n < k"
  then have "(2 :: nat) ^ k \<le> 2 ^ n" by simp
  with l(1) have "l < 2 ^ n" by linarith
  with l(2) show False by (simp add: bit_iff_odd)
qed

lemma of_nat_nibbles: "l < 16 \<Longrightarrow> (of_nat (16 * h + l) :: u32) = of_nat (16 * h) XOR of_nat l"
proof -
  assume l: "l < 16"
  have hi: "(of_nat (16 * h) :: u32) = push_bit 4 (of_nat h)"
    by (simp add: push_bit_eq_mult)
  have "(of_nat (16 * h) :: u32) AND of_nat l = 0"
    unfolding hi using l bit_small_nat [of l 4]
    by (intro bit_word_eqI) (force simp: bit_and_iff bit_push_bit_iff bit_of_nat_iff)
  then show ?thesis
    by (simp only: of_nat_add disjunctive_add_eq_xor)
qed

lemma crc32_tab_eq: "crc32_tab = map (\<lambda>i. crc_bits 8 (of_nat i)) [0..<256]"
proof -
  have "map (\<lambda>i. crc_bits 8 (of_nat i)) [0..<256]
      = concat (map (\<lambda>h. map (\<lambda>l. crc_bits 8 (of_nat (16 * h)) XOR crc_bits 8 (of_nat l)) [0..<16]) [0..<16])"
    unfolding upt_256 map_concat map_map o_def
    by (intro arg_cong [where f = concat] map_cong refl) (simp add: of_nat_nibbles crc_bits_xor del: of_nat_add of_nat_mult)
  also have "\<dots> = concat (map (\<lambda>h. map (\<lambda>l. h XOR l) (map (\<lambda>l. crc_bits 8 (of_nat l)) [0..<16]))
      (map (\<lambda>h. crc_bits 8 (of_nat (16 * h))) [0..<16]))"
    unfolding map_map o_def by simp
  also have "\<dots> = crc32_tab"
    unfolding crc_low_nibble crc_high_nibble crc32_tab_def by simp
  finally show ?thesis ..
qed

lemma crc32_tab_nth: "i < 256 \<Longrightarrow> crc32_tab ! i = crc_bits 8 (of_nat i)"
  by (simp add: crc32_tab_eq)

lemma u32_low_byte_split: "(x :: u32) = (x AND 0xFF) XOR push_bit 8 (drop_bit 8 x)"
proof (rule bit_word_eqI)
  fix n
  have "bit (0xFF :: u32) n \<longleftrightarrow> n < 8"
    using bit_mask_iff [where 'a = u32, of 8 n] by (auto simp: mask_numeral)
  then show "bit x n = bit ((x AND 0xFF) XOR push_bit 8 (drop_bit 8 x)) n"
    by (cases "n < 8")
      (auto simp: bit_xor_iff bit_and_iff bit_push_bit_iff bit_drop_bit_eq dest: bit_imp_le_length)
qed

lemma unat_low_byte: "unat ((x :: u32) AND 0xFF) < 256"
proof -
  have "unat (x AND 0xFF) \<le> unat (0xFF :: u32)"
    by (rule word_and_le1 [THEN word_le_nat_alt [THEN iffD1]])
  then show ?thesis by simp
qed

lemma crc_bits_8_tab: "crc_bits 8 x = crc32_tab ! unat (x AND 0xFF) XOR drop_bit 8 x"
proof -
  have hi: "crc_bits 8 (push_bit 8 (drop_bit 8 x)) = drop_bit 8 x"
  proof -
    have "crc_bits 8 (push_bit 8 (drop_bit 8 x)) = drop_bit 8 (push_bit 8 (drop_bit 8 x))"
      by (rule crc_bits_shift) (simp add: bit_push_bit_iff)
    also have "\<dots> = drop_bit 8 x"
      by (rule bit_word_eqI) (auto simp: bit_push_bit_iff bit_drop_bit_eq dest: bit_imp_le_length)
    finally show ?thesis .
  qed
  have "crc_bits 8 x = crc_bits 8 (x AND 0xFF) XOR crc_bits 8 (push_bit 8 (drop_bit 8 x))"
    by (subst u32_low_byte_split [of x]) (rule crc_bits_xor)
  also have "crc_bits 8 (x AND 0xFF) = crc32_tab ! unat (x AND 0xFF)"
    by (simp add: crc32_tab_nth unat_low_byte)
  finally show ?thesis by (simp add: hi)
qed

lemma drop_bit_8_ucast: "drop_bit 8 (ucast (b :: u8) :: u32) = 0"
  by (rule bit_word_eqI) (auto simp: bit_drop_bit_eq bit_ucast_iff dest: bit_imp_le_length)

lemma crc32_step_serial: "crc32_step c b = crc_bits 8 (c XOR ucast b)"
proof -
  have "drop_bit 8 (c XOR ucast b) = drop_bit 8 c"
    by (simp add: drop_bit_xor drop_bit_8_ucast)
  then show ?thesis
    by (simp add: crc32_step_def crc_bits_8_tab)
qed

lemma crc32_loop_serial: "crc32_loop c bs = crc_serial_loop c bs"
  by (induction bs arbitrary: c) (simp_all add: crc32_step_serial)

section \<open>Chaining and burst errors\<close>

lemma crc32_loop_append: "crc32_loop c (xs @ ys) = crc32_loop (crc32_loop c xs) ys"
  by (induction xs arbitrary: c) simp_all

lemma crc32_loop_inj: "crc32_loop a bs = crc32_loop b bs \<Longrightarrow> a = b"
proof (induction bs arbitrary: a b)
  case Nil
  then show ?case by simp
next
  case (Cons p bs)
  then have "crc_bits 8 (a XOR ucast p) = crc_bits 8 (b XOR ucast p)"
    by (auto simp: crc32_step_serial)
  then show ?case
    by (auto dest: crc_bits_inj)
qed

text \<open>
  A window of up to four bytes enters the register as one little-endian word: every earlier byte
  is shifted through while the later ones wait in the upper bits.
\<close>

lemma ucast_u8_shift: "crc_bits 8 (push_bit 8 (w :: u32)) = drop_bit 8 (push_bit 8 w)"
  by (rule crc_bits_shift) (simp add: bit_push_bit_iff)

lemma drop_push_small:
  "length bs \<le> 3 \<Longrightarrow> drop_bit 8 (push_bit 8 (le_word bs :: u32)) = le_word bs"
proof -
  assume len: "length bs \<le> 3"
  have small: "bit (le_word bs :: u32) n \<Longrightarrow> n < 8 * length bs" for n and bs :: bytes
  proof (induction bs arbitrary: n)
    case Nil
    then show ?case by simp
  next
    case (Cons b bs)
    then have "bit (ucast b :: u32) n \<or> (8 \<le> n \<and> bit (le_word bs :: u32) (n - 8))"
      by (auto simp: bit_or_iff bit_push_bit_iff)
    then show ?case
      using Cons.IH [of "n - 8"] by (auto simp: bit_ucast_iff dest: bit_imp_le_length)
  qed
  show ?thesis
    by (rule bit_word_eqI)
      (use len small [of bs] in \<open>fastforce simp: bit_push_bit_iff bit_drop_bit_eq\<close>)
qed

lemma ucast_or_xor: "(ucast (b :: u8) :: u32) OR push_bit 8 w = ucast b XOR push_bit 8 w"
  by (rule bit_word_eqI)
    (auto simp: bit_or_iff bit_xor_iff bit_ucast_iff bit_push_bit_iff dest: bit_imp_le_length)

lemma crc32_loop_window:
  "length bs \<le> 4 \<Longrightarrow> crc32_loop c bs = crc_bits (8 * length bs) (c XOR le_word bs)"
proof (induction bs arbitrary: c)
  case Nil
  then show ?case by simp
next
  case (Cons b bs)
  have w: "crc_bits 8 (push_bit 8 (le_word bs)) = le_word bs"
    using Cons.prems by (simp add: ucast_u8_shift drop_push_small)
  have "crc32_loop c (b # bs) = crc_bits (8 * length bs) (crc_bits 8 (c XOR ucast b) XOR le_word bs)"
    using Cons by (simp add: crc32_step_serial)
  also have "crc_bits 8 (c XOR ucast b) XOR le_word bs
      = crc_bits 8 (c XOR ucast b XOR push_bit 8 (le_word bs))"
    by (simp add: crc_bits_xor w xor.assoc)
  also have "c XOR ucast b XOR push_bit 8 (le_word bs) = c XOR le_word (b # bs)"
    by (simp add: ucast_or_xor xor.assoc)
  finally show ?case
    by (simp add: crc_bits_add [symmetric] add.commute)
qed

lemma le_word_inj:
  "length xs = length ys \<Longrightarrow> length xs \<le> 4 \<Longrightarrow> (le_word xs :: u32) = le_word ys \<Longrightarrow> xs = ys"
proof (induction xs ys rule: list_induct2)
  case Nil
  then show ?case by simp
next
  case (Cons x xs y ys)
  then have eq: "(ucast x XOR push_bit 8 (le_word xs) :: u32) = ucast y XOR push_bit 8 (le_word ys)"
    by (simp add: ucast_or_xor)
  have "x = y"
  proof (rule bit_word_eqI)
    fix n assume "n < LENGTH(8)"
    moreover from eq have "bit (ucast x XOR push_bit 8 (le_word xs) :: u32) n
        = bit (ucast y XOR push_bit 8 (le_word ys) :: u32) n" by simp
    ultimately show "bit x n = bit y n"
      by (simp add: bit_xor_iff bit_ucast_iff bit_push_bit_iff)
  qed
  moreover have "(le_word xs :: u32) = le_word ys"
  proof -
    from eq \<open>x = y\<close> have "push_bit 8 (le_word xs :: u32) = push_bit 8 (le_word ys)"
      by simp
    then have "drop_bit 8 (push_bit 8 (le_word xs :: u32)) = drop_bit 8 (push_bit 8 (le_word ys))"
      by simp
    then show ?thesis
      using Cons.prems Cons.hyps by (simp add: drop_push_small)
  qed
  ultimately show ?case
    using Cons by simp
qed

lemma crc32_burst:
  assumes "length xs = length ys" and "length xs \<le> 4" and "xs \<noteq> ys"
  shows "crc32 c (pre @ xs @ post) \<noteq> crc32 c (pre @ ys @ post)"
proof
  assume "crc32 c (pre @ xs @ post) = crc32 c (pre @ ys @ post)"
  then have "crc32_loop (crc32_loop (c XOR NOT 0) pre) xs = crc32_loop (crc32_loop (c XOR NOT 0) pre) ys"
    by (auto simp: crc32_def crc32_loop_append dest: crc32_loop_inj)
  then have "(le_word xs :: u32) = le_word ys"
    using assms(1,2) by (auto simp: crc32_loop_window dest!: crc_bits_inj)
  with assms show False
    using le_word_inj by blast
qed

lemma crc32_Nil [simp]: "crc32 c [] = c"
  by (simp add: crc32_def xor.assoc)

lemma crc32_append: "crc32 (crc32 c xs) ys = crc32 c (xs @ ys)"
  by (simp add: crc32_def crc32_loop_append xor.assoc)

section \<open>Properties\<close>

text \<open>
  C24: the table-driven \<open>crc32\<close> equals the bit-serial CRC with the polynomial \<open>edb88320\<close> that the
  source's comment describes, for every seed and every buffer.
\<close>

theorem crc32_equiv_serial: "crc32 c bs = crc32_serial c bs"
  by (simp add: crc32_def crc32_serial_def crc32_loop_serial)

text \<open>
  C20: \<open>crc32\<close> detects every burst error within four consecutive bytes: two images of the same
  length that agree outside such a window and differ inside it never have the same checksum.
\<close>

theorem crc32_detects_bursts:
  assumes "length xs = length ys" and "length xs \<le> 4" and "xs \<noteq> ys"
  shows "crc32 c (pre @ xs @ post) \<noteq> crc32 c (pre @ ys @ post)"
  using assms by (rule crc32_burst)

theorem crc32_detects_bursts_witness:
  "crc32 0 ([1] @ [0x10, 0x20] @ [7]) \<noteq> crc32 0 ([1] @ [0x11, 0xA0] @ [7])"
  by (rule crc32_detects_bursts) simp_all

text \<open>
  The checksum of a buffer can be computed piecewise, by passing the checksum of the first part
  as the seed of the second; with an empty buffer the seed is returned unchanged (the monitor
  relies on this for ELF payloads, whose declared size is 0).
\<close>

lemma crc32_chaining: "crc32 (crc32 c xs) ys = crc32 c (xs @ ys) \<and> crc32 c [] = c"
  by (simp add: crc32_append)

end
