(* ===== verification/Bm_Types.thy ===== *)
theory Bm_Types
  imports Bm_Prelude
begin

text \<open>
  The public vocabulary of bmboot: \<open>include/bmboot.hpp\<close> (domain states, domain indices, error codes)
  and its printers and parser, \<open>src/utility/to_string.cpp\<close>. Enumerators keep the source's names;
  the integer value of each is given by the functions \<open>int_of_DomainState\<close>, \<open>int_of_ErrorCode\<close>, and
  a raw integer found in shared memory is read back with \<open>DomainState_of\<close>.
\<close>

section \<open>Enumerations\<close>

datatype DomainState =
    in_reset
  | monitor_ready
  | starting_payload
  | running_payload
  | crashed_payload
  | crashed_monitor
  | unavailable
  | invalid_state

datatype DomainIndex = cpu1 | cpu2 | cpu3 | max_domain

datatype ErrorCode =
    bad_domain_state
  | configuration_file_error
  | hw_resource_unavailable
  | payload_start_timed_out
  | payload_checksum_mismatch
  | payload_image_malformed
  | payload_abi_incompatible
  | payload_crashed_during_startup
  | program_too_large
  | monitor_start_timed_out
  | unknown_error
  | dev_mem_access_failed
  | mmap_failed

text \<open>\<open>using MaybeError = std::optional<ErrorCode>\<close>.\<close>

type_synonym MaybeError = "ErrorCode option"

fun int_of_DomainState :: "DomainState \<Rightarrow> nat" where
  "int_of_DomainState in_reset = 0"
| "int_of_DomainState monitor_ready = 1"
| "int_of_DomainState starting_payload = 2"
| "int_of_DomainState running_payload = 3"
| "int_of_DomainState crashed_payload = 4"
| "int_of_DomainState crashed_monitor = 5"
| "int_of_DomainState unavailable = 6"
| "int_of_DomainState invalid_state = 7"

definition DomainState_of :: "nat \<Rightarrow> DomainState option" where
  "DomainState_of n =
     (if n = 0 then Some in_reset
      else if n = 1 then Some monitor_ready
      else if n = 2 then Some starting_payload
      else if n = 3 then Some running_payload
      else if n = 4 then Some crashed_payload
      else if n = 5 then Some crashed_monitor
      else if n = 6 then Some unavailable
      else if n = 7 then Some invalid_state
      else None)"

fun int_of_ErrorCode :: "ErrorCode \<Rightarrow> nat" where
  "int_of_ErrorCode bad_domain_state = 0"
| "int_of_ErrorCode configuration_file_error = 1"
| "int_of_ErrorCode hw_resource_unavailable = 2"
| "int_of_ErrorCode payload_start_timed_out = 3"
| "int_of_ErrorCode payload_checksum_mismatch = 4"
| "int_of_ErrorCode payload_image_malformed = 5"
| "int_of_ErrorCode payload_abi_incompatible = 6"
| "int_of_ErrorCode payload_crashed_during_startup = 7"
| "int_of_ErrorCode program_too_large = 8"
| "int_of_ErrorCode monitor_start_timed_out = 9"
| "int_of_ErrorCode unknown_error = 10"
| "int_of_ErrorCode dev_mem_access_failed = 11"
| "int_of_ErrorCode mmap_failed = 12"

section \<open>\<open>std::to_string\<close> on non-negative integers\<close>

definition digit_char :: "nat \<Rightarrow> char" where
  "digit_char d = char_of (48 + d)"

fun to_string :: "nat \<Rightarrow> string" where
  "to_string n = (if n < 10 then [digit_char n] else to_string (n div 10) @ [digit_char (n mod 10)])"

declare to_string.simps [simp del]

text \<open>\<open>%x\<close> and \<open>%d\<close> of \<open>printf\<close>.\<close>

definition hex_digit :: "nat \<Rightarrow> char" where
  "hex_digit n = (if n < 10 then char_of (48 + n) else char_of (87 + n))"

fun to_hex :: "nat \<Rightarrow> string" where
  "to_hex n = (if n < 16 then [hex_digit n] else to_hex (n div 16) @ [hex_digit (n mod 16)])"

declare to_hex.simps [simp del]

definition signed_string :: "int \<Rightarrow> string" where
  "signed_string i = (if i < 0 then ''-'' @ to_string (nat (- i)) else to_string (nat i))"

section \<open>Printers and the domain parser\<close>

definition parseDomainIndex :: "string \<Rightarrow> DomainIndex option" where
  "parseDomainIndex str =
     (if str = ''cpu1'' then Some cpu1
      else if str = ''cpu2'' then Some cpu2
      else if str = ''cpu3'' then Some cpu3
      else None)"

fun toString_DomainIndex :: "DomainIndex \<Rightarrow> string" where
  "toString_DomainIndex cpu1 = ''cpu1''"
| "toString_DomainIndex cpu2 = ''cpu2''"
| "toString_DomainIndex cpu3 = ''cpu3''"
| "toString_DomainIndex _ = ''invalid''"

fun DomainState_name :: "DomainState \<Rightarrow> string" where
  "DomainState_name in_reset = ''in_reset''"
| "DomainState_name monitor_ready = ''monitor_ready''"
| "DomainState_name starting_payload = ''starting_payload''"
| "DomainState_name running_payload = ''running_payload''"
| "DomainState_name crashed_payload = ''crashed_payload''"
| "DomainState_name crashed_monitor = ''crashed_monitor''"
| "DomainState_name unavailable = ''unavailable''"
| "DomainState_name invalid_state = ''invalid_state''"

text \<open>\<open>toString(DomainState)\<close> switches on the underlying value, which need not be an enumerator.\<close>

definition toString_DomainState :: "nat \<Rightarrow> string" where
  "toString_DomainState state =
     (case DomainState_of state of
        Some s \<Rightarrow> DomainState_name s
      | None \<Rightarrow> ''unknown state '' @ to_string state)"

fun toString_ErrorCode :: "ErrorCode \<Rightarrow> string" where
  "toString_ErrorCode bad_domain_state = ''bad domain state''"
| "toString_ErrorCode configuration_file_error = ''/etc/bmboot.conf not found or malformed (see docs)''"
| "toString_ErrorCode hw_resource_unavailable = ''a requested hardware resource is not available''"
| "toString_ErrorCode payload_abi_incompatible = ''payload was built against an incompatible ABI version''"
| "toString_ErrorCode payload_crashed_during_startup = ''payload crashed during startup''"
| "toString_ErrorCode payload_image_malformed = ''provided file is not a valid Bmboot payload''"
| "toString_ErrorCode payload_start_timed_out = ''payload startup timed out''"
| "toString_ErrorCode program_too_large = ''program too large, or wrong load address''"
| "toString_ErrorCode monitor_start_timed_out = ''monitor startup timed out''"
| "toString_ErrorCode unknown_error = ''unknown error''"
| "toString_ErrorCode err = ''error '' @ to_string (int_of_ErrorCode err)"

section \<open>Lemmas\<close>

lemma DomainState_of_int [simp]: "DomainState_of (int_of_DomainState s) = Some s"
  by (cases s) (simp_all add: DomainState_of_def)

lemma DomainState_of_None: "DomainState_of n = None \<longleftrightarrow> int_of_DomainState invalid_state < n"
  by (auto simp: DomainState_of_def)

lemma int_of_DomainState_inject [simp]:
  "int_of_DomainState s = int_of_DomainState t \<longleftrightarrow> s = t"
  by (metis DomainState_of_int option.inject)

lemma int_of_DomainState_le: "int_of_DomainState s \<le> 7"
  by (cases s) simp_all

lemma digit_char_inj: "a < 10 \<Longrightarrow> b < 10 \<Longrightarrow> digit_char a = digit_char b \<Longrightarrow> a = b"
proof -
  assume ab: "a < 10" "b < 10" and "digit_char a = digit_char b"
  then have "(of_char (digit_char a) :: nat) = of_char (digit_char b)" by simp
  with ab show "a = b" by (simp add: digit_char_def)
qed

lemma to_string_nonempty [simp]: "to_string n \<noteq> []"
  by (subst to_string.simps) simp

lemma Nil_to_string [simp]: "[] \<noteq> to_string n"
  by (metis to_string_nonempty)

text \<open>Decimal printing is injective: the last digit and the rest can be read off.\<close>

lemma to_string_inj: "to_string m = to_string n \<Longrightarrow> m = n"
proof (induction m arbitrary: n rule: to_string.induct)
  case (1 m)
  show ?case
  proof (cases "m < 10")
    case True
    with "1.prems" show ?thesis
      by (auto simp: to_string.simps [of m] to_string.simps [of n] dest: digit_char_inj split: if_splits)
  next
    case False
    with "1.prems" have n: "\<not> n < 10"
      by (auto simp: to_string.simps [of m] to_string.simps [of n] split: if_splits)
    with False "1.prems" have "to_string (m div 10) = to_string (n div 10)"
      and "digit_char (m mod 10) = digit_char (n mod 10)"
      by (simp_all add: to_string.simps [of m] to_string.simps [of n])
    then have "m div 10 = n div 10" and "m mod 10 = n mod 10"
      using "1.IH" [OF False] digit_char_inj [of "m mod 10" "n mod 10"] by auto
    then show ?thesis
      by (metis div_mult_mod_eq)
  qed
qed

lemma toString_ErrorCode_fallback:
  "toString_ErrorCode e = ''error '' @ to_string (int_of_ErrorCode e) \<longleftrightarrow>
   e \<in> {payload_checksum_mismatch, dev_mem_access_failed, mmap_failed}"
  by (cases e) simp_all

lemma DomainState_name_inject: "DomainState_name s = DomainState_name t \<longleftrightarrow> s = t"
  by (cases s; cases t) simp_all

lemma DomainState_name_known: "DomainState_name s \<noteq> ''unknown state '' @ rest"
  by (cases s) simp_all

section \<open>Properties\<close>

text \<open>
  Parsing and printing of domain names are inverse: every usable domain index is recovered from
  its printed name, whatever parses prints back to the same string, and the sentinel \<open>max_domain\<close>
  prints to a name that does not parse.
\<close>

lemma domain_index_roundtrip:
  "parseDomainIndex (toString_DomainIndex i) = (if i = max_domain then None else Some i) \<and>
   (parseDomainIndex str = Some j) = (str = toString_DomainIndex j \<and> j \<noteq> max_domain)"
  by (cases i; cases j) (auto simp: parseDomainIndex_def)

text \<open>
  Every raw state value has a printed form of its own, also the values that are no enumerator
  (they print as \<open>unknown state N\<close>).
\<close>

lemma toString_DomainState_injective:
  "toString_DomainState m = toString_DomainState n \<longleftrightarrow> m = n"
proof
  assume eq: "toString_DomainState m = toString_DomainState n"
  show "m = n"
  proof (cases "DomainState_of m")
    case None
    with eq have "DomainState_of n = None"
      by (metis DomainState_name_known toString_DomainState_def not_Some_eq option.simps(4,5))
    with None eq show ?thesis
      by (auto simp: toString_DomainState_def dest: to_string_inj)
  next
    case (Some s)
    with eq obtain t where t: "DomainState_of n = Some t"
      by (metis DomainState_name_known toString_DomainState_def not_Some_eq option.simps(4,5))
    with Some eq have "s = t"
      by (simp add: toString_DomainState_def DomainState_name_inject)
    with Some t show ?thesis
      by (auto simp: DomainState_of_def split: if_splits)
  qed
qed simp

text \<open>
  Error codes print to pairwise different messages, but three of them (checksum mismatch,
  \<open>/dev/mem\<close> access and \<open>mmap\<close> failure) are absent from the switch of \<open>toString\<close> and print only as a
  number, although the enumeration asks to keep the printer in sync.
\<close>

lemma error_messages:
  "(toString_ErrorCode e = toString_ErrorCode f \<longleftrightarrow> e = f) \<and>
   (toString_ErrorCode e = ''error '' @ to_string (int_of_ErrorCode e) \<longleftrightarrow>
    e \<in> {payload_checksum_mismatch, dev_mem_access_failed, mmap_failed})"
proof
  show "toString_ErrorCode e = toString_ErrorCode f \<longleftrightarrow> e = f"
    by (cases e; cases f) (simp_all add: to_string.simps digit_char_def)
qed (rule toString_ErrorCode_fallback)

end
