(* ===== verification/Memmap.thy ===== *)
theory Memmap
  imports Bm_Types
begin

text \<open>
  The physical memory layout: \<open>src/bmboot_memmap.hpp\<close> and the look-up tables built from it, the
  manager's \<open>getPhysicalMemoryRanges\<close> (\<open>src/manager/domain.cpp\<close>) and the executor's \<open>getIpcBlock\<close>
  (\<open>src/executor/executor.cpp\<close>). The regions are shown to be pairwise disjoint, and the two sides
  are shown to agree on where each core's IPC block lies.
\<close>

section \<open>Constants of \<open>bmboot_memmap.hpp\<close>\<close>

definition bmboot_cpu1_monitor_ADDRESS :: u64 where "bmboot_cpu1_monitor_ADDRESS = 0x800000000"
definition bmboot_cpu1_monitor_SIZE :: u64 where "bmboot_cpu1_monitor_SIZE = 0x00010000"
definition bmboot_cpu1_monitor_ipc_ADDRESS :: u64 where "bmboot_cpu1_monitor_ipc_ADDRESS = 0x800030000"
definition bmboot_cpu1_monitor_ipc_SIZE :: u64 where "bmboot_cpu1_monitor_ipc_SIZE = 0x00004000"
definition bmboot_cpu1_payload_ADDRESS :: u64 where "bmboot_cpu1_payload_ADDRESS = 0x800100000"
definition bmboot_cpu1_payload_SIZE :: u64 where "bmboot_cpu1_payload_SIZE = 0x02000000"
definition bmboot_cpu2_monitor_ADDRESS :: u64 where "bmboot_cpu2_monitor_ADDRESS = 0x800010000"
definition bmboot_cpu2_monitor_SIZE :: u64 where "bmboot_cpu2_monitor_SIZE = 0x00010000"
definition bmboot_cpu2_monitor_ipc_ADDRESS :: u64 where "bmboot_cpu2_monitor_ipc_ADDRESS = 0x800034000"
definition bmboot_cpu2_monitor_ipc_SIZE :: u64 where "bmboot_cpu2_monitor_ipc_SIZE = 0x00004000"
definition bmboot_cpu2_payload_ADDRESS :: u64 where "bmboot_cpu2_payload_ADDRESS = 0x802100000"
definition bmboot_cpu2_payload_SIZE :: u64 where "bmboot_cpu2_payload_SIZE = 0x02000000"
definition bmboot_cpu3_monitor_ADDRESS :: u64 where "bmboot_cpu3_monitor_ADDRESS = 0x800020000"
definition bmboot_cpu3_monitor_SIZE :: u64 where "bmboot_cpu3_monitor_SIZE = 0x00010000"
definition bmboot_cpu3_monitor_ipc_ADDRESS :: u64 where "bmboot_cpu3_monitor_ipc_ADDRESS = 0x800038000"
definition bmboot_cpu3_monitor_ipc_SIZE :: u64 where "bmboot_cpu3_monitor_ipc_SIZE = 0x00004000"
definition bmboot_cpu3_payload_ADDRESS :: u64 where "bmboot_cpu3_payload_ADDRESS = 0x804100000"
definition bmboot_cpu3_payload_SIZE :: u64 where "bmboot_cpu3_payload_SIZE = 0x02000000"

lemmas memmap_defs =
  bmboot_cpu1_monitor_ADDRESS_def bmboot_cpu1_monitor_SIZE_def
  bmboot_cpu1_monitor_ipc_ADDRESS_def bmboot_cpu1_monitor_ipc_SIZE_def
  bmboot_cpu1_payload_ADDRESS_def bmboot_cpu1_payload_SIZE_def
  bmboot_cpu2_monitor_ADDRESS_def bmboot_cpu2_monitor_SIZE_def
  bmboot_cpu2_monitor_ipc_ADDRESS_def bmboot_cpu2_monitor_ipc_SIZE_def
  bmboot_cpu2_payload_ADDRESS_def bmboot_cpu2_payload_SIZE_def
  bmboot_cpu3_monitor_ADDRESS_def bmboot_cpu3_monitor_SIZE_def
  bmboot_cpu3_monitor_ipc_ADDRESS_def bmboot_cpu3_monitor_ipc_SIZE_def
  bmboot_cpu3_payload_ADDRESS_def bmboot_cpu3_payload_SIZE_def

section \<open>Per-domain ranges\<close>

record PhysicalMemoryRanges =
  monitor_address :: u64
  monitor_size :: u64
  monitor_ipc_address :: u64
  monitor_ipc_size :: u64
  payload_address :: u64
  payload_size :: u64

text \<open>\<open>std::terminate\<close> on an index that is no domain is the result \<open>None\<close>.\<close>

fun getPhysicalMemoryRanges :: "DomainIndex \<Rightarrow> PhysicalMemoryRanges option" where
  "getPhysicalMemoryRanges cpu1 = Some
     \<lparr>monitor_address = bmboot_cpu1_monitor_ADDRESS,
      monitor_size = bmboot_cpu1_monitor_SIZE,
      monitor_ipc_address = bmboot_cpu1_monitor_ipc_ADDRESS,
      monitor_ipc_size = bmboot_cpu1_monitor_ipc_SIZE,
      payload_address = bmboot_cpu1_payload_ADDRESS,
      payload_size = bmboot_cpu1_payload_SIZE\<rparr>"
| "getPhysicalMemoryRanges cpu2 = Some
     \<lparr>monitor_address = bmboot_cpu2_monitor_ADDRESS,
      monitor_size = bmboot_cpu2_monitor_SIZE,
      monitor_ipc_address = bmboot_cpu2_monitor_ipc_ADDRESS,
      monitor_ipc_size = bmboot_cpu2_monitor_ipc_SIZE,
      payload_address = bmboot_cpu2_payload_ADDRESS,
      payload_size = bmboot_cpu2_payload_SIZE\<rparr>"
| "getPhysicalMemoryRanges cpu3 = Some
     \<lparr>monitor_address = bmboot_cpu3_monitor_ADDRESS,
      monitor_size = bmboot_cpu3_monitor_SIZE,
      monitor_ipc_address = bmboot_cpu3_monitor_ipc_ADDRESS,
      monitor_ipc_size = bmboot_cpu3_monitor_ipc_SIZE,
      payload_address = bmboot_cpu3_payload_ADDRESS,
      payload_size = bmboot_cpu3_payload_SIZE\<rparr>"
| "getPhysicalMemoryRanges max_domain = None"

section \<open>The executor's side\<close>

text \<open>\<open>internal::getCpuIndex\<close>: the Aff0 field of \<open>MPIDR_EL1\<close>.\<close>

definition getCpuIndex :: "u64 \<Rightarrow> nat" where
  "getCpuIndex mpidr_el1 = unat (mpidr_el1 AND 0xff)"

text \<open>\<open>internal::getIpcBlock\<close>: the address of this core's block, \<open>None\<close> for \<open>abort()\<close>.\<close>

definition getIpcBlock :: "nat \<Rightarrow> u64 option" where
  "getIpcBlock cpu_index =
     (if cpu_index = 1 then Some bmboot_cpu1_monitor_ipc_ADDRESS
      else if cpu_index = 2 then Some bmboot_cpu2_monitor_ipc_ADDRESS
      else if cpu_index = 3 then Some bmboot_cpu3_monitor_ipc_ADDRESS
      else None)"

text \<open>The manager's numbering of cores (\<open>getCpuIndex\<close> of \<open>zynqmp_manager.cpp\<close>).\<close>

fun getCpuIndex_manager :: "DomainIndex \<Rightarrow> nat option" where
  "getCpuIndex_manager cpu1 = Some 1"
| "getCpuIndex_manager cpu2 = Some 2"
| "getCpuIndex_manager cpu3 = Some 3"
| "getCpuIndex_manager max_domain = None"

section \<open>Regions\<close>

text \<open>A region as base and size; the byte addresses it covers.\<close>

type_synonym region = "u64 \<times> u64"

definition in_region :: "u64 \<Rightarrow> region \<Rightarrow> bool" where
  "in_region a r \<longleftrightarrow> fst r \<le> a \<and> a < fst r + snd r"

definition regions_of :: "DomainIndex \<Rightarrow> region list" where
  "regions_of d = (case getPhysicalMemoryRanges d of
      None \<Rightarrow> []
    | Some r \<Rightarrow> [(monitor_address r, monitor_size r),
                 (monitor_ipc_address r, monitor_ipc_size r),
                 (payload_address r, payload_size r)])"

definition all_regions :: "region list" where
  "all_regions = concat (map regions_of [cpu1, cpu2, cpu3])"

lemma all_regions_eq:
  "all_regions =
    [(0x800000000, 0x10000), (0x800030000, 0x4000), (0x800100000, 0x2000000),
     (0x800010000, 0x10000), (0x800034000, 0x4000), (0x802100000, 0x2000000),
     (0x800020000, 0x10000), (0x800038000, 0x4000), (0x804100000, 0x2000000)]"
  by (simp add: all_regions_def regions_of_def memmap_defs)

lemma region_before:
  "fst r + snd r \<le> fst s \<Longrightarrow> in_region a r \<Longrightarrow> \<not> in_region a s"
  by (simp add: in_region_def) (meson leD less_le_trans order_trans)

section \<open>Properties\<close>

text \<open>
  The nine memory regions (monitor, IPC block and payload of the three cores) are pairwise
  disjoint: no byte address lies in two different ones, so that loading one domain's payload or
  monitor, or resetting its IPC block, cannot touch another domain.
\<close>

lemma memory_regions_disjoint:
  assumes "i < length all_regions" and "j < length all_regions" and "i \<noteq> j"
  shows "\<not> (in_region a (all_regions ! i) \<and> in_region a (all_regions ! j))"
proof -
  have "i \<in> {0, 1, 2, 3, 4, 5, 6, 7, 8}" and "j \<in> {0, 1, 2, 3, 4, 5, 6, 7, 8}"
    using assms(1,2) by (auto simp: all_regions_eq)
  with \<open>i \<noteq> j\<close> show ?thesis
    by (elim insertE emptyE; simp add: all_regions_eq in_region_def; unat_arith)
qed

text \<open>
  Manager and monitor agree on the location of the IPC block: for every domain the manager can
  open, the address it maps is the one the core with that number computes, and that address is not
  the one of any other core.
\<close>

lemma ipc_block_agreement:
  "getPhysicalMemoryRanges d = Some r \<Longrightarrow> getCpuIndex_manager d = Some k \<Longrightarrow>
   getIpcBlock k' = Some (monitor_ipc_address r) \<longleftrightarrow> k' = k"
  by (cases d) (auto simp: getIpcBlock_def memmap_defs)

end
