(* ===== verification/Ipc_Block.thy ===== *)
theory Ipc_Block
  imports Memmap
begin

text \<open>
  The block of shared memory through which the manager and one executor talk
  (\<open>struct IpcBlock\<close>, \<open>src/bmboot_internal.hpp\<close>), and the saved CPU state it carries
  (\<open>src/cpu_state.hpp\<close>). Integers keep their width; \<open>enum\<close> fields are the raw 32-bit values a
  reader finds in memory. The AAPCS64 layout rule is written out (\<open>struct_offsets\<close>) so that the
  source's size assertions are statements about the model.
\<close>

section \<open>Layout of C structs\<close>

text \<open>Fields are given by alignment and size, in declaration order.\<close>

type_synonym c_field = "nat \<times> nat"

definition align_up :: "nat \<Rightarrow> nat \<Rightarrow> nat" where
  "align_up n a = (n + a - 1) div a * a"

fun field_offsets :: "nat \<Rightarrow> c_field list \<Rightarrow> nat list" where
  "field_offsets pos [] = []"
| "field_offsets pos ((al, sz) # fs) = align_up pos al # field_offsets (align_up pos al + sz) fs"

fun fields_end :: "nat \<Rightarrow> c_field list \<Rightarrow> nat" where
  "fields_end pos [] = pos"
| "fields_end pos ((al, sz) # fs) = fields_end (align_up pos al + sz) fs"

definition struct_align :: "c_field list \<Rightarrow> nat" where
  "struct_align fs = foldr max (map fst fs) 1"

definition struct_size :: "c_field list \<Rightarrow> nat" where
  "struct_size fs = align_up (fields_end 0 fs) (struct_align fs)"

definition struct_field :: "c_field list \<Rightarrow> c_field" where
  "struct_field fs = (struct_align fs, struct_size fs)"

text \<open>Scalar fields and arrays of them.\<close>

definition c_u8 :: c_field where "c_u8 = (1, 1)"
definition c_u32 :: c_field where "c_u32 = (4, 4)"
definition c_u64 :: c_field where "c_u64 = (8, 8)"
definition c_u128 :: c_field where "c_u128 = (16, 16)"

definition c_array :: "nat \<Rightarrow> c_field \<Rightarrow> c_field" where
  "c_array n f = (fst f, n * snd f)"

lemmas layout_defs =
  align_up_def struct_align_def struct_size_def struct_field_def
  c_u8_def c_u32_def c_u64_def c_u128_def c_array_def

section \<open>CPU state\<close>

record Aarch64_Regs =
  regs :: "u64 list"
  sp :: u64
  pc :: u64
  pstate :: u64

record Aarch64_FpRegs =
  vregs :: "128 word list"
  fpsr :: u32
  fpcr :: u32

definition zero_regs :: Aarch64_Regs where
  "zero_regs = \<lparr>regs = replicate 31 0, sp = 0, pc = 0, pstate = 0\<rparr>"

definition zero_fpregs :: Aarch64_FpRegs where
  "zero_fpregs = \<lparr>vregs = replicate 32 0, fpsr = 0, fpcr = 0\<rparr>"

definition Aarch64_Regs_layout :: "c_field list" where
  "Aarch64_Regs_layout = [c_array 31 c_u64, c_u64, c_u64, c_u64]"

definition Aarch64_FpRegs_layout :: "c_field list" where
  "Aarch64_FpRegs_layout = [c_array 32 c_u128, c_u32, c_u32]"

section \<open>Constants of \<open>bmboot_internal.hpp\<close>\<close>

definition MONITOR_CODE_COOKIE :: u32 where "MONITOR_CODE_COOKIE = 0x7150ABCD"

definition GIC_MIN_USER_INTERRUPT_ID :: int where "GIC_MIN_USER_INTERRUPT_ID = 0"
definition GIC_MAX_USER_INTERRUPT_ID :: int where "GIC_MAX_USER_INTERRUPT_ID = 187"

definition SMC_GET_ABI_VERSION :: u64 where "SMC_GET_ABI_VERSION = 0xF2000000"
definition SMC_NOTIFY_PAYLOAD_STARTED :: u64 where "SMC_NOTIFY_PAYLOAD_STARTED = 0xF2000001"
definition SMC_NOTIFY_PAYLOAD_CRASHED :: u64 where "SMC_NOTIFY_PAYLOAD_CRASHED = 0xF2000002"
definition SMC_WRITE_STDOUT :: u64 where "SMC_WRITE_STDOUT = 0xF2000003"
definition SMC_ZYNQMP_GIC_IRQ_CONFIGURE :: u64 where "SMC_ZYNQMP_GIC_IRQ_CONFIGURE = 0xF2000080"
definition SMC_ZYNQMP_GIC_IRQ_ENABLE :: u64 where "SMC_ZYNQMP_GIC_IRQ_ENABLE = 0xF2000081"
definition SMC_ZYNQMP_GIC_IRQ_DISABLE :: u64 where "SMC_ZYNQMP_GIC_IRQ_DISABLE = 0xF2000082"

lemmas smc_ids =
  SMC_GET_ABI_VERSION_def SMC_NOTIFY_PAYLOAD_STARTED_def SMC_NOTIFY_PAYLOAD_CRASHED_def
  SMC_WRITE_STDOUT_def SMC_ZYNQMP_GIC_IRQ_CONFIGURE_def SMC_ZYNQMP_GIC_IRQ_ENABLE_def
  SMC_ZYNQMP_GIC_IRQ_DISABLE_def

text \<open>\<open>enum Command\<close> and \<open>enum Response\<close>, as the raw values stored in the block.\<close>

definition Command_noop :: u32 where "Command_noop = 0x00"
definition Command_start_payload :: u32 where "Command_start_payload = 0x01"

datatype Response = crc_ok | crc_mismatched | image_malformed | abi_incompatible

fun raw_Response :: "Response \<Rightarrow> u32" where
  "raw_Response crc_ok = 0"
| "raw_Response crc_mismatched = 1"
| "raw_Response image_malformed = 2"
| "raw_Response abi_incompatible = 3"

definition raw_state :: "DomainState \<Rightarrow> u32" where
  "raw_state s = of_nat (int_of_DomainState s)"

section \<open>The block\<close>

record manager_to_executor =
  cmd :: u32
  cmd_seq :: u32
  cntfrq :: u32
  payload_entry_address :: u64
  payload_size_ipc :: u64
  payload_crc :: u32
  payload_argument :: u64
  stdout_rdpos :: u64

record executor_to_manager =
  state :: u32
  cmd_ack :: u32
  cmd_resp :: u32
  fault_el :: u32
  fault_pc :: u64
  fault_desc :: bytes
  saved_cpu :: Aarch64_Regs
  saved_fpu :: Aarch64_FpRegs
  stdout_wrpos :: u64
  stdout_buf :: bytes

record IpcBlock =
  m2e :: manager_to_executor
  e2m :: executor_to_manager

text \<open>\<open>sizeof(fault_desc)\<close> and \<open>sizeof(stdout_buf)\<close>.\<close>

definition sizeof_fault_desc :: nat where "sizeof_fault_desc = 32"
definition sizeof_stdout_buf :: nat where "sizeof_stdout_buf = 1024"

definition m2e_layout :: "c_field list" where
  "m2e_layout = [c_u32, c_u32, c_u32, c_u64, c_u64, c_u32, c_u64, c_u64]"

definition e2m_layout :: "c_field list" where
  "e2m_layout =
    [c_u32, c_u32, c_u32, c_u32, c_u64, c_array sizeof_fault_desc c_u8,
     struct_field Aarch64_Regs_layout, struct_field Aarch64_FpRegs_layout,
     c_u64, c_array sizeof_stdout_buf c_u8]"

definition IpcBlock_layout :: "c_field list" where
  "IpcBlock_layout = [struct_field m2e_layout, struct_field e2m_layout]"

text \<open>The block with every byte zero (\<open>memset\<close>).\<close>

definition zero_IpcBlock :: IpcBlock where
  "zero_IpcBlock =
     \<lparr>m2e = \<lparr>cmd = 0, cmd_seq = 0, cntfrq = 0, payload_entry_address = 0, payload_size_ipc = 0,
             payload_crc = 0, payload_argument = 0, stdout_rdpos = 0\<rparr>,
      e2m = \<lparr>state = 0, cmd_ack = 0, cmd_resp = 0, fault_el = 0, fault_pc = 0,
             fault_desc = replicate sizeof_fault_desc 0, saved_cpu = zero_regs,
             saved_fpu = zero_fpregs, stdout_wrpos = 0,
             stdout_buf = replicate sizeof_stdout_buf 0\<rparr>\<rparr>"

text \<open>The arrays of the block have their declared sizes; no operation changes that.\<close>

definition wf_ipc :: "IpcBlock \<Rightarrow> bool" where
  "wf_ipc b \<longleftrightarrow> length (fault_desc (e2m b)) = sizeof_fault_desc \<and>
     length (regs (saved_cpu (e2m b))) = 31 \<and>
     length (stdout_buf (e2m b)) = sizeof_stdout_buf"

lemma wf_ipc_zero [simp]: "wf_ipc zero_IpcBlock"
  by (simp add: wf_ipc_def zero_IpcBlock_def zero_regs_def)

section \<open>State field\<close>

text \<open>
  \<open>Domain::getState\<close> reads the raw value and maps everything above the last enumerator to
  \<open>invalid_state\<close>; \<open>decode_state\<close> is that mapping.
\<close>

definition decode_state :: "u32 \<Rightarrow> DomainState" where
  "decode_state state_raw =
     (if state_raw \<le> raw_state invalid_state then the (DomainState_of (unat state_raw))
      else invalid_state)"

lemma unat_raw_state [ipc_simps]: "unat (raw_state s) = int_of_DomainState s"
  by (cases s) (simp_all add: raw_state_def)

lemma decode_raw_state [simp, ipc_simps]: "decode_state (raw_state s) = s"
  by (simp add: decode_state_def unat_raw_state word_le_nat_alt int_of_DomainState_le)

lemma raw_state_inject [simp]: "raw_state s = raw_state t \<longleftrightarrow> s = t"
  by (metis decode_raw_state)

lemma raw_Response_inject [simp]: "raw_Response r = raw_Response s \<longleftrightarrow> r = s"
  by (cases r; cases s) simp_all

section \<open>Properties\<close>

text \<open>
  The size assertions of the source hold for the modelled layout: the IPC block fits the region
  reserved for it on each of the three cores, the register dump has the size of Linux's
  \<open>user_regs_struct\<close> (272 bytes) and the floating point dump 528 bytes.
\<close>

lemma ipc_block_fits:
  "struct_size IpcBlock_layout \<le> unat bmboot_cpu1_monitor_ipc_SIZE \<and>
   struct_size IpcBlock_layout \<le> unat bmboot_cpu2_monitor_ipc_SIZE \<and>
   struct_size IpcBlock_layout \<le> unat bmboot_cpu3_monitor_ipc_SIZE \<and>
   struct_size Aarch64_Regs_layout = 272 \<and> struct_size Aarch64_FpRegs_layout = 528"
  by (simp add: memmap_defs IpcBlock_layout_def m2e_layout_def e2m_layout_def
      Aarch64_Regs_layout_def Aarch64_FpRegs_layout_def sizeof_fault_desc_def
      sizeof_stdout_buf_def layout_defs)

end
