(* ===== verification/Stdout_Channel.thy ===== *)
theory Stdout_Channel
  imports Ipc_Block
begin

text \<open>
  The standard output of a payload: the monitor appends to a circular buffer in the IPC block
  (\<open>writeToStdout\<close>, \<open>src/executor/monitor/smc_handlers.cpp\<close>) and the manager polls it one
  character at a time (\<open>Domain::getchar\<close>, \<open>src/manager/domain.cpp\<close>). An access outside the buffer
  would be undefined behaviour in C++; in the model it is the result \<open>None\<close>, so memory safety is a
  theorem. The interface between the two sides is the locale \<open>byte_channel\<close> (a bounded FIFO),
  interpreted on the two routines.
\<close>

section \<open>The two routines\<close>

definition buf_store :: "bytes \<Rightarrow> u64 \<Rightarrow> u8 \<Rightarrow> bytes option" where
  "buf_store buf i v = (if unat i < length buf then Some (buf[unat i := v]) else None)"

definition buf_load :: "bytes \<Rightarrow> u64 \<Rightarrow> u8 option" where
  "buf_load buf i = (if unat i < length buf then Some (buf ! unat i) else None)"

text \<open>The \<open>while (size > 0)\<close> loop; \<open>wrote\<close> is the running count that is finally returned.\<close>

fun stdout_loop :: "IpcBlock \<Rightarrow> bytes \<Rightarrow> u64 \<Rightarrow> (IpcBlock \<times> u64) option" where
  "stdout_loop b [] wrote = Some (b, wrote)"
| "stdout_loop b (d # ds) wrote =
     (let wrpos_new = (stdout_wrpos (e2m b) + 1) mod of_nat sizeof_stdout_buf in
      if wrpos_new = stdout_rdpos (m2e b) then Some (b, wrote + of_nat (length (d # ds)))
      else (case buf_store (stdout_buf (e2m b)) (stdout_wrpos (e2m b)) d of
              None \<Rightarrow> None
            | Some buf \<Rightarrow>
                stdout_loop (b\<lparr>e2m := (e2m b)\<lparr>stdout_buf := buf, stdout_wrpos := wrpos_new\<rparr>\<rparr>)
                  ds (wrote + 1)))"

definition wrpos_message :: bytes where
  "wrpos_message = ascii ''unexpected dom_stdout_wrpos, reset to 0'' @ [10]"

function writeToStdout :: "IpcBlock \<Rightarrow> bytes \<Rightarrow> (IpcBlock \<times> u64) option" where
  "writeToStdout b data =
     (if of_nat sizeof_stdout_buf \<le> stdout_wrpos (e2m b)
      then (case writeToStdout (b\<lparr>e2m := (e2m b)\<lparr>stdout_wrpos := 0\<rparr>\<rparr>) wrpos_message of
              None \<Rightarrow> None
            | Some (b', _) \<Rightarrow> stdout_loop b' data 0)
      else stdout_loop b data 0)"
  by pat_completeness auto
termination
  by (relation "measure (\<lambda>(b, _). if of_nat sizeof_stdout_buf \<le> stdout_wrpos (e2m b) then 1 else 0)")
    (auto simp: sizeof_stdout_buf_def)

declare writeToStdout.simps [simp del]

text \<open>
  \<open>Domain::getchar\<close>: an out-of-range read position is reset to 0 (with a message on the manager's
  own console, not modelled); the result is the character or \<open>-1\<close>.
\<close>

definition getchar :: "IpcBlock \<Rightarrow> (IpcBlock \<times> int) option" where
  "getchar b0 =
     (let b = (if of_nat sizeof_stdout_buf \<le> stdout_rdpos (m2e b0)
               then b0\<lparr>m2e := (m2e b0)\<lparr>stdout_rdpos := 0\<rparr>\<rparr> else b0) in
      if stdout_rdpos (m2e b) \<noteq> stdout_wrpos (e2m b)
      then (case buf_load (stdout_buf (e2m b)) (stdout_rdpos (m2e b)) of
              None \<Rightarrow> None
            | Some c \<Rightarrow>
                Some (b\<lparr>m2e := (m2e b)\<lparr>stdout_rdpos :=
                         (stdout_rdpos (m2e b) + 1) mod of_nat sizeof_stdout_buf\<rparr>\<rparr>,
                      uint c))
      else Some (b, -1))"

section \<open>Circular buffers\<close>

definition ring_count :: "nat \<Rightarrow> nat \<Rightarrow> nat \<Rightarrow> nat" where
  "ring_count n rd wr = (wr + n - rd) mod n"

definition ring_contents :: "'a list \<Rightarrow> nat \<Rightarrow> nat \<Rightarrow> 'a list" where
  "ring_contents buf rd wr =
     map (\<lambda>k. buf ! ((rd + k) mod length buf)) [0..<ring_count (length buf) rd wr]"

lemma ring_count_less: "0 < n \<Longrightarrow> ring_count n rd wr < n"
  by (simp add: ring_count_def)

lemma ring_count_cases:
  "rd < n \<Longrightarrow> wr < n \<Longrightarrow> ring_count n rd wr = (if rd \<le> wr then wr - rd else wr + n - rd)"
  by (auto simp: ring_count_def mod_below_double)

lemma ring_count_eq_0: "rd < n \<Longrightarrow> wr < n \<Longrightarrow> ring_count n rd wr = 0 \<longleftrightarrow> rd = wr"
  by (auto simp: ring_count_cases)

lemma Suc_mod_cases: "p < n \<Longrightarrow> Suc p mod n = (if Suc p = n then 0 else Suc p)"
  by (auto simp: mod_below_double)

lemma ring_full_iff:
  "rd < n \<Longrightarrow> wr < n \<Longrightarrow> Suc wr mod n = rd \<longleftrightarrow> Suc (ring_count n rd wr) = n"
  by (auto simp: ring_count_cases Suc_mod_cases)

lemma ring_count_push:
  "rd < n \<Longrightarrow> wr < n \<Longrightarrow> Suc wr mod n \<noteq> rd \<Longrightarrow> ring_count n rd (Suc wr mod n) = Suc (ring_count n rd wr)"
  by (auto simp: ring_count_cases Suc_mod_cases split: if_splits)

lemma ring_count_pop:
  "rd < n \<Longrightarrow> wr < n \<Longrightarrow> rd \<noteq> wr \<Longrightarrow> ring_count n rd wr = Suc (ring_count n (Suc rd mod n) wr)"
  by (auto simp: ring_count_cases Suc_mod_cases split: if_splits)

lemma ring_index_end: "rd < n \<Longrightarrow> wr < n \<Longrightarrow> (rd + ring_count n rd wr) mod n = wr"
  by (auto simp: ring_count_cases mod_below_double)

lemma ring_index_before:
  "rd < n \<Longrightarrow> wr < n \<Longrightarrow> k < ring_count n rd wr \<Longrightarrow> (rd + k) mod n \<noteq> wr"
  by (auto simp: ring_count_cases mod_below_double split: if_splits)

lemma length_ring_contents [simp, ring_simps]:
  "length (ring_contents buf rd wr) = ring_count (length buf) rd wr"
  by (simp add: ring_contents_def)

text \<open>Writing at the write position and advancing it appends one element.\<close>

lemma ring_contents_push:
  assumes "rd < length buf" and "wr < length buf" and "Suc wr mod length buf \<noteq> rd"
  shows "ring_contents (buf[wr := x]) rd (Suc wr mod length buf) = ring_contents buf rd wr @ [x]"
proof -
  let ?n = "length buf"
  have "map (\<lambda>k. buf[wr := x] ! ((rd + k) mod ?n)) [0..<ring_count ?n rd wr]
      = map (\<lambda>k. buf ! ((rd + k) mod ?n)) [0..<ring_count ?n rd wr]"
    by (rule list_update_beyond_map) (use assms in \<open>auto dest: ring_index_before\<close>)
  then show ?thesis
    using assms by (simp add: ring_contents_def ring_count_push ring_index_end)
qed

text \<open>Reading at the read position and advancing it removes the oldest element.\<close>

lemma ring_contents_pop:
  assumes "rd < length buf" and "wr < length buf" and "rd \<noteq> wr"
  shows "ring_contents buf rd wr = buf ! rd # ring_contents buf (Suc rd mod length buf) wr"
proof -
  let ?n = "length buf"
  have "(Suc rd mod ?n + k) mod ?n = (rd + Suc k) mod ?n" for k
    by (simp add: mod_simps)
  moreover have "[0..<Suc m] = 0 # map Suc [0..<m]" for m
    by (simp add: map_Suc_upt upt_conv_Cons del: upt_Suc)
  ultimately show ?thesis
    using assms by (simp add: ring_contents_def ring_count_pop o_def del: upt_Suc)
qed

lemma ring_contents_empty: "rd < length buf \<Longrightarrow> ring_contents buf rd rd = []"
  by (simp add: ring_contents_def ring_count_def)

section \<open>The code on the ring\<close>

definition stdout_safe :: "IpcBlock \<Rightarrow> bool" where
  "stdout_safe b \<longleftrightarrow> wf_ipc b \<and> unat (stdout_wrpos (e2m b)) < sizeof_stdout_buf"

definition stdout_invar :: "IpcBlock \<Rightarrow> bool" where
  "stdout_invar b \<longleftrightarrow> stdout_safe b \<and> unat (stdout_rdpos (m2e b)) < sizeof_stdout_buf"

definition stdout_pending :: "IpcBlock \<Rightarrow> bytes" where
  "stdout_pending b =
     ring_contents (stdout_buf (e2m b)) (unat (stdout_rdpos (m2e b))) (unat (stdout_wrpos (e2m b)))"

definition stdout_capacity :: nat where "stdout_capacity = sizeof_stdout_buf - 1"

text \<open>Two blocks that differ at most in the executor's half of the stdout ring.\<close>

definition erase_stdout :: "executor_to_manager \<Rightarrow> executor_to_manager" where
  "erase_stdout e = e\<lparr>stdout_buf := [], stdout_wrpos := 0\<rparr>"

definition same_but_stdout :: "IpcBlock \<Rightarrow> IpcBlock \<Rightarrow> bool" where
  "same_but_stdout b b' \<longleftrightarrow> m2e b' = m2e b \<and> erase_stdout (e2m b') = erase_stdout (e2m b)"

lemma same_but_stdout_refl [simp]: "same_but_stdout b b"
  by (simp add: same_but_stdout_def)

lemma same_but_stdout_trans: "same_but_stdout a b \<Longrightarrow> same_but_stdout b c \<Longrightarrow> same_but_stdout a c"
  by (simp add: same_but_stdout_def)

lemma erase_stdout_fields:
  assumes "erase_stdout e' = erase_stdout e"
  shows "state e' = state e" "cmd_ack e' = cmd_ack e" "cmd_resp e' = cmd_resp e"
    "fault_el e' = fault_el e" "fault_pc e' = fault_pc e" "fault_desc e' = fault_desc e"
    "saved_cpu e' = saved_cpu e" "saved_fpu e' = saved_fpu e"
  using assms by (cases e; cases e'; simp add: erase_stdout_def)+

lemma unat_next_pos [ring_simps]:
  "unat ((w + 1) mod of_nat sizeof_stdout_buf :: u64) = Suc (unat w) mod sizeof_stdout_buf"
proof -
  have "unat ((w + 1) mod 1024) = (unat w + 1) mod 2 ^ 64 mod 1024"
    by (simp add: unat_mod unat_word_ariths)
  also have "\<dots> = Suc (unat w) mod 1024"
    by (simp add: mod_mod_cancel)
  finally show ?thesis by (simp add: sizeof_stdout_buf_def)
qed

lemma stdout_range: "of_nat sizeof_stdout_buf \<le> (w :: u64) \<longleftrightarrow> \<not> unat w < sizeof_stdout_buf"
  by (simp add: word_le_nat_alt sizeof_stdout_buf_def not_less)

lemma next_pos_less [simp]: "Suc p mod sizeof_stdout_buf < sizeof_stdout_buf"
  by (simp add: sizeof_stdout_buf_def)

text \<open>
  From any block with its write position in range the loop ends without leaving the buffer,
  whatever the manager's read position is, and always reports the full size.
\<close>

lemma stdout_loop_safe:
  assumes "stdout_safe b"
  shows "\<exists>b'. stdout_loop b ds wrote = Some (b', wrote + of_nat (length ds)) \<and>
              stdout_safe b' \<and> same_but_stdout b b'"
  using assms
proof (induction ds arbitrary: b wrote)
  case Nil
  then show ?case by simp
next
  case (Cons d ds)
  let ?nx = "(stdout_wrpos (e2m b) + 1) mod of_nat sizeof_stdout_buf"
  let ?b = "b\<lparr>e2m := (e2m b)\<lparr>stdout_buf := (stdout_buf (e2m b))[unat (stdout_wrpos (e2m b)) := d],
                             stdout_wrpos := ?nx\<rparr>\<rparr>"
  show ?case
  proof (cases "?nx = stdout_rdpos (m2e b)")
    case True
    with Cons.prems show ?thesis by (intro exI [of _ b]) simp
  next
    case False
    have "stdout_safe ?b"
      using Cons.prems by (simp add: stdout_safe_def wf_ipc_def unat_next_pos)
    from Cons.IH [OF this, of "wrote + 1"] obtain b' where
      b': "stdout_loop ?b ds (wrote + 1) = Some (b', wrote + 1 + of_nat (length ds))"
        "stdout_safe b'" "same_but_stdout ?b b'" by blast
    moreover have "same_but_stdout b ?b" by (simp add: same_but_stdout_def erase_stdout_def)
    moreover have "buf_store (stdout_buf (e2m b)) (stdout_wrpos (e2m b)) d
        = Some ((stdout_buf (e2m b))[unat (stdout_wrpos (e2m b)) := d])"
      using Cons.prems by (simp add: buf_store_def stdout_safe_def wf_ipc_def)
    ultimately show ?thesis
      using False by (auto simp: Let_def add.assoc add.commute add.left_commute
          intro: same_but_stdout_trans)
  qed
qed

lemma writeToStdout_safe:
  assumes "wf_ipc b"
  shows "\<exists>b'. writeToStdout b ds = Some (b', of_nat (length ds)) \<and> stdout_safe b' \<and> same_but_stdout b b'"
proof (cases "of_nat sizeof_stdout_buf \<le> stdout_wrpos (e2m b)")
  case False
  with assms have "stdout_safe b" by (simp add: stdout_safe_def stdout_range)
  from stdout_loop_safe [OF this, of ds 0] show ?thesis
    using False by (simp add: writeToStdout.simps [of b])
next
  case True
  let ?b = "b\<lparr>e2m := (e2m b)\<lparr>stdout_wrpos := 0\<rparr>\<rparr>"
  have safe: "stdout_safe ?b" and frame: "same_but_stdout b ?b"
    using assms by (simp_all add: stdout_safe_def wf_ipc_def sizeof_stdout_buf_def same_but_stdout_def erase_stdout_def)
  from stdout_loop_safe [OF safe, of wrpos_message 0] obtain b1 n where
    b1: "stdout_loop ?b wrpos_message 0 = Some (b1, n)" "stdout_safe b1" "same_but_stdout ?b b1" by auto
  have "writeToStdout ?b wrpos_message = Some (b1, n)"
    using b1(1) by (simp add: writeToStdout.simps [of ?b] sizeof_stdout_buf_def)
  moreover from stdout_loop_safe [OF b1(2), of ds 0] obtain b2 where
    "stdout_loop b1 ds 0 = Some (b2, of_nat (length ds))" "stdout_safe b2" "same_but_stdout b1 b2" by auto
  ultimately show ?thesis
    using True b1 frame
    by (auto simp: writeToStdout.simps [of b] intro: same_but_stdout_trans)
qed

text \<open>With both positions in range the loop appends what fits and drops the rest.\<close>

lemma stdout_loop_pending:
  assumes "stdout_invar b" and "stdout_loop b ds wrote = Some (b', n)"
  shows "stdout_pending b' =
           stdout_pending b @ take (stdout_capacity - length (stdout_pending b)) ds \<and> stdout_invar b'"
  using assms
proof (induction ds arbitrary: b wrote)
  case Nil
  then show ?case by simp
next
  case (Cons d ds)
  let ?w = "unat (stdout_wrpos (e2m b))" and ?r = "unat (stdout_rdpos (m2e b))"
  let ?nx = "(stdout_wrpos (e2m b) + 1) mod of_nat sizeof_stdout_buf"
  let ?b = "b\<lparr>e2m := (e2m b)\<lparr>stdout_buf := (stdout_buf (e2m b))[?w := d], stdout_wrpos := ?nx\<rparr>\<rparr>"
  have len: "length (stdout_buf (e2m b)) = sizeof_stdout_buf" and w: "?w < sizeof_stdout_buf"
    and r: "?r < sizeof_stdout_buf"
    using Cons.prems(1) by (simp_all add: stdout_invar_def stdout_safe_def wf_ipc_def)
  have nx: "unat ?nx = Suc ?w mod sizeof_stdout_buf" by (rule unat_next_pos)
  show ?case
  proof (cases "?nx = stdout_rdpos (m2e b)")
    case True
    then have "Suc (length (stdout_pending b)) = sizeof_stdout_buf"
      using ring_full_iff [OF r w] nx by (simp add: stdout_pending_def len)
    then have "stdout_capacity - length (stdout_pending b) = 0"
      by (simp add: stdout_capacity_def)
    with True Cons.prems show ?thesis by simp
  next
    case False
    then have ne: "Suc ?w mod sizeof_stdout_buf \<noteq> ?r" using nx by (metis word_unat_eq_iff)
    have inv: "stdout_invar ?b"
      using Cons.prems(1) by (simp add: stdout_invar_def stdout_safe_def wf_ipc_def unat_next_pos)
    have pend: "stdout_pending ?b = stdout_pending b @ [d]"
      using ring_contents_push [of ?r "stdout_buf (e2m b)" ?w d] w r ne
      by (simp add: stdout_pending_def nx len)
    have "length (stdout_pending b) < stdout_capacity"
      using ne ring_full_iff [OF r w] ring_count_less [of sizeof_stdout_buf ?r ?w]
      by (simp add: stdout_pending_def len stdout_capacity_def sizeof_stdout_buf_def)
    then have "stdout_capacity - length (stdout_pending b)
        = Suc (stdout_capacity - length (stdout_pending ?b))"
      by (simp add: pend)
    moreover have "stdout_loop ?b ds (wrote + 1) = Some (b', n)"
      using Cons.prems(2) False w by (simp add: Let_def buf_store_def len)
    ultimately show ?thesis
      using Cons.IH [OF inv] by (simp add: pend)
  qed
qed

lemma writeToStdout_pending:
  assumes "stdout_invar b" and "writeToStdout b ds = Some (b', n)"
  shows "stdout_pending b' =
           stdout_pending b @ take (stdout_capacity - length (stdout_pending b)) ds \<and> stdout_invar b'"
proof (rule stdout_loop_pending [OF assms(1)])
  show "stdout_loop b ds 0 = Some (b', n)"
    using assms by (simp add: writeToStdout.simps [of b] stdout_invar_def stdout_safe_def stdout_range)
qed

lemma getchar_pending:
  assumes "stdout_invar b"
  shows "\<exists>b'. stdout_invar b' \<and>
     (case stdout_pending b of
        [] \<Rightarrow> getchar b = Some (b', -1) \<and> stdout_pending b' = []
      | c # cs \<Rightarrow> getchar b = Some (b', uint c) \<and> stdout_pending b' = cs)"
proof -
  let ?w = "unat (stdout_wrpos (e2m b))" and ?r = "unat (stdout_rdpos (m2e b))"
  let ?b = "b\<lparr>m2e := (m2e b)\<lparr>stdout_rdpos := (stdout_rdpos (m2e b) + 1) mod of_nat sizeof_stdout_buf\<rparr>\<rparr>"
  have len: "length (stdout_buf (e2m b)) = sizeof_stdout_buf" and w: "?w < sizeof_stdout_buf"
    and r: "?r < sizeof_stdout_buf"
    using assms by (simp_all add: stdout_invar_def stdout_safe_def wf_ipc_def)
  show ?thesis
  proof (cases "stdout_rdpos (m2e b) = stdout_wrpos (e2m b)")
    case True
    with r assms len show ?thesis
      by (intro exI [of _ b]) (simp add: getchar_def stdout_range stdout_pending_def ring_contents_empty Let_def)
  next
    case False
    then have "?r \<noteq> ?w" by (metis word_unat_eq_iff)
    then have "stdout_pending b = stdout_buf (e2m b) ! ?r # stdout_pending ?b"
      using ring_contents_pop [of ?r "stdout_buf (e2m b)" ?w] r w
      by (simp add: stdout_pending_def len unat_next_pos)
    with False r assms len show ?thesis
      by (intro exI [of _ ?b])
        (simp add: getchar_def stdout_range buf_load_def Let_def stdout_invar_def stdout_safe_def
          wf_ipc_def unat_next_pos)
  qed
qed

section \<open>The channel interface\<close>

text \<open>A sequence of calls on the channel: the payload writes, the manager polls.\<close>

datatype chan_op = Put bytes | Get

text \<open>
  The specification is a bounded queue: a write appends what fits, a poll takes the oldest byte or
  returns \<open>-1\<close>. \<open>bq_run\<close> gives the results of the polls and the final queue.
\<close>

fun bq_run :: "nat \<Rightarrow> bytes \<Rightarrow> chan_op list \<Rightarrow> int list \<times> bytes" where
  "bq_run cap q [] = ([], q)"
| "bq_run cap q (Put xs # ops) = bq_run cap (q @ take (cap - length q) xs) ops"
| "bq_run cap [] (Get # ops) = (let (r, q') = bq_run cap [] ops in (-1 # r, q'))"
| "bq_run cap (c # q) (Get # ops) = (let (r, q') = bq_run cap q ops in (uint c # r, q'))"

fun chan_run :: "('c \<Rightarrow> bytes \<Rightarrow> ('c \<times> u64) option) \<Rightarrow> ('c \<Rightarrow> ('c \<times> int) option) \<Rightarrow>
    'c \<Rightarrow> chan_op list \<Rightarrow> (int list \<times> 'c) option" where
  "chan_run put get c [] = Some ([], c)"
| "chan_run put get c (Put xs # ops) =
     (case put c xs of None \<Rightarrow> None | Some (c', _) \<Rightarrow> chan_run put get c' ops)"
| "chan_run put get c (Get # ops) =
     (case get c of
        None \<Rightarrow> None
      | Some (c', i) \<Rightarrow> (case chan_run put get c' ops of
            None \<Rightarrow> None
          | Some (r, c'') \<Rightarrow> Some (i # r, c'')))"

fun puts :: "chan_op list \<Rightarrow> bytes" where
  "puts [] = []"
| "puts (Put xs # ops) = xs @ puts ops"
| "puts (Get # ops) = puts ops"

definition delivered :: "int list \<Rightarrow> int list" where
  "delivered r = filter (\<lambda>i. i \<noteq> -1) r"

lemma delivered_Cons_uint [simp]: "delivered (uint (c :: u8) # r) = uint c # delivered r"
proof -
  have "0 \<le> uint c" by simp
  then have "uint c \<noteq> -1" by linarith
  then show ?thesis by (simp add: delivered_def)
qed

lemma delivered_simps [simp]: "delivered [] = []" "delivered (-1 # r) = delivered r"
  by (simp_all add: delivered_def)

text \<open>The bounded queue neither invents, duplicates nor reorders bytes.\<close>

lemma bq_run_subseq:
  "subseq (delivered (fst (bq_run cap q ops)) @ map uint (snd (bq_run cap q ops))) (map uint (q @ puts ops))"
proof (induction cap q ops rule: bq_run.induct)
  case (2 cap q xs ops)
  have "subseq (map uint ((q @ take (cap - length q) xs) @ puts ops)) (map uint (q @ xs @ puts ops) :: int list)"
    by (intro subseq_map) (simp add: list_emb_append_mono prefix_imp_subseq take_is_prefix)
  with "2.IH" show ?case by (auto intro: subseq_order.trans)
qed (auto simp: split_beta)

text \<open>
  \<open>fits cap n ops\<close>: starting with \<open>n\<close> bytes in flight, no write of the sequence exceeds the room left by the
  polls before it. Then every byte arrives.
\<close>

fun fits :: "nat \<Rightarrow> nat \<Rightarrow> chan_op list \<Rightarrow> bool" where
  "fits cap n [] \<longleftrightarrow> True"
| "fits cap n (Put xs # ops) \<longleftrightarrow> n + length xs \<le> cap \<and> fits cap (n + length xs) ops"
| "fits cap n (Get # ops) \<longleftrightarrow> fits cap (n - 1) ops"

lemma bq_run_lossless:
  "fits cap (length q) ops \<Longrightarrow>
   delivered (fst (bq_run cap q ops)) @ map uint (snd (bq_run cap q ops)) = map uint (q @ puts ops)"
  by (induction cap q ops rule: bq_run.induct) (auto simp: split_beta)

locale byte_channel =
  fixes put :: "'c \<Rightarrow> bytes \<Rightarrow> ('c \<times> u64) option"
    and get :: "'c \<Rightarrow> ('c \<times> int) option"
    and pending :: "'c \<Rightarrow> bytes"
    and invar :: "'c \<Rightarrow> bool"
    and cap :: nat
  assumes put_ok: "invar c \<Longrightarrow> \<exists>c'. put c xs = Some (c', of_nat (length xs)) \<and> invar c' \<and>
      pending c' = pending c @ take (cap - length (pending c)) xs"
    and get_empty: "invar c \<Longrightarrow> pending c = [] \<Longrightarrow>
      \<exists>c'. get c = Some (c', -1) \<and> invar c' \<and> pending c' = []"
    and get_Cons: "invar c \<Longrightarrow> pending c = x # q \<Longrightarrow>
      \<exists>c'. get c = Some (c', uint x) \<and> invar c' \<and> pending c' = q"
begin

text \<open>Any interleaving of complete calls behaves like the bounded queue.\<close>

lemma chan_run_refines:
  "invar c \<Longrightarrow> \<exists>c'. chan_run put get c ops = Some (fst (bq_run cap (pending c) ops), c') \<and> invar c' \<and>
     pending c' = snd (bq_run cap (pending c) ops)"
proof (induction ops arbitrary: c)
  case Nil
  then show ?case by simp
next
  case (Cons op ops)
  show ?case
  proof (cases op)
    case (Put xs)
    from put_ok [OF Cons.prems, of xs] obtain c' where
      "put c xs = Some (c', of_nat (length xs))" "invar c'"
      "pending c' = pending c @ take (cap - length (pending c)) xs" by blast
    with Put Cons.IH [of c'] show ?thesis by auto
  next
    case Get
    show ?thesis
    proof (cases "pending c")
      case Nil
      from get_empty [OF Cons.prems Nil] obtain c' where
        "get c = Some (c', -1)" "invar c'" "pending c' = []" by blast
      with Get Nil Cons.IH [of c'] show ?thesis by (auto simp: split_beta)
    next
      case (Cons x q)
      from get_Cons [OF Cons.prems Cons] obtain c' where
        "get c = Some (c', uint x)" "invar c'" "pending c' = q" by blast
      with Get Cons Cons.IH [of c'] show ?thesis by (auto simp: split_beta)
    qed
  qed
qed

lemma chan_run_lossless:
  assumes "invar c" and "fits cap (length (pending c)) ops"
  shows "\<exists>r c'. chan_run put get c ops = Some (r, c') \<and>
           delivered r @ map uint (pending c') = map uint (pending c @ puts ops)"
  using chan_run_refines [OF assms(1), of ops] bq_run_lossless [OF assms(2)] by fastforce

lemma chan_run_subseq:
  assumes "invar c"
  shows "\<exists>r c'. chan_run put get c ops = Some (r, c') \<and>
           subseq (delivered r @ map uint (pending c')) (map uint (pending c @ puts ops))"
  using chan_run_refines [OF assms, of ops] bq_run_subseq [of cap "pending c" ops] by fastforce

end

interpretation stdout: byte_channel writeToStdout getchar stdout_pending stdout_invar stdout_capacity
proof unfold_locales
  fix b xs
  assume inv: "stdout_invar b"
  then obtain b' where b': "writeToStdout b xs = Some (b', of_nat (length xs))"
    using writeToStdout_safe [of b xs] by (auto simp: stdout_invar_def stdout_safe_def)
  with writeToStdout_pending [OF inv b'] show
    "\<exists>c'. writeToStdout b xs = Some (c', of_nat (length xs)) \<and> stdout_invar c' \<and>
      stdout_pending c' = stdout_pending b @ take (stdout_capacity - length (stdout_pending b)) xs"
    by blast
next
  fix b
  assume "stdout_invar b" and "stdout_pending b = []"
  then show "\<exists>c'. getchar b = Some (c', -1) \<and> stdout_invar c' \<and> stdout_pending c' = []"
    using getchar_pending [of b] by auto
next
  fix b x q
  assume "stdout_invar b" and "stdout_pending b = x # q"
  then show "\<exists>c'. getchar b = Some (c', uint x) \<and> stdout_invar c' \<and> stdout_pending c' = q"
    using getchar_pending [of b] by auto
qed

lemma stdout_invar_zero [simp]: "stdout_invar zero_IpcBlock"
  by (simp add: stdout_invar_def stdout_safe_def) (simp add: zero_IpcBlock_def sizeof_stdout_buf_def)

lemma stdout_pending_zero [simp]: "stdout_pending zero_IpcBlock = []"
  by (simp add: stdout_pending_def zero_IpcBlock_def ring_contents_empty sizeof_stdout_buf_def)

section \<open>Properties\<close>

text \<open>
  C39: memory safety of \<open>writeToStdout\<close>: for every content of the shared block, also for corrupted
  read and write positions, the call ends without storing outside the buffer, reports the full
  size as written, leaves the write position in range and changes nothing of the block but the
  ring.
\<close>

theorem writeToStdout_memory_safe:
  assumes "wf_ipc b"
  shows "\<exists>b'. writeToStdout b data = Some (b', of_nat (length data)) \<and> wf_ipc b' \<and>
           unat (stdout_wrpos (e2m b')) < sizeof_stdout_buf \<and> same_but_stdout b b'"
  using writeToStdout_safe [OF assms, of data] by (auto simp: stdout_safe_def)

theorem writeToStdout_memory_safe_witness:
  "\<exists>b'. writeToStdout (zero_IpcBlock\<lparr>e2m := (e2m zero_IpcBlock)\<lparr>stdout_wrpos := 0xFFFF\<rparr>\<rparr>) [65] =
     Some (b', 1)"
proof -
  have "wf_ipc (zero_IpcBlock\<lparr>e2m := (e2m zero_IpcBlock)\<lparr>stdout_wrpos := 0xFFFF\<rparr>\<rparr>)"
    by (simp add: wf_ipc_def zero_IpcBlock_def zero_regs_def)
  from writeToStdout_memory_safe [OF this, of "[65]"] show ?thesis by auto
qed

text \<open>
  C21: the stdout path refines a bounded FIFO queue of 1023 bytes: from a freshly initialised IPC
  block, any sequence of writes by the payload and polls by the manager returns exactly the results
  the queue specification gives.
\<close>

theorem stdout_refines_queue:
  "\<exists>b. chan_run writeToStdout getchar zero_IpcBlock ops = Some (fst (bq_run 1023 [] ops), b) \<and>
       stdout_pending b = snd (bq_run 1023 [] ops)"
  using stdout.chan_run_refines [of zero_IpcBlock ops]
  by (auto simp: stdout_capacity_def sizeof_stdout_buf_def)

text \<open>
  No byte is lost while the output in flight fits: if every write finds room for all its bytes
  beside those the polls before it have left in the ring, the characters polled followed by those still
  pending are exactly the bytes written, in order, however long the sequence of calls is.
\<close>

lemma stdout_lossless:
  assumes "stdout_invar b" and "fits 1023 (length (stdout_pending b)) ops"
  shows "\<exists>r b'. chan_run writeToStdout getchar b ops = Some (r, b') \<and>
           delivered r @ map uint (stdout_pending b') = map uint (stdout_pending b @ puts ops)"
  using assms by (intro stdout.chan_run_lossless) (simp_all add: stdout_capacity_def sizeof_stdout_buf_def)

end
