(* ===== verification/Stdout_Concurrent.thy ===== *)
theory Stdout_Concurrent
  imports Stdout_Channel
begin

text \<open>
  The stdout ring under true concurrency. The monitor (inside \<open>writeToStdout\<close>) and the manager
  (inside \<open>Domain::getchar\<close>) run on different cores; every access to the shared block is one step
  and the two sides interleave arbitrarily. The step relation follows the two routines access by
  access: test for space, store the byte, publish the write position; test for data, load the byte,
  publish the read position; the resets of an out-of-range position (\<open>w_reset\<close>, \<open>r_reset\<close>) are steps
  too. Stores of one side are observed in program order (the coherence
  assumption of the project's architecture document).
\<close>

section \<open>State and steps\<close>

datatype writer_pc =
    W_idle
  | W_test bytes            \<comment> \<open>head of the loop, the bytes still to write\<close>
  | W_store u64 u8 bytes    \<comment> \<open>space found; \<open>wrpos_new\<close>, the byte, the rest\<close>
  | W_publish u64 u8 bytes  \<comment> \<open>byte stored, write position not yet updated\<close>

datatype reader_pc =
    R_idle
  | R_load                  \<comment> \<open>data found\<close>
  | R_advance u8            \<comment> \<open>byte loaded, read position not yet updated\<close>

text \<open>\<open>sent\<close> and \<open>got\<close> are ghosts: the bytes published so far and the characters returned so far.\<close>

record stdout_sys =
  blk :: IpcBlock
  wpc :: writer_pc
  rpc :: reader_pc
  sent :: bytes
  got :: bytes

abbreviation next_pos :: "u64 \<Rightarrow> u64" where
  "next_pos p \<equiv> (p + 1) mod of_nat sizeof_stdout_buf"

inductive stdout_step :: "stdout_sys \<Rightarrow> stdout_sys \<Rightarrow> bool" where
  w_call: "wpc s = W_idle \<Longrightarrow> \<not> of_nat sizeof_stdout_buf \<le> stdout_wrpos (e2m (blk s)) \<Longrightarrow>
    stdout_step s (s\<lparr>wpc := W_test data\<rparr>)"
| w_reset: "wpc s = W_idle \<Longrightarrow> of_nat sizeof_stdout_buf \<le> stdout_wrpos (e2m (blk s)) \<Longrightarrow>
    stdout_step s (s\<lparr>wpc := W_test wrpos_message,
      blk := (blk s)\<lparr>e2m := (e2m (blk s))\<lparr>stdout_wrpos := 0\<rparr>\<rparr>\<rparr>)"
| w_return: "wpc s = W_test [] \<Longrightarrow> stdout_step s (s\<lparr>wpc := W_idle\<rparr>)"
| w_full: "wpc s = W_test (d # ds) \<Longrightarrow>
    next_pos (stdout_wrpos (e2m (blk s))) = stdout_rdpos (m2e (blk s)) \<Longrightarrow>
    stdout_step s (s\<lparr>wpc := W_idle\<rparr>)"
| w_space: "wpc s = W_test (d # ds) \<Longrightarrow>
    next_pos (stdout_wrpos (e2m (blk s))) \<noteq> stdout_rdpos (m2e (blk s)) \<Longrightarrow>
    stdout_step s (s\<lparr>wpc := W_store (next_pos (stdout_wrpos (e2m (blk s)))) d ds\<rparr>)"
| w_store: "wpc s = W_store nx d ds \<Longrightarrow>
    buf_store (stdout_buf (e2m (blk s))) (stdout_wrpos (e2m (blk s))) d = Some buf \<Longrightarrow>
    stdout_step s (s\<lparr>wpc := W_publish nx d ds, blk := (blk s)\<lparr>e2m := (e2m (blk s))\<lparr>stdout_buf := buf\<rparr>\<rparr>\<rparr>)"
| w_publish: "wpc s = W_publish nx d ds \<Longrightarrow>
    stdout_step s (s\<lparr>wpc := W_test ds, sent := sent s @ [d],
      blk := (blk s)\<lparr>e2m := (e2m (blk s))\<lparr>stdout_wrpos := nx\<rparr>\<rparr>\<rparr>)"
| r_reset: "rpc s = R_idle \<Longrightarrow> of_nat sizeof_stdout_buf \<le> stdout_rdpos (m2e (blk s)) \<Longrightarrow>
    stdout_step s (s\<lparr>blk := (blk s)\<lparr>m2e := (m2e (blk s))\<lparr>stdout_rdpos := 0\<rparr>\<rparr>\<rparr>)"
| r_data: "rpc s = R_idle \<Longrightarrow> \<not> of_nat sizeof_stdout_buf \<le> stdout_rdpos (m2e (blk s)) \<Longrightarrow>
    stdout_rdpos (m2e (blk s)) \<noteq> stdout_wrpos (e2m (blk s)) \<Longrightarrow>
    stdout_step s (s\<lparr>rpc := R_load\<rparr>)"
| r_load: "rpc s = R_load \<Longrightarrow>
    buf_load (stdout_buf (e2m (blk s))) (stdout_rdpos (m2e (blk s))) = Some c \<Longrightarrow>
    stdout_step s (s\<lparr>rpc := R_advance c\<rparr>)"
| r_advance: "rpc s = R_advance c \<Longrightarrow>
    stdout_step s (s\<lparr>rpc := R_idle, got := got s @ [c],
      blk := (blk s)\<lparr>m2e := (m2e (blk s))\<lparr>stdout_rdpos := next_pos (stdout_rdpos (m2e (blk s)))\<rparr>\<rparr>\<rparr>)"

definition stdout_init :: stdout_sys where
  "stdout_init = \<lparr>blk = zero_IpcBlock, wpc = W_idle, rpc = R_idle, sent = [], got = []\<rparr>"

inductive stdout_reach :: "stdout_sys \<Rightarrow> bool" where
  start: "stdout_reach stdout_init"
| step: "stdout_reach s \<Longrightarrow> stdout_step s t \<Longrightarrow> stdout_reach t"

section \<open>The invariant\<close>

text \<open>
  A writer past its space test still has space (the reader can only make more), and a byte it has
  stored but not published is in place. A reader past its data test still has data, and the byte it
  has loaded is the oldest one.
\<close>

fun writer_ok :: "IpcBlock \<Rightarrow> writer_pc \<Rightarrow> bool" where
  "writer_ok b (W_store nx d ds) \<longleftrightarrow>
     nx = next_pos (stdout_wrpos (e2m b)) \<and> length (stdout_pending b) < stdout_capacity"
| "writer_ok b (W_publish nx d ds) \<longleftrightarrow>
     nx = next_pos (stdout_wrpos (e2m b)) \<and> length (stdout_pending b) < stdout_capacity \<and>
     stdout_buf (e2m b) ! unat (stdout_wrpos (e2m b)) = d"
| "writer_ok b _ \<longleftrightarrow> True"

fun reader_ok :: "IpcBlock \<Rightarrow> reader_pc \<Rightarrow> bool" where
  "reader_ok b R_load \<longleftrightarrow> stdout_pending b \<noteq> []"
| "reader_ok b (R_advance c) \<longleftrightarrow> (\<exists>q. stdout_pending b = c # q)"
| "reader_ok b R_idle \<longleftrightarrow> True"

definition stdout_sys_inv :: "stdout_sys \<Rightarrow> bool" where
  "stdout_sys_inv s \<longleftrightarrow> stdout_invar (blk s) \<and> sent s = got s @ stdout_pending (blk s) \<and>
     writer_ok (blk s) (wpc s) \<and> reader_ok (blk s) (rpc s)"

section \<open>One access at a time\<close>

text \<open>What the pending bytes become under the three stores to the block.\<close>

lemma stdout_sizes:
  assumes "stdout_invar b"
  shows "length (stdout_buf (e2m b)) = sizeof_stdout_buf"
    and "unat (stdout_wrpos (e2m b)) < sizeof_stdout_buf"
    and "unat (stdout_rdpos (m2e b)) < sizeof_stdout_buf"
  using assms by (simp_all add: stdout_invar_def stdout_safe_def wf_ipc_def)

lemma space_iff:
  assumes "stdout_invar b"
  shows "length (stdout_pending b) < stdout_capacity \<longleftrightarrow>
    next_pos (stdout_wrpos (e2m b)) \<noteq> stdout_rdpos (m2e b)"
proof -
  note sz = stdout_sizes [OF assms]
  have "next_pos (stdout_wrpos (e2m b)) = stdout_rdpos (m2e b) \<longleftrightarrow>
      Suc (length (stdout_pending b)) = sizeof_stdout_buf"
    using ring_full_iff [OF sz(3) sz(2)]
    by (simp add: stdout_pending_def sz(1) word_unat_eq_iff unat_next_pos)
  moreover have "length (stdout_pending b) < sizeof_stdout_buf"
    by (simp add: stdout_pending_def sz(1) ring_count_less sizeof_stdout_buf_def)
  ultimately show ?thesis
    by (auto simp: stdout_capacity_def)
qed

lemma pending_store:
  assumes "stdout_invar b"
  shows "stdout_pending (b\<lparr>e2m := (e2m b)\<lparr>stdout_buf := (stdout_buf (e2m b))[unat (stdout_wrpos (e2m b)) := d]\<rparr>\<rparr>)
    = stdout_pending b"
  using stdout_sizes [OF assms]
  by (auto simp: stdout_pending_def ring_contents_def ring_index_before
      intro!: list_update_beyond_map dest: ring_index_before)

lemma pending_publish:
  assumes "stdout_invar b" and "length (stdout_pending b) < stdout_capacity"
    and "stdout_buf (e2m b) ! unat (stdout_wrpos (e2m b)) = d"
  shows "stdout_pending (b\<lparr>e2m := (e2m b)\<lparr>stdout_wrpos := next_pos (stdout_wrpos (e2m b))\<rparr>\<rparr>)
    = stdout_pending b @ [d]"
proof -
  let ?w = "unat (stdout_wrpos (e2m b))"
  note sz = stdout_sizes [OF assms(1)]
  have "Suc ?w mod sizeof_stdout_buf \<noteq> unat (stdout_rdpos (m2e b))"
    using assms space_iff [OF assms(1)] by (metis unat_next_pos word_unat_eq_iff)
  then show ?thesis
    using ring_contents_push [of "unat (stdout_rdpos (m2e b))" "stdout_buf (e2m b)" ?w d] sz assms(3)
    by (auto simp: stdout_pending_def unat_next_pos)
qed

lemma pending_cases:
  assumes "stdout_invar b"
  shows "(stdout_pending b = []) = (stdout_rdpos (m2e b) = stdout_wrpos (e2m b))"
proof -
  note sz = stdout_sizes [OF assms]
  have "(stdout_pending b = []) = (ring_count sizeof_stdout_buf (unat (stdout_rdpos (m2e b))) (unat (stdout_wrpos (e2m b))) = 0)"
    by (simp add: stdout_pending_def ring_contents_def sz(1))
  then show ?thesis
    using ring_count_eq_0 [OF sz(3) sz(2)] by (simp add: word_unat_eq_iff)
qed

lemma pending_advance:
  assumes "stdout_invar b" and "stdout_pending b \<noteq> []"
  shows "stdout_pending b = stdout_buf (e2m b) ! unat (stdout_rdpos (m2e b)) #
     stdout_pending (b\<lparr>m2e := (m2e b)\<lparr>stdout_rdpos := next_pos (stdout_rdpos (m2e b))\<rparr>\<rparr>)"
  using assms stdout_sizes [OF assms(1)] pending_cases [OF assms(1)]
    ring_contents_pop [of "unat (stdout_rdpos (m2e b))" "stdout_buf (e2m b)" "unat (stdout_wrpos (e2m b))"]
  by (simp add: stdout_pending_def unat_next_pos word_unat_eq_iff)

lemma stdout_invar_updates:
  assumes "stdout_invar b"
  shows "stdout_invar (b\<lparr>e2m := (e2m b)\<lparr>stdout_buf := (stdout_buf (e2m b))[i := d]\<rparr>\<rparr>)"
    and "stdout_invar (b\<lparr>e2m := (e2m b)\<lparr>stdout_wrpos := next_pos w\<rparr>\<rparr>)"
    and "stdout_invar (b\<lparr>m2e := (m2e b)\<lparr>stdout_rdpos := next_pos w\<rparr>\<rparr>)"
  using assms by (simp_all add: stdout_invar_def stdout_safe_def wf_ipc_def unat_next_pos)

section \<open>Every step keeps the invariant\<close>

lemma stdout_sys_invI:
  "stdout_invar (blk s) \<Longrightarrow> sent s = got s @ stdout_pending (blk s) \<Longrightarrow>
   writer_ok (blk s) (wpc s) \<Longrightarrow> reader_ok (blk s) (rpc s) \<Longrightarrow> stdout_sys_inv s"
  by (simp add: stdout_sys_inv_def)

lemma writer_ok_advance:
  assumes "stdout_invar b" and "stdout_pending b \<noteq> []" and "writer_ok b w"
  shows "writer_ok (b\<lparr>m2e := (m2e b)\<lparr>stdout_rdpos := next_pos (stdout_rdpos (m2e b))\<rparr>\<rparr>) w"
proof -
  let ?b = "b\<lparr>m2e := (m2e b)\<lparr>stdout_rdpos := next_pos (stdout_rdpos (m2e b))\<rparr>\<rparr>"
  have "length (stdout_pending b) = Suc (length (stdout_pending ?b))"
    using arg_cong [OF pending_advance [OF assms(1,2)], of length] by simp
  with assms(3) show ?thesis
    by (cases w) simp_all
qed

lemma reader_ok_publish:
  "reader_ok b r \<Longrightarrow> stdout_pending b' = stdout_pending b @ xs \<Longrightarrow> reader_ok b' r"
  by (cases r) auto

lemma stdout_step_inv:
  assumes "stdout_step s t" and "stdout_sys_inv s"
  shows "stdout_sys_inv t"
  using assms
proof (induction rule: stdout_step.induct)
  case (w_reset s)
  then show ?case
    using stdout_sizes(2) [of "blk s"] by (simp add: stdout_sys_inv_def stdout_range)
next
  case (r_reset s)
  then show ?case
    using stdout_sizes(3) [of "blk s"] by (simp add: stdout_sys_inv_def stdout_range)
next
  case (w_space s d ds)
  then show ?case
    by (simp add: stdout_sys_inv_def space_iff)
next
  case (w_store s nx d ds buf)
  let ?b = "blk s"
  have inv: "stdout_invar ?b" and w: "writer_ok ?b (W_store nx d ds)" and r: "reader_ok ?b (rpc s)"
    and log: "sent s = got s @ stdout_pending ?b"
    using w_store by (simp_all add: stdout_sys_inv_def)
  have buf: "buf = (stdout_buf (e2m ?b))[unat (stdout_wrpos (e2m ?b)) := d]"
    using w_store(2) stdout_sizes(1,2) [OF inv] by (simp add: buf_store_def split: if_splits)
  let ?b' = "?b\<lparr>e2m := (e2m ?b)\<lparr>stdout_buf := buf\<rparr>\<rparr>"
  have p: "stdout_pending ?b' = stdout_pending ?b"
    unfolding buf by (rule pending_store [OF inv])
  have "stdout_invar ?b'"
    unfolding buf by (rule stdout_invar_updates(1) [OF inv])
  moreover have "writer_ok ?b' (W_publish nx d ds)"
    using w stdout_sizes(1,2) [OF inv] p by (simp add: buf)
  moreover have "reader_ok ?b' (rpc s)"
    using r by (rule reader_ok_publish [where xs = "[]"]) (simp add: p)
  ultimately show ?case
    using log p by (intro stdout_sys_invI) simp_all
next
  case (w_publish s nx d ds)
  let ?b = "blk s"
  have inv: "stdout_invar ?b" and w: "writer_ok ?b (W_publish nx d ds)" and r: "reader_ok ?b (rpc s)"
    and log: "sent s = got s @ stdout_pending ?b"
    using w_publish by (simp_all add: stdout_sys_inv_def)
  let ?b' = "?b\<lparr>e2m := (e2m ?b)\<lparr>stdout_wrpos := nx\<rparr>\<rparr>"
  have p: "stdout_pending ?b' = stdout_pending ?b @ [d]"
    using w pending_publish [OF inv] by simp
  moreover have "stdout_invar ?b'"
    using w stdout_invar_updates(2) [OF inv] by simp
  moreover have "reader_ok ?b' (rpc s)"
    using r p by (rule reader_ok_publish)
  ultimately show ?case
    using log by (intro stdout_sys_invI) simp_all
next
  case (r_data s)
  then show ?case
    by (simp add: stdout_sys_inv_def pending_cases)
next
  case (r_load s c)
  then have inv: "stdout_invar (blk s)" and ne: "stdout_pending (blk s) \<noteq> []"
    by (simp_all add: stdout_sys_inv_def)
  from pending_advance [OF this] obtain q where
    "stdout_pending (blk s) = stdout_buf (e2m (blk s)) ! unat (stdout_rdpos (m2e (blk s))) # q" by blast
  with r_load show ?case
    by (simp add: stdout_sys_inv_def buf_load_def split: if_splits)
next
  case (r_advance s c)
  let ?b = "blk s"
  let ?b' = "?b\<lparr>m2e := (m2e ?b)\<lparr>stdout_rdpos := next_pos (stdout_rdpos (m2e ?b))\<rparr>\<rparr>"
  have inv: "stdout_invar ?b" and w: "writer_ok ?b (wpc s)"
    and log: "sent s = got s @ stdout_pending ?b" and ne: "stdout_pending ?b \<noteq> []"
    and hd: "hd (stdout_pending ?b) = c"
    using r_advance by (auto simp: stdout_sys_inv_def)
  have "stdout_pending ?b = c # stdout_pending ?b'"
    using pending_advance [OF inv ne] hd by (metis list.sel(1))
  then show ?case
    using log writer_ok_advance [OF inv ne w] stdout_invar_updates(3) [OF inv]
    by (intro stdout_sys_invI) simp_all
qed (auto simp: stdout_sys_inv_def)

lemma stdout_reach_inv: "stdout_reach s \<Longrightarrow> stdout_sys_inv s"
proof (induction rule: stdout_reach.induct)
  case start
  show ?case by (simp add: stdout_sys_inv_def stdout_init_def)
next
  case (step s t)
  then show ?case by (blast intro: stdout_step_inv)
qed

section \<open>Properties\<close>

text \<open>
  C22: with monitor and manager running concurrently and interleaving at every single access to the
  shared block, the characters the manager has returned are always exactly the first bytes the
  monitor has published, in order: nothing is lost, duplicated, reordered or torn.
\<close>

theorem stdout_concurrent_fifo:
  assumes "stdout_reach s"
  shows "sent s = got s @ stdout_pending (blk s)"
  using stdout_reach_inv [OF assms] by (simp add: stdout_sys_inv_def)

theorem stdout_concurrent_fifo_witness:
  "\<exists>s. stdout_reach s \<and> wpc s = W_test [66, 67] \<and> sent s = got s @ stdout_pending (blk s)"
proof -
  have "stdout_reach (stdout_init\<lparr>wpc := W_test [66, 67]\<rparr>)"
    by (rule stdout_reach.step [OF stdout_reach.start], rule stdout_step.w_call)
      (simp_all add: stdout_init_def zero_IpcBlock_def sizeof_stdout_buf_def)
  with stdout_concurrent_fifo show ?thesis
    by (intro exI [of _ "stdout_init\<lparr>wpc := W_test [66, 67]\<rparr>"]) simp
qed

text \<open>
  Under the same concurrency both positions stay in range, so that neither side ever needs
  its reset path and every store and load of the ring is inside the buffer: a writer about to store
  and a reader about to load can always take their step.
\<close>

lemma stdout_concurrent_in_bounds:
  assumes "stdout_reach s"
  shows "unat (stdout_wrpos (e2m (blk s))) < sizeof_stdout_buf \<and>
    unat (stdout_rdpos (m2e (blk s))) < sizeof_stdout_buf \<and>
    (wpc s = W_store nx d ds \<longrightarrow> (\<exists>t. stdout_step s t \<and> wpc t = W_publish nx d ds)) \<and>
    (rpc s = R_load \<longrightarrow> (\<exists>t c. stdout_step s t \<and> rpc t = R_advance c))"
proof -
  from stdout_reach_inv [OF assms] have "stdout_invar (blk s)"
    by (simp add: stdout_sys_inv_def)
  note sz = stdout_sizes [OF this]
  have "\<exists>t. stdout_step s t \<and> wpc t = W_publish nx d ds" if "wpc s = W_store nx d ds"
    using stdout_step.w_store [OF that] sz by (force simp: buf_store_def)
  moreover have "\<exists>t c. stdout_step s t \<and> rpc t = R_advance c" if "rpc s = R_load"
    using stdout_step.r_load [OF that] sz by (force simp: buf_load_def)
  ultimately show ?thesis using sz by blast
qed

end
