(* ===== verification/Payload_Image.thy ===== *)
theory Payload_Image
  imports Crc32 Ipc_Block
begin

text \<open>
  The payload image and its validation by the monitor: \<open>PayloadImageHeader\<close> and \<open>validatePayload\<close> of
  \<open>src/executor/monitor/monitor.cpp\<close> with the constants of \<open>abi_defs.inc\<close>. What the monitor expects of
  its checksum is the interface \<open>image_checksum\<close>, interpreted on \<open>crc32\<close>.
\<close>

section \<open>The image header\<close>

definition ABI_MAGIC_NUMBER :: u32 where "ABI_MAGIC_NUMBER = 0x6f626d42"
definition ABI_MAJOR :: u8 where "ABI_MAJOR = 0x02"
definition ABI_MINOR :: u8 where "ABI_MINOR = 0x00"

record PayloadImageHeader =
  thunk :: bytes
  magic :: u32
  abi_major :: u8
  abi_minor :: u8
  res0 :: bytes
  load_address :: u64
  program_size :: u64

definition PayloadImageHeader_layout :: "c_field list" where
  "PayloadImageHeader_layout = [c_array 8 c_u8, c_u32, c_u8, c_u8, c_array 2 c_u8, c_u64, c_u64]"

definition sizeof_header :: nat where
  "sizeof_header = struct_size PayloadImageHeader_layout"

text \<open>\<open>memcpy(&hdr, image, sizeof(hdr))\<close>: the fields at the offsets of the layout, little endian.\<close>

definition field_bytes :: "c_field list \<Rightarrow> nat \<Rightarrow> bytes \<Rightarrow> bytes" where
  "field_bytes fs i bs = take (snd (fs ! i)) (drop (field_offsets 0 fs ! i) bs)"

definition decode_header :: "bytes \<Rightarrow> PayloadImageHeader" where
  "decode_header bs =
     (let f = (\<lambda>i. field_bytes PayloadImageHeader_layout i bs) in
      \<lparr>thunk = f 0, magic = le_word (f 1), abi_major = le_word (f 2), abi_minor = le_word (f 3),
       res0 = f 4, load_address = le_word (f 5), program_size = le_word (f 6)\<rparr>)"

text \<open>The bytes the linker script and start-up code put at the start of an image.\<close>

definition encode_header :: "PayloadImageHeader \<Rightarrow> bytes" where
  "encode_header h = thunk h @ le_bytes 4 (magic h) @ [abi_major h, abi_minor h] @ res0 h @
     le_bytes 8 (load_address h) @ le_bytes 8 (program_size h)"

section \<open>Validation\<close>

text \<open>
  \<open>validatePayload\<close> over the checksum function it calls. The image is read through its address in
  physical memory; note that the header is read whatever \<open>image_size\<close> says.
\<close>

definition validatePayload_with ::
    "(u32 \<Rightarrow> bytes \<Rightarrow> u32) \<Rightarrow> memory \<Rightarrow> u64 \<Rightarrow> u64 \<Rightarrow> u32 \<Rightarrow> Response" where
  "validatePayload_with checksum phys img image_size crc_expected =
     (let crc_gotten = checksum 0 (mem_read phys img (unat image_size)) in
      if crc_gotten \<noteq> crc_expected then crc_mismatched
      else
        let hdr = decode_header (mem_read phys img sizeof_header) in
        if magic hdr \<noteq> ABI_MAGIC_NUMBER then image_malformed
        else if abi_major hdr \<noteq> ABI_MAJOR \<or> ABI_MINOR < abi_minor hdr then abi_incompatible
        else crc_ok)"

definition validatePayload :: "memory \<Rightarrow> u64 \<Rightarrow> u64 \<Rightarrow> u32 \<Rightarrow> Response" where
  "validatePayload = validatePayload_with crc32"

definition header_ok :: "PayloadImageHeader \<Rightarrow> bool" where
  "header_ok h \<longleftrightarrow> magic h = ABI_MAGIC_NUMBER \<and> abi_major h = ABI_MAJOR \<and> abi_minor h \<le> ABI_MINOR"

section \<open>Header lemmas\<close>

lemma sizeof_header [simp]: "sizeof_header = 32"
  by (simp add: sizeof_header_def PayloadImageHeader_layout_def layout_defs)

lemma header_offsets:
  "field_offsets 0 PayloadImageHeader_layout = [0, 8, 12, 13, 14, 16, 24]"
  "PayloadImageHeader_layout = [(1, 8), (4, 4), (1, 1), (1, 1), (1, 2), (8, 8), (8, 8)]"
  by (simp_all add: PayloadImageHeader_layout_def layout_defs)

lemma field_bytes_header:
  "field_bytes PayloadImageHeader_layout 0 bs = take 8 bs"
  "field_bytes PayloadImageHeader_layout (Suc 0) bs = take 4 (drop 8 bs)"
  "field_bytes PayloadImageHeader_layout 2 bs = take 1 (drop 12 bs)"
  "field_bytes PayloadImageHeader_layout 3 bs = take 1 (drop 13 bs)"
  "field_bytes PayloadImageHeader_layout 4 bs = take 2 (drop 14 bs)"
  "field_bytes PayloadImageHeader_layout 5 bs = take 8 (drop 16 bs)"
  "field_bytes PayloadImageHeader_layout 6 bs = take 8 (drop 24 bs)"
  unfolding field_bytes_def header_offsets(1) unfolding header_offsets(2) by simp_all

lemma le_word_single [simp]: "le_word [b :: u8] = (b :: u8)"
  by (simp add: le_word.simps)

lemma decode_encode_header:
  assumes "length (thunk h) = 8" and "length (res0 h) = 2"
  shows "decode_header (encode_header h @ rest) = h"
  using assms by (simp add: decode_header_def encode_header_def field_bytes_header)

section \<open>The checksum the monitor relies on\<close>

text \<open>
  \<open>detectable xs ys\<close> are the corruptions of an image \<open>xs\<close> into \<open>ys\<close> that the checksum promises to
  reveal. An empty range yields the seed, which is how ELF payloads (declared size 0, checksum 0)
  pass the check.
\<close>

locale image_checksum =
  fixes checksum :: "u32 \<Rightarrow> bytes \<Rightarrow> u32"
    and detectable :: "bytes \<Rightarrow> bytes \<Rightarrow> bool"
  assumes detects: "detectable xs ys \<Longrightarrow> checksum s xs \<noteq> checksum s ys"
    and empty_image: "checksum s [] = s"
begin

lemma accepts_iff:
  "validatePayload_with checksum phys img sz crc = crc_ok \<longleftrightarrow>
     checksum 0 (mem_read phys img (unat sz)) = crc \<and> header_ok (decode_header (mem_read phys img 32))"
  by (auto simp: validatePayload_with_def Let_def header_ok_def not_less)

lemma corrupted_rejected:
  "detectable xs (mem_read phys img (unat sz)) \<Longrightarrow>
   validatePayload_with checksum phys img sz (checksum 0 xs) = crc_mismatched"
  using detects [of xs "mem_read phys img (unat sz)" 0]
  by (auto simp: validatePayload_with_def Let_def)

lemma empty_accepts_iff:
  "validatePayload_with checksum phys img 0 0 = crc_ok \<longleftrightarrow> header_ok (decode_header (mem_read phys img 32))"
  by (simp add: accepts_iff empty_image)

end

definition burst :: "bytes \<Rightarrow> bytes \<Rightarrow> bool" where
  "burst xs ys \<longleftrightarrow> (\<exists>pre us vs post. xs = pre @ us @ post \<and> ys = pre @ vs @ post \<and>
     length us = length vs \<and> length us \<le> 4 \<and> us \<noteq> vs)"

interpretation crc: image_checksum crc32 burst
  by unfold_locales (auto simp: burst_def dest: crc32_burst)

section \<open>Properties\<close>

text \<open>
  C6: an image that was corrupted on its way into memory is refused: if the bytes in memory differ
  from the image the checksum was computed for only inside a window of at most four bytes, and do
  differ there, the monitor answers \<open>crc_mismatched\<close>, whatever the rest of the image is.
\<close>

theorem corrupted_image_rejected:
  assumes "mem_read phys img (unat sz) = pre @ vs @ post"
    and "length us = length vs" and "length us \<le> 4" and "us \<noteq> vs"
  shows "validatePayload phys img sz (crc32 0 (pre @ us @ post)) = crc_mismatched"
  unfolding validatePayload_def
  by (rule crc.corrupted_rejected) (use assms in \<open>simp add: burst_def, blast\<close>)

theorem corrupted_image_rejected_witness:
  "validatePayload (\<lambda>a. if a = 0x800100001 then 9 else 0) 0x800100000 3 (crc32 0 ([0] @ [7] @ [0])) = crc_mismatched"
  by (rule corrupted_image_rejected [where vs = "[9]"]) (simp_all add: mem_read_def upt_rec)

text \<open>
  What \<open>validatePayload\<close> accepts. For an image that starts with a header and is loaded at any
  address, the answer is \<open>crc_ok\<close> exactly when the CRC of the declared range is the expected one,
  the magic number matches, the major version is 2 and the minor version is not newer than the
  monitor's; otherwise the answer names the first of these checks that fails. The header fields
  that are not part of a check (thunk, load address, program size) do not matter.
\<close>

lemma validatePayload_cases:
  assumes "mem_read phys img 32 = encode_header h" and "length (thunk h) = 8" and "length (res0 h) = 2"
  shows "validatePayload phys img sz crc =
    (if crc32 0 (mem_read phys img (unat sz)) \<noteq> crc then crc_mismatched
     else if magic h \<noteq> 0x6f626d42 then image_malformed
     else if abi_major h = 2 \<and> abi_minor h = 0 then crc_ok else abi_incompatible)"
proof -
  have "decode_header (mem_read phys img 32) = h"
    using decode_encode_header [of h "[]"] assms by simp
  then show ?thesis
    by (auto simp: validatePayload_def validatePayload_with_def Let_def ABI_MAGIC_NUMBER_def ABI_MAJOR_def
        ABI_MINOR_def word_neq_0_conv [symmetric])
qed

end
