(* ===== verification/Mmio.thy ===== *)
theory Mmio
  imports Ipc_Block
begin

text \<open>
  Memory-mapped device registers. A device access by the code is a volatile load or store at a
  physical address; stores are recorded in program order (\<open>mm_log\<close>), which is what the hardware
  observes, and \<open>mm_regs\<close> is the value a load returns: a plain read/write register gives back what
  was stored last. Registers whose loads are not plain (set/clear registers, interrupt acknowledge)
  are never read back by the code through this map after it has stored to them, except where a
  theorem says so.

  \<open>class Mmap\<close> (\<open>src/utility/mmap.hpp\<close>) is the manager's way to reach such registers: a mapping that
  may have failed. An access through a failed or released mapping is a fault, the result \<open>None\<close>.
\<close>

section \<open>Device accesses\<close>

datatype access = W32 u64 u32 | W8 u64 u8

record mmio =
  mm_regs :: "u64 \<Rightarrow> u32"
  mm_log :: "access list"

definition mm_read32 :: "mmio \<Rightarrow> u64 \<Rightarrow> u32" where
  "mm_read32 m a = mm_regs m a"

definition mm_write32 :: "mmio \<Rightarrow> u64 \<Rightarrow> u32 \<Rightarrow> mmio" where
  "mm_write32 m a v = m\<lparr>mm_regs := (mm_regs m)(a := v), mm_log := mm_log m @ [W32 a v]\<rparr>"

definition mm_write8 :: "mmio \<Rightarrow> u64 \<Rightarrow> u8 \<Rightarrow> mmio" where
  "mm_write8 m a v = m\<lparr>mm_log := mm_log m @ [W8 a v]\<rparr>"

lemma mm_read_write [simp, mmio_simps]:
  "mm_read32 (mm_write32 m a v) b = (if b = a then v else mm_read32 m b)"
  "mm_read32 (mm_write8 m a w) b = mm_read32 m b"
  by (simp_all add: mm_read32_def mm_write32_def mm_write8_def)

lemma mm_log_write [simp, mmio_simps]:
  "mm_log (mm_write32 m a v) = mm_log m @ [W32 a v]"
  "mm_log (mm_write8 m a w) = mm_log m @ [W8 a w]"
  by (simp_all add: mm_write32_def mm_write8_def)

lemma mm_regs_write [simp, mmio_simps]:
  "mm_regs (mm_write32 m a v) = (mm_regs m)(a := v)"
  "mm_regs (mm_write8 m a w) = mm_regs m"
  by (simp_all add: mm_write32_def mm_write8_def)

section \<open>\<open>class Mmap\<close>\<close>

text \<open>
  \<open>base\<close> is the physical address the mapping shows at offset 0, \<open>None\<close> for a null pointer. The
  operating system's \<open>mmap\<close> is a parameter: it tells for an offset and a length whether the mapping
  succeeds.
\<close>

type_synonym os_mmap = "u64 \<Rightarrow> u64 \<Rightarrow> bool"

record Mmap =
  base :: "u64 option"
  len :: u64

definition Mmap_new :: "os_mmap \<Rightarrow> u64 \<Rightarrow> u64 \<Rightarrow> Mmap" where
  "Mmap_new mmap sz offset =
     (if mmap offset sz then \<lparr>base = Some offset, len = sz\<rparr>
      else \<lparr>base = None, len = 0\<rparr>)"

definition Mmap_bool :: "Mmap \<Rightarrow> bool" where
  "Mmap_bool m \<longleftrightarrow> base m \<noteq> None"

definition Mmap_data :: "Mmap \<Rightarrow> u64 option" where
  "Mmap_data m = base m"

definition Mmap_size :: "Mmap \<Rightarrow> u64" where
  "Mmap_size m = len m"

definition Mmap_unmap :: "Mmap \<Rightarrow> Mmap" where
  "Mmap_unmap m = (if base m \<noteq> None then m\<lparr>base := None\<rparr> else m)"

definition Mmap_read32 :: "Mmap \<Rightarrow> mmio \<Rightarrow> u64 \<Rightarrow> u32 option" where
  "Mmap_read32 m io offset =
     (case base m of None \<Rightarrow> None | Some p \<Rightarrow> Some (mm_read32 io (p + offset)))"

definition Mmap_write32 :: "Mmap \<Rightarrow> mmio \<Rightarrow> u64 \<Rightarrow> u32 \<Rightarrow> mmio option" where
  "Mmap_write32 m io offset v =
     (case base m of None \<Rightarrow> None | Some p \<Rightarrow> Some (mm_write32 io (p + offset) v))"

lemma Mmap_new_ok [simp]: "mmap p n \<Longrightarrow> Mmap_new mmap n p = \<lparr>base = Some p, len = n\<rparr>"
  by (simp add: Mmap_new_def)

lemma Mmap_new_failed [simp]: "\<not> mmap p n \<Longrightarrow> Mmap_new mmap n p = \<lparr>base = None, len = 0\<rparr>"
  by (simp add: Mmap_new_def)

lemma Mmap_bool_new [simp]: "Mmap_bool (Mmap_new mmap n p) \<longleftrightarrow> mmap p n"
  by (simp add: Mmap_bool_def Mmap_new_def)

lemma Mmap_bool_simps [simp]:
  "Mmap_bool \<lparr>base = Some p, len = n\<rparr>" "\<not> Mmap_bool \<lparr>base = None, len = n\<rparr>"
  by (simp_all add: Mmap_bool_def)

lemma Mmap_access [simp, mmio_simps]:
  "Mmap_read32 \<lparr>base = Some p, len = n\<rparr> io off = Some (mm_read32 io (p + off))"
  "Mmap_write32 \<lparr>base = Some p, len = n\<rparr> io off v = Some (mm_write32 io (p + off) v)"
  "Mmap_read32 \<lparr>base = None, len = n\<rparr> io off = None"
  "Mmap_write32 \<lparr>base = None, len = n\<rparr> io off v = None"
  by (simp_all add: Mmap_read32_def Mmap_write32_def)

section \<open>C integer arithmetic on \<open>int\<close>\<close>

text \<open>
  Division and remainder truncate towards zero. A shift by a negative count is undefined
  behaviour, the result \<open>None\<close>.
\<close>

definition c_div :: "int \<Rightarrow> int \<Rightarrow> int" where
  "c_div a b = sgn a * sgn b * (\<bar>a\<bar> div \<bar>b\<bar>)"

definition c_mod :: "int \<Rightarrow> int \<Rightarrow> int" where
  "c_mod a b = a - c_div a b * b"

definition c_shl :: "u32 \<Rightarrow> int \<Rightarrow> u32 option" where
  "c_shl v k = (if 0 \<le> k \<and> k < 32 then Some (push_bit (nat k) v) else None)"

lemma c_div_nonneg [simp]: "0 \<le> a \<Longrightarrow> 0 < b \<Longrightarrow> c_div a b = a div b"
  by (cases "a = 0") (simp_all add: c_div_def)

lemma c_mod_nonneg [simp]: "0 \<le> a \<Longrightarrow> 0 < b \<Longrightarrow> c_mod a b = a mod b"
  by (simp add: c_mod_def minus_div_mult_eq_mod)

lemma c_shl_in_range [simp]: "0 \<le> k \<Longrightarrow> k < 32 \<Longrightarrow> c_shl v k = Some (push_bit (nat k) v)"
  by (simp add: c_shl_def)

end
