(* ===== verification/Gicv2.thy ===== *)
theory Gicv2
  imports Mmio
begin

text \<open>
  The interrupt controller's register map and its inline operations,
  \<open>src/executor/gicv2.hpp\<close>. Register addresses are computed from the struct declarations by the C
  layout rule; array elements are addressed as C++ does it, also beyond the declared bound. Each
  operation is the register access it performs on an \<open>mmio\<close> state; \<open>None\<close> is the undefined
  behaviour of a negative shift count (a negative interrupt ID).
\<close>

section \<open>Register maps\<close>

definition DIST_BASEADDR :: u64 where "DIST_BASEADDR = 0xF9010000"
definition CPU_BASEADDR :: u64 where "CPU_BASEADDR = 0xF9020000"

text \<open>\<open>struct GICC\<close>: \<open>CTRL\<close>, \<open>PMR\<close>, \<open>BPR\<close>, \<open>IAR\<close>, \<open>EOIR\<close>, \<open>RPR\<close>, \<open>HPPIR\<close>, \<open>ABPR\<close>, \<open>AIAR\<close>, \<open>AEOIR\<close>, \<open>AHPPIR\<close>,
  two reserved gaps, \<open>APR0\<close>, a reserved gap, \<open>NSAPR0\<close>.\<close>

definition GICC_layout :: "c_field list" where
  "GICC_layout =
    [c_u32, c_u32, c_u32, c_u32, c_u32, c_u32, c_u32, c_u32, c_u32, c_u32, c_u32, c_u32,
     c_array (4 * 10) c_u32, c_u32, c_array 3 c_u32, c_u32]"

text \<open>\<open>struct GICD\<close>, in declaration order; the sixth index is \<open>IGROUPRn\<close>, declared with one element.\<close>

definition GICD_layout :: "c_field list" where
  "GICD_layout =
    [c_u32, c_u32, c_u32, c_array 5 c_u32, c_array 8 c_u32, c_array 16 c_u32,
     c_array 1 c_u32, c_array 31 c_u32,
     c_array 32 c_u32, c_array 32 c_u32, c_array 32 c_u32, c_array 32 c_u32,
     c_array 32 c_u32, c_array 32 c_u32,
     c_array 1020 c_u8, c_u32, c_array 1020 c_u8, c_u32, c_array 64 c_u32]"

definition GICC_member :: "nat \<Rightarrow> u64" where
  "GICC_member i = CPU_BASEADDR + of_nat (field_offsets 0 GICC_layout ! i)"

definition GICD_member :: "nat \<Rightarrow> u64" where
  "GICD_member i = DIST_BASEADDR + of_nat (field_offsets 0 GICD_layout ! i)"

definition GICC_CTRL :: u64 where "GICC_CTRL = GICC_member 0"
definition GICC_PMR :: u64 where "GICC_PMR = GICC_member 1"
definition GICC_BPR :: u64 where "GICC_BPR = GICC_member 2"
definition GICC_IAR :: u64 where "GICC_IAR = GICC_member 3"
definition GICC_EOIR :: u64 where "GICC_EOIR = GICC_member 4"
definition GICC_NSAPR0 :: u64 where "GICC_NSAPR0 = GICC_member 15"

definition GICD_IGROUPRn :: "int \<Rightarrow> u64" where "GICD_IGROUPRn i = GICD_member 6 + 4 * word_of_int i"
definition GICD_ISENABLERn :: "int \<Rightarrow> u64" where "GICD_ISENABLERn i = GICD_member 8 + 4 * word_of_int i"
definition GICD_ICENABLERn :: "int \<Rightarrow> u64" where "GICD_ICENABLERn i = GICD_member 9 + 4 * word_of_int i"
definition GICD_ISPENDRn :: "int \<Rightarrow> u64" where "GICD_ISPENDRn i = GICD_member 10 + 4 * word_of_int i"
definition GICD_ICPENDRn :: "int \<Rightarrow> u64" where "GICD_ICPENDRn i = GICD_member 11 + 4 * word_of_int i"
definition GICD_ISACTIVERn :: "int \<Rightarrow> u64" where "GICD_ISACTIVERn i = GICD_member 12 + 4 * word_of_int i"
definition GICD_ICACTIVERn :: "int \<Rightarrow> u64" where "GICD_ICACTIVERn i = GICD_member 13 + 4 * word_of_int i"
definition GICD_IPRIORITYRn :: "int \<Rightarrow> u64" where "GICD_IPRIORITYRn i = GICD_member 14 + word_of_int i"
definition GICD_ITARGETSRn :: "int \<Rightarrow> u64" where "GICD_ITARGETSRn i = GICD_member 16 + word_of_int i"
definition GICD_ICFGRn :: "int \<Rightarrow> u64" where "GICD_ICFGRn i = GICD_member 18 + 4 * word_of_int i"

definition CTRL_EnableGrp0 :: u32 where "CTRL_EnableGrp0 = push_bit 0 1"
definition CTRL_EnableGrp1 :: u32 where "CTRL_EnableGrp1 = push_bit 1 1"
definition CTRL_AckCtl :: u32 where "CTRL_AckCtl = push_bit 2 1"
definition CTRL_FIQEn :: u32 where "CTRL_FIQEn = push_bit 3 1"
definition IAR_CPUID_MASK :: u32 where "IAR_CPUID_MASK = 0x00000C00"
definition IAR_INTERRUPT_ID_MASK :: u32 where "IAR_INTERRUPT_ID_MASK = 0x000003FF"

section \<open>Operations of \<open>struct GICD\<close>\<close>

definition id_mask :: "int \<Rightarrow> u32 option" where
  "id_mask interrupt_id = c_shl 1 (c_mod interrupt_id 32)"

definition clearActive :: "mmio \<Rightarrow> int \<Rightarrow> mmio option" where
  "clearActive m interrupt_id =
     map_option (mm_write32 m (GICD_ICACTIVERn (c_div interrupt_id 32))) (id_mask interrupt_id)"

definition clearEnable :: "mmio \<Rightarrow> int \<Rightarrow> mmio option" where
  "clearEnable m interrupt_id =
     map_option (mm_write32 m (GICD_ICENABLERn (c_div interrupt_id 32))) (id_mask interrupt_id)"

definition clearPending :: "mmio \<Rightarrow> int \<Rightarrow> mmio option" where
  "clearPending m interrupt_id =
     map_option (mm_write32 m (GICD_ICPENDRn (c_div interrupt_id 32))) (id_mask interrupt_id)"

definition setEnable :: "mmio \<Rightarrow> int \<Rightarrow> mmio option" where
  "setEnable m interrupt_id =
     map_option (mm_write32 m (GICD_ISENABLERn (c_div interrupt_id 32))) (id_mask interrupt_id)"

definition setGroup :: "mmio \<Rightarrow> int \<Rightarrow> int \<Rightarrow> mmio option" where
  "setGroup m interrupt_id grp =
     (case id_mask interrupt_id of
        None \<Rightarrow> None
      | Some msk \<Rightarrow>
          let r = GICD_IGROUPRn (c_div interrupt_id 32) in
          Some (mm_write32 m r
            ((mm_read32 m r AND NOT msk) OR (if grp \<noteq> 0 then msk else 0))))"

definition cfg_mask :: "int \<Rightarrow> u32 option" where
  "cfg_mask interrupt_id = c_shl 0b10 (c_mod interrupt_id 16 * 2)"

definition setTriggerEdge :: "mmio \<Rightarrow> int \<Rightarrow> mmio option" where
  "setTriggerEdge m interrupt_id =
     (case cfg_mask interrupt_id of
        None \<Rightarrow> None
      | Some msk \<Rightarrow>
          let r = GICD_ICFGRn (c_div interrupt_id 16) in
          Some (mm_write32 m r (mm_read32 m r OR msk)))"

definition setTriggerLevel :: "mmio \<Rightarrow> int \<Rightarrow> mmio option" where
  "setTriggerLevel m interrupt_id =
     (case cfg_mask interrupt_id of
        None \<Rightarrow> None
      | Some msk \<Rightarrow>
          let r = GICD_ICFGRn (c_div interrupt_id 16) in
          Some (mm_write32 m r (mm_read32 m r AND msk)))"

section \<open>Addresses\<close>

lemma GICC_addresses:
  "GICC_CTRL = 0xF9020000" "GICC_PMR = 0xF9020004" "GICC_BPR = 0xF9020008" "GICC_IAR = 0xF902000C"
  "GICC_EOIR = 0xF9020010" "GICC_NSAPR0 = 0xF90200E0"
  by (simp_all add: GICC_CTRL_def GICC_PMR_def GICC_BPR_def GICC_IAR_def GICC_EOIR_def
      GICC_NSAPR0_def GICC_member_def GICC_layout_def CPU_BASEADDR_def layout_defs)

lemma GICD_members:
  "GICD_member 6 = 0xF9010080" "GICD_member 8 = 0xF9010100" "GICD_member 9 = 0xF9010180"
  "GICD_member 10 = 0xF9010200" "GICD_member 11 = 0xF9010280" "GICD_member 12 = 0xF9010300"
  "GICD_member 13 = 0xF9010380" "GICD_member 14 = 0xF9010400" "GICD_member 16 = 0xF9010800"
  "GICD_member 18 = 0xF9010C00"
  by (simp_all add: GICD_member_def GICD_layout_def DIST_BASEADDR_def layout_defs)

lemmas GICD_addresses =
  GICD_IGROUPRn_def GICD_ISENABLERn_def GICD_ICENABLERn_def GICD_ISPENDRn_def GICD_ICPENDRn_def
  GICD_ISACTIVERn_def GICD_ICACTIVERn_def GICD_IPRIORITYRn_def GICD_ITARGETSRn_def
  GICD_ICFGRn_def GICD_members

section \<open>Effects on the configuration registers\<close>

text \<open>What the configuration registers say about one interrupt: its group and its trigger.\<close>

definition gic_group :: "mmio \<Rightarrow> int \<Rightarrow> bool" where
  "gic_group m i = bit (mm_read32 m (GICD_IGROUPRn (i div 32))) (nat (i mod 32))"

definition gic_edge :: "mmio \<Rightarrow> int \<Rightarrow> bool" where
  "gic_edge m i = bit (mm_read32 m (GICD_ICFGRn (i div 16))) (nat (2 * (i mod 16) + 1))"

lemma id_mask_nonneg [simp]: "0 \<le> i \<Longrightarrow> id_mask i = Some (2 ^ nat (i mod 32))"
  by (simp add: id_mask_def)

lemma cfg_mask_nonneg [simp]: "0 \<le> i \<Longrightarrow> cfg_mask i = Some (push_bit (nat (i mod 16 * 2)) 2)"
proof -
  assume "0 \<le> i"
  moreover have "0 \<le> i mod 16" and "i mod 16 < 16" by simp_all
  then have "0 \<le> i mod 16 * 2" and "i mod 16 * 2 < 32" by linarith+
  ultimately show ?thesis by (simp add: cfg_mask_def)
qed

lemma word_reg_index_inj:
  assumes "0 \<le> i" "i < 2 ^ 32" "0 \<le> j" "j < 2 ^ 32"
  shows "(4 * word_of_int i :: u64) = 4 * word_of_int j \<longleftrightarrow> i = j"
proof
  assume eq: "(4 * word_of_int i :: u64) = 4 * word_of_int j"
  have val: "uint (4 * word_of_int k :: u64) = 4 * k" if "0 \<le> k" "k < 2 ^ 32" for k
    using that by (simp add: uint_word_ariths uint_word_of_int mod_pos_pos_trivial)
  from arg_cong [OF eq, of uint] show "i = j"
    using val assms by simp
qed simp

lemma word_div_index_inj:
  assumes "0 < k" "0 \<le> i" "i < 2 ^ 31" "0 \<le> j" "j < 2 ^ 31"
  shows "(4 * word_of_int (i div k) :: u64) = 4 * word_of_int (j div k) \<longleftrightarrow> i div k = j div k"
proof (rule word_reg_index_inj)
  have le: "x div k \<le> x" if "0 \<le> x" for x
    using assms(1) that by (metis div_by_1 zdiv_mono2 zero_less_one zless_imp_add1_zle add_0)
  show "0 \<le> i div k" "0 \<le> j div k"
    using assms by (simp_all add: pos_imp_zdiv_nonneg_iff)
  show "i div k < 2 ^ 32" "j div k < 2 ^ 32"
    using le [of i] le [of j] assms by simp_all
qed

text \<open>The numeric address of a register with a small index.\<close>

lemma uint_bank:
  "0 \<le> n \<Longrightarrow> n < 2 ^ 28 \<Longrightarrow> uint (GICD_IGROUPRn n) = 0xF9010080 + 4 * n"
  "0 \<le> n \<Longrightarrow> n < 2 ^ 28 \<Longrightarrow> uint (GICD_ISENABLERn n) = 0xF9010100 + 4 * n"
  "0 \<le> n \<Longrightarrow> n < 2 ^ 28 \<Longrightarrow> uint (GICD_ICENABLERn n) = 0xF9010180 + 4 * n"
  "0 \<le> n \<Longrightarrow> n < 2 ^ 28 \<Longrightarrow> uint (GICD_ICPENDRn n) = 0xF9010280 + 4 * n"
  "0 \<le> n \<Longrightarrow> n < 2 ^ 28 \<Longrightarrow> uint (GICD_ICACTIVERn n) = 0xF9010380 + 4 * n"
  "0 \<le> n \<Longrightarrow> n < 2 ^ 28 \<Longrightarrow> uint (GICD_ICFGRn n) = 0xF9010C00 + 4 * n"
  by (simp_all add: GICD_addresses uint_word_ariths uint_word_of_int mod_pos_pos_trivial)

lemma bank_address_cases:
  assumes "0 \<le> m" "m < 32" "0 \<le> n" "n < 32"
  shows "GICD_ISENABLERn m = GICD_ISENABLERn n \<longleftrightarrow> m = n" "GICD_ICENABLERn m = GICD_ICENABLERn n \<longleftrightarrow> m = n"
    "GICD_ISENABLERn m \<noteq> GICD_ICENABLERn n" "GICD_ICENABLERn m \<noteq> GICD_ISENABLERn n"
    "GICD_IGROUPRn m \<noteq> GICD_ISENABLERn n" "GICD_IGROUPRn m \<noteq> GICD_ICENABLERn n"
    "GICD_ICPENDRn m \<noteq> GICD_ISENABLERn n" "GICD_ICPENDRn m \<noteq> GICD_ICENABLERn n"
    "GICD_ICACTIVERn m \<noteq> GICD_ISENABLERn n" "GICD_ICACTIVERn m \<noteq> GICD_ICENABLERn n"
proof -
  have s: "m < 2 ^ 28" "n < 2 ^ 28" using assms by simp_all
  note u = uint_bank [OF assms(1) s(1)] uint_bank [OF assms(3) s(2)]
  show "GICD_ISENABLERn m = GICD_ISENABLERn n \<longleftrightarrow> m = n" "GICD_ICENABLERn m = GICD_ICENABLERn n \<longleftrightarrow> m = n"
    unfolding word_uint_eq_iff u by linarith+
  show "GICD_ISENABLERn m \<noteq> GICD_ICENABLERn n" "GICD_ICENABLERn m \<noteq> GICD_ISENABLERn n"
    "GICD_IGROUPRn m \<noteq> GICD_ISENABLERn n" "GICD_IGROUPRn m \<noteq> GICD_ICENABLERn n"
    "GICD_ICPENDRn m \<noteq> GICD_ISENABLERn n" "GICD_ICPENDRn m \<noteq> GICD_ICENABLERn n"
    "GICD_ICACTIVERn m \<noteq> GICD_ISENABLERn n" "GICD_ICACTIVERn m \<noteq> GICD_ICENABLERn n"
    unfolding word_uint_eq_iff u using assms by linarith+
qed

lemma cfg_not_enable:
  assumes "0 \<le> m" "m < 2 ^ 28" "0 \<le> n" "n < 32"
  shows "GICD_ICFGRn m \<noteq> GICD_ISENABLERn n" "GICD_ICFGRn m \<noteq> GICD_ICENABLERn n"
proof -
  have s: "n < 2 ^ 28" using assms by simp
  note u = uint_bank [OF assms(1,2)] uint_bank [OF assms(3) s]
  show "GICD_ICFGRn m \<noteq> GICD_ISENABLERn n" "GICD_ICFGRn m \<noteq> GICD_ICENABLERn n"
    unfolding word_uint_eq_iff u using assms by linarith+
qed

lemma bit_exp_u32: "bit (2 ^ n :: u32) k \<longleftrightarrow> k = n \<and> n < 32"
  by (auto simp: bit_exp_iff)

lemma same_interrupt: "i div 32 = j div 32 \<Longrightarrow> nat (i mod 32) = nat (j mod 32) \<Longrightarrow> i = (j :: int)"
  by (metis div_mult_mod_eq nat_0_le pos_mod_sign zero_less_numeral)

lemma setGroup_eq:
  "0 \<le> i \<Longrightarrow> setGroup m i g =
     Some (mm_write32 m (GICD_IGROUPRn (i div 32))
       ((mm_read32 m (GICD_IGROUPRn (i div 32)) AND NOT (2 ^ nat (i mod 32))) OR
        (if g \<noteq> 0 then 2 ^ nat (i mod 32) else 0)))"
  by (simp add: setGroup_def Let_def)

lemma setTriggerEdge_eq:
  "0 \<le> i \<Longrightarrow> setTriggerEdge m i =
     Some (mm_write32 m (GICD_ICFGRn (i div 16))
       (mm_read32 m (GICD_ICFGRn (i div 16)) OR push_bit (nat (i mod 16 * 2)) 2))"
  by (simp add: setTriggerEdge_def Let_def)

lemma setTriggerLevel_eq:
  "0 \<le> i \<Longrightarrow> setTriggerLevel m i =
     Some (mm_write32 m (GICD_ICFGRn (i div 16))
       (mm_read32 m (GICD_ICFGRn (i div 16)) AND push_bit (nat (i mod 16 * 2)) 2))"
  by (simp add: setTriggerLevel_def Let_def)

lemma gic_group_setGroup:
  assumes "0 \<le> i" "i < 2 ^ 31" "0 \<le> j" "j < 2 ^ 31" and "setGroup m i g = Some m'"
  shows "gic_group m' j = (if j = i then g \<noteq> 0 else gic_group m j)"
proof -
  have reg: "GICD_IGROUPRn (j div 32) = GICD_IGROUPRn (i div 32) \<longleftrightarrow> j div 32 = i div 32"
    using word_div_index_inj [of 32 j i] assms by (simp add: GICD_addresses)
  have m': "m' = mm_write32 m (GICD_IGROUPRn (i div 32))
       ((mm_read32 m (GICD_IGROUPRn (i div 32)) AND NOT (2 ^ nat (i mod 32))) OR
        (if g \<noteq> 0 then 2 ^ nat (i mod 32) else 0))"
    using assms(1,5) by (simp add: setGroup_eq)
  show ?thesis
  proof (cases "j div 32 = i div 32")
    case True
    then have same: "nat (j mod 32) = nat (i mod 32) \<longleftrightarrow> j = i"
      using same_interrupt by blast
    have "nat (j mod 32) < 32" by (simp add: nat_less_iff)
    then have "gic_group m' j = (if nat (j mod 32) = nat (i mod 32) then g \<noteq> 0
        else bit (mm_read32 m (GICD_IGROUPRn (i div 32))) (nat (j mod 32)))"
      by (auto simp: gic_group_def m' True bit_or_iff bit_and_iff bit_not_iff bit_exp_u32)
    with True show ?thesis
      unfolding same by (simp add: gic_group_def)
  next
    case False
    then have "j \<noteq> i" by auto
    with False reg show ?thesis
      by (simp add: gic_group_def m')
  qed
qed

lemma bit_cfg: "bit (push_bit (nat (i mod 16 * 2)) 2 :: u32) (nat (2 * (j mod 16) + 1)) \<longleftrightarrow>
    i mod 16 = j mod (16 :: int)"
proof -
  have r: "0 \<le> i mod 16" "i mod 16 < 16" "0 \<le> j mod 16" "j mod 16 < 16" by simp_all
  have "(push_bit (nat (i mod 16 * 2)) 2 :: u32) = 2 ^ nat (2 * (i mod 16) + 1)"
    using r by (simp add: push_bit_eq_mult nat_add_distrib nat_mult_distrib mult.commute)
  then show ?thesis
    using r by (auto simp: bit_exp_u32 nat_eq_iff)
qed

lemma same_interrupt_16: "i div 16 = j div 16 \<Longrightarrow> i mod 16 = j mod 16 \<Longrightarrow> i = (j :: int)"
  by (metis div_mult_mod_eq)

lemma gic_edge_cfg:
  assumes "0 \<le> i" "i < 2 ^ 31" "0 \<le> j" "j < 2 ^ 31"
  shows "setTriggerEdge m i = Some m' \<Longrightarrow> gic_edge m' j \<longleftrightarrow> j = i \<or> gic_edge m j"
    and "setTriggerLevel m i = Some m' \<Longrightarrow>
      gic_edge m' j \<longleftrightarrow> (if j div 16 = i div 16 then j = i \<and> gic_edge m j else gic_edge m j)"
proof -
  have reg: "GICD_ICFGRn (j div 16) = GICD_ICFGRn (i div 16) \<longleftrightarrow> j div 16 = i div 16"
    using word_div_index_inj [of 16 j i] assms by (simp add: GICD_addresses)
  have cfg: "j div 16 = i div 16 \<Longrightarrow>
      bit (push_bit (nat (i mod 16 * 2)) 2 :: u32) (nat (2 * (j mod 16) + 1)) \<longleftrightarrow> j = i"
    unfolding bit_cfg using same_interrupt_16 [of j i] by auto
  show "gic_edge m' j \<longleftrightarrow> j = i \<or> gic_edge m j" if "setTriggerEdge m i = Some m'"
    using that reg cfg assms
    by (cases "j div 16 = i div 16") (auto simp: gic_edge_def setTriggerEdge_eq bit_or_iff)
  show "gic_edge m' j \<longleftrightarrow> (if j div 16 = i div 16 then j = i \<and> gic_edge m j else gic_edge m j)"
    if "setTriggerLevel m i = Some m'"
    using that reg cfg assms
    by (cases "j div 16 = i div 16") (auto simp: gic_edge_def setTriggerLevel_eq bit_and_iff)
qed

section \<open>Properties\<close>

text \<open>
  The register structs lay out as the GICv2 architecture specification requires: the source's
  size assertions hold, and the registers the code uses lie at the architected offsets from the two
  base addresses.
\<close>

lemma gic_register_map:
  "struct_size GICC_layout = 0xE4 \<and> struct_size GICD_layout = 0xD00 \<and>
   GICC_IAR = CPU_BASEADDR + 0x00C \<and> GICC_EOIR = CPU_BASEADDR + 0x010 \<and> GICC_NSAPR0 = CPU_BASEADDR + 0x0E0 \<and>
   GICD_IGROUPRn n = DIST_BASEADDR + 0x080 + 4 * word_of_int n \<and>
   GICD_ISENABLERn n = DIST_BASEADDR + 0x100 + 4 * word_of_int n \<and>
   GICD_ICENABLERn n = DIST_BASEADDR + 0x180 + 4 * word_of_int n \<and>
   GICD_ICPENDRn n = DIST_BASEADDR + 0x280 + 4 * word_of_int n \<and>
   GICD_ICACTIVERn n = DIST_BASEADDR + 0x380 + 4 * word_of_int n \<and>
   GICD_IPRIORITYRn n = DIST_BASEADDR + 0x400 + word_of_int n \<and>
   GICD_ITARGETSRn n = DIST_BASEADDR + 0x800 + word_of_int n \<and>
   GICD_ICFGRn n = DIST_BASEADDR + 0xC00 + 4 * word_of_int n"
  by (intro conjI)
    (simp_all add: GICC_addresses GICD_addresses CPU_BASEADDR_def DIST_BASEADDR_def
      GICC_layout_def GICD_layout_def layout_defs)

text \<open>
  C40: the trigger operations of the interrupt controller. \<open>setTriggerEdge\<close> makes exactly the given
  interrupt edge sensitive and leaves every other one alone. \<open>setTriggerLevel\<close> does not do the
  converse: it leaves the given interrupt's trigger as it was and makes every other interrupt
  of the same register level sensitive (the mask is not complemented).
\<close>

theorem trigger_configuration:
  assumes "0 \<le> i" "i < 2 ^ 31" "0 \<le> j" "j < 2 ^ 31"
  shows "(\<exists>m'. setTriggerEdge m i = Some m' \<and> (gic_edge m' j \<longleftrightarrow> j = i \<or> gic_edge m j)) \<and>
    (\<exists>m'. setTriggerLevel m i = Some m' \<and> (gic_edge m' i \<longleftrightarrow> gic_edge m i) \<and>
       (gic_edge m' j \<longleftrightarrow> (if j div 16 = i div 16 then j = i \<and> gic_edge m j else gic_edge m j)))"
  using assms gic_edge_cfg [OF assms, of m] gic_edge_cfg(2) [OF assms(1,2,1,2), of m]
  by (auto simp: setTriggerEdge_eq setTriggerLevel_eq)

theorem trigger_configuration_witness:
  "\<exists>m'. setTriggerLevel \<lparr>mm_regs = (\<lambda>_. 0xAAAAAAAA), mm_log = []\<rparr> 125 = Some m' \<and>
     gic_edge m' 125 \<and> \<not> gic_edge m' 126"
proof -
  let ?m = "\<lparr>mm_regs = (\<lambda>_. 0xAAAAAAAA), mm_log = []\<rparr>"
  have "gic_edge ?m 125" by (simp add: gic_edge_def mm_read32_def)
  with trigger_configuration [of 125 126 ?m] show ?thesis by auto
qed

end
