(* ===== verification/Zynqmp.thy ===== *)
theory Zynqmp
  imports Mmio
begin

text \<open>
  Machine-specific code for the Zynq UltraScale+: the inter-processor interrupt tables of
  \<open>src/platform/zynqmp/zynqmp.hpp\<close> (and \<open>getInterruptIdForIpi\<close> of \<open>interrupt_controller.cpp\<close>), and the
  manager's \<open>isCoreInReset\<close>, \<open>bootCore\<close> and \<open>sendIpiMessage\<close>
  (\<open>src/platform/zynqmp/manager/zynqmp_manager.cpp\<close>). The operating system's \<open>mmap\<close> is a parameter
  (see theory \<open>Mmio\<close>); \<open>None\<close> is a fault or \<open>std::terminate\<close>.
\<close>

section \<open>IPI channels\<close>

datatype IpiChannel = ch0 | ch1 | ch2 | ch7 | ch8 | ch9 | ch10

definition BUF_BASE_APU :: u64 where "BUF_BASE_APU = 0xFF990400"
definition BUF_SIZE :: nat where "BUF_SIZE = 0x20"

fun getIpiBaseAddress :: "IpiChannel \<Rightarrow> u64" where
  "getIpiBaseAddress ch0 = 0xFF300000"
| "getIpiBaseAddress ch1 = 0xFF310000"
| "getIpiBaseAddress ch2 = 0xFF320000"
| "getIpiBaseAddress ch7 = 0xFF340000"
| "getIpiBaseAddress ch8 = 0xFF350000"
| "getIpiBaseAddress ch9 = 0xFF360000"
| "getIpiBaseAddress ch10 = 0xFF370000"

text \<open>\<open>struct IPIPSU\<close>: \<open>TRIG\<close>, \<open>OBS\<close>, a reserved gap, \<open>ISR\<close>, \<open>IMR\<close>, \<open>IER\<close>, \<open>IDR\<close>.\<close>

definition IPIPSU_layout :: "c_field list" where
  "IPIPSU_layout = [c_u32, c_u32, c_array 2 c_u32, c_u32, c_u32, c_u32, c_u32]"

definition getIpi_member :: "IpiChannel \<Rightarrow> nat \<Rightarrow> u64" where
  "getIpi_member ch i = getIpiBaseAddress ch + of_nat (field_offsets 0 IPIPSU_layout ! i)"

definition IPI_TRIG :: "IpiChannel \<Rightarrow> u64" where "IPI_TRIG ch = getIpi_member ch 0"
definition IPI_ISR :: "IpiChannel \<Rightarrow> u64" where "IPI_ISR ch = getIpi_member ch 3"
definition IPI_IER :: "IpiChannel \<Rightarrow> u64" where "IPI_IER ch = getIpi_member ch 5"

fun getIpiPeerMask :: "IpiChannel \<Rightarrow> u32" where
  "getIpiPeerMask ch0 = 0x00000001"
| "getIpiPeerMask ch1 = 0x00000100"
| "getIpiPeerMask ch2 = 0x00000200"
| "getIpiPeerMask ch7 = 0x01000000"
| "getIpiPeerMask ch8 = 0x02000000"
| "getIpiPeerMask ch9 = 0x04000000"
| "getIpiPeerMask ch10 = 0x08000000"

definition IPI_SRC_BMBOOT_MANAGER :: IpiChannel where
  "IPI_SRC_BMBOOT_MANAGER = ch0"

definition getIpiChannelForCpu :: "nat \<Rightarrow> IpiChannel option" where
  "getIpiChannelForCpu cpu_index =
     (if cpu_index = 1 then Some ch0
      else if cpu_index = 2 then Some ch7
      else if cpu_index = 3 then Some ch8
      else None)"

definition CNTPNS_INTERRUPT_ID :: int where "CNTPNS_INTERRUPT_ID = 30"

fun getInterruptIdForIpi :: "IpiChannel \<Rightarrow> int" where
  "getInterruptIdForIpi ch0 = 67"
| "getInterruptIdForIpi ch1 = 65"
| "getInterruptIdForIpi ch2 = 66"
| "getInterruptIdForIpi ch7 = 61"
| "getInterruptIdForIpi ch8 = 62"
| "getInterruptIdForIpi ch9 = 63"
| "getInterruptIdForIpi ch10 = 64"

section \<open>Core reset\<close>

definition isCoreInReset :: "os_mmap \<Rightarrow> mmio \<Rightarrow> DomainIndex \<Rightarrow> bool option" where
  "isCoreInReset mmap io domain_index =
     (let base_0xFD1A0000 = Mmap_new mmap 0x1000 0xFD1A0000 in
      if \<not> Mmap_bool base_0xFD1A0000 then Some False
      else (case getCpuIndex_manager domain_index of
              None \<Rightarrow> None
            | Some cpu_index \<Rightarrow>
                (case Mmap_read32 base_0xFD1A0000 io 0x0104 of
                   None \<Rightarrow> None
                 | Some v \<Rightarrow> Some (v AND push_bit cpu_index 0x401 \<noteq> 0))))"

definition bootCore :: "os_mmap \<Rightarrow> mmio \<Rightarrow> DomainIndex \<Rightarrow> u64 \<Rightarrow> (mmio \<times> MaybeError) option" where
  "bootCore mmap io domain_index reset_address =
     (let base_0xFD1A0000 = Mmap_new mmap 0x1000 0xFD1A0000;
          base_0xFD5C0000 = Mmap_new mmap 0x1000 0xFD5C0000 in
      if \<not> Mmap_bool base_0xFD1A0000 \<or> \<not> Mmap_bool base_0xFD5C0000 then Some (io, Some mmap_failed)
      else (case getCpuIndex_manager domain_index of
        None \<Rightarrow> None
      | Some cpu_index \<Rightarrow>
        (case Mmap_read32 base_0xFD1A0000 io 0x0104 of
          None \<Rightarrow> None
        | Some init_val \<Rightarrow>
          if init_val AND push_bit cpu_index 0x401 = 0 then Some (io, Some hw_resource_unavailable)
          else (case Mmap_write32 base_0xFD5C0000 io (0x0040 + of_nat cpu_index * 8) (ucast reset_address) of
            None \<Rightarrow> None
          | Some io1 \<Rightarrow>
            (case Mmap_write32 base_0xFD5C0000 io1 (0x0044 + of_nat cpu_index * 8)
                    (ucast (drop_bit 32 reset_address)) of
              None \<Rightarrow> None
            | Some io2 \<Rightarrow>
              (case Mmap_write32 base_0xFD1A0000 io2 0x0104 (init_val AND NOT (push_bit cpu_index 0x401)) of
                None \<Rightarrow> None
              | Some io3 \<Rightarrow> Some (io3, None)))))))"

section \<open>Sending an IPI\<close>

fun message_buffer_base :: "IpiChannel \<Rightarrow> u64" where
  "message_buffer_base ch0 = 0xFF990400"
| "message_buffer_base ch1 = 0xFF990000"
| "message_buffer_base ch2 = 0xFF990200"
| "message_buffer_base ch7 = 0xFF990600"
| "message_buffer_base ch8 = 0xFF990800"
| "message_buffer_base ch9 = 0xFF990A00"
| "message_buffer_base ch10 = 0xFF990C00"

text \<open>
  \<open>message_mirror\<close> is an uninitialised array of eight words into which at most 32 bytes of the
  message are copied; \<open>stack\<close> gives the 32 bytes it happens to hold before.
\<close>

definition message_mirror :: "bytes \<Rightarrow> bytes \<Rightarrow> bytes" where
  "message_mirror stack message =
     (let n = min (length message) BUF_SIZE in take n message @ drop n (take BUF_SIZE stack))"

fun mirror_word :: "bytes \<Rightarrow> nat \<Rightarrow> u32" where
  "mirror_word bs i = le_word (take 4 (drop (4 * i) bs))"

fun write_mirror :: "Mmap \<Rightarrow> mmio \<Rightarrow> u64 \<Rightarrow> bytes \<Rightarrow> nat list \<Rightarrow> mmio option" where
  "write_mirror m io buf bs [] = Some io"
| "write_mirror m io buf bs (i # is) =
     (case Mmap_write32 m io (buf - 0xFF990000 + of_nat i * 4) (mirror_word bs i) of
        None \<Rightarrow> None
      | Some io' \<Rightarrow> write_mirror m io' buf bs is)"

definition sendIpiMessage ::
    "os_mmap \<Rightarrow> bytes \<Rightarrow> mmio \<Rightarrow> DomainIndex \<Rightarrow> bytes \<Rightarrow> (mmio \<times> MaybeError) option" where
  "sendIpiMessage mmap stack io domain_index message =
     (case Option.bind (getCpuIndex_manager domain_index) getIpiChannelForCpu of
        None \<Rightarrow> None
      | Some receiver_channel \<Rightarrow>
          let irq_base = getIpiBaseAddress IPI_SRC_BMBOOT_MANAGER;
              base_0xFF990000 = Mmap_new mmap 0x1000 0xFF990000;
              irq_mmap = Mmap_new mmap 0x1000 irq_base in
          (case write_mirror base_0xFF990000 io (message_buffer_base receiver_channel)
                  (message_mirror stack message) [0..<BUF_SIZE div 4] of
             None \<Rightarrow> None
           | Some io1 \<Rightarrow>
               (case Mmap_write32 irq_mmap io1 0 (getIpiPeerMask receiver_channel) of
                  None \<Rightarrow> None
                | Some io2 \<Rightarrow> Some (io2, None))))"

section \<open>Lemmas\<close>

text \<open>The reset register: bits \<open>k\<close> and \<open>k + 10\<close> hold core \<open>k\<close> in reset.\<close>

definition RST_FPD_APU :: u64 where "RST_FPD_APU = 0xFD1A0104"

definition core_in_reset :: "u32 \<Rightarrow> nat \<Rightarrow> bool" where
  "core_in_reset v k \<longleftrightarrow> bit v k \<or> bit v (k + 10)"

lemma bit_0x401: "bit (push_bit k (0x401 :: u32)) n \<longleftrightarrow> n < 32 \<and> (n = k \<or> n = k + 10)"
proof -
  have b: "bit (0x401 :: u32) j \<longleftrightarrow> j = 0 \<or> j = 10" for j
  proof -
    have split: "(0x401 :: u32) = 2 ^ 0 OR 2 ^ 10" by simp
    show ?thesis unfolding split bit_or_iff bit_exp_iff by auto
  qed
  show ?thesis
    unfolding bit_push_bit_iff b by auto
qed

lemma and_0x401:
  assumes "k + 10 < 32"
  shows "v AND push_bit k 0x401 = (0 :: u32) \<longleftrightarrow> \<not> core_in_reset v k"
proof -
  have "core_in_reset v k" if "v AND push_bit k 0x401 \<noteq> 0"
  proof -
    from that obtain n where "bit (v AND push_bit k 0x401) n"
      by (metis bit_0_eq bit_eqI bot_apply bot_bool_def)
    then show "core_in_reset v k"
      by (auto simp: bit_and_iff bit_0x401 core_in_reset_def)
  qed
  moreover have "v AND push_bit k 0x401 \<noteq> 0" if "core_in_reset v k"
  proof -
    from that have "bit (v AND push_bit k 0x401) k \<or> bit (v AND push_bit k 0x401) (k + 10)"
      using assms by (auto simp: core_in_reset_def bit_and_iff bit_0x401)
    then show ?thesis by auto
  qed
  ultimately show ?thesis by blast
qed

lemma cpu_index_bound: "getCpuIndex_manager d = Some k \<Longrightarrow> k \<in> {1, 2, 3}"
  by (cases d) auto

text \<open>The registers of \<open>bootCore\<close> are four different ones.\<close>

definition RVBARADDRL :: "nat \<Rightarrow> u64" where "RVBARADDRL k = 0xFD5C0040 + of_nat k * 8"
definition RVBARADDRH :: "nat \<Rightarrow> u64" where "RVBARADDRH k = 0xFD5C0044 + of_nat k * 8"

lemma isCoreInReset_eq:
  assumes "mmap 0xFD1A0000 0x1000" and "getCpuIndex_manager d = Some k"
  shows "isCoreInReset mmap io d = Some (core_in_reset (mm_read32 io RST_FPD_APU) k)"
proof -
  have "k + 10 < 32" using cpu_index_bound [OF assms(2)] by auto
  then show ?thesis
    using assms and_0x401 [of k] by (simp add: isCoreInReset_def RST_FPD_APU_def Let_def)
qed

lemma bootCore_ok:
  assumes "mmap 0xFD1A0000 0x1000" and "mmap 0xFD5C0000 0x1000"
    and "getCpuIndex_manager d = Some k" and "core_in_reset (mm_read32 io RST_FPD_APU) k"
  shows "bootCore mmap io d addr = Some
    (mm_write32 (mm_write32 (mm_write32 io (RVBARADDRL k) (ucast addr)) (RVBARADDRH k) (ucast (drop_bit 32 addr)))
       RST_FPD_APU (mm_read32 io RST_FPD_APU AND NOT (push_bit k 0x401)), None)"
proof -
  have "k + 10 < 32" using cpu_index_bound [OF assms(3)] by auto
  with assms and_0x401 [of k] show ?thesis
    by (simp add: bootCore_def RST_FPD_APU_def Let_def RVBARADDRL_def RVBARADDRH_def)
qed

lemma bootCore_running:
  assumes "mmap 0xFD1A0000 0x1000" and "mmap 0xFD5C0000 0x1000"
    and "getCpuIndex_manager d = Some k" and "\<not> core_in_reset (mm_read32 io RST_FPD_APU) k"
  shows "bootCore mmap io d addr = Some (io, Some hw_resource_unavailable)"
proof -
  have "k + 10 < 32" using cpu_index_bound [OF assms(3)] by auto
  with assms and_0x401 [of k] show ?thesis
    by (simp add: bootCore_def RST_FPD_APU_def Let_def)
qed

lemma core_in_reset_clear:
  assumes "k < 10" and "j < 10"
  shows "core_in_reset (v AND NOT (push_bit k 0x401)) j \<longleftrightarrow> j \<noteq> k \<and> core_in_reset v j"
  using assms by (auto simp: core_in_reset_def bit_and_iff bit_not_iff bit_0x401)

lemma write_mirror_mapped:
  "write_mirror \<lparr>base = Some p, len = n\<rparr> io buf bs is =
     Some (foldl (\<lambda>io i. mm_write32 io (p + (buf - 0xFF990000 + of_nat i * 4)) (mirror_word bs i)) io is)"
  by (induction "is" arbitrary: io) simp_all

lemma mm_log_foldl:
  "mm_log (foldl (\<lambda>io i. mm_write32 io (f i) (g i)) io is) = mm_log io @ map (\<lambda>i. W32 (f i) (g i)) is"
  by (induction "is" arbitrary: io) simp_all

text \<open>The result of \<open>bootCore\<close> on a core in reset, for its callers.\<close>

lemma bootCore_outcome:
  assumes "mmap 0xFD1A0000 0x1000" and "mmap 0xFD5C0000 0x1000"
    and "getCpuIndex_manager d = Some k" and "core_in_reset (mm_read32 io RST_FPD_APU) k"
  shows "\<exists>io'. bootCore mmap io d addr = Some (io', None) \<and> isCoreInReset mmap io' d = Some False"
proof -
  have "k < 10" using cpu_index_bound [OF assms(3)] by auto
  then show ?thesis
    using bootCore_ok [of mmap d k io addr] isCoreInReset_eq [of mmap d k, OF assms(1,3)] assms
    by (simp add: core_in_reset_clear)
qed

text \<open>The result of \<open>sendIpiMessage\<close> when both mappings succeed, for its callers.\<close>

lemma sendIpiMessage_ok:
  assumes "mmap 0xFF990000 0x1000" and "mmap 0xFF300000 0x1000"
    and "getCpuIndex_manager d = Some k" and "getIpiChannelForCpu k = Some ch"
  shows "\<exists>io'. sendIpiMessage mmap stack io d message = Some (io', None) \<and>
    mm_log io' = mm_log io @
      map (\<lambda>i. W32 (message_buffer_base ch + of_nat i * 4) (mirror_word (message_mirror stack message) i)) [0..<8] @
      [W32 (IPI_TRIG IPI_SRC_BMBOOT_MANAGER) (getIpiPeerMask ch)]"
proof -
  have "IPI_TRIG IPI_SRC_BMBOOT_MANAGER = 0xFF300000"
    by (simp add: IPI_TRIG_def getIpi_member_def IPI_SRC_BMBOOT_MANAGER_def IPIPSU_layout_def layout_defs)
  then show ?thesis
    using assms
    by (simp add: sendIpiMessage_def IPI_SRC_BMBOOT_MANAGER_def Let_def write_mirror_mapped mm_log_foldl
        BUF_SIZE_def)
qed

section \<open>Properties\<close>

text \<open>
  Booting a core that is held in reset. \<open>bootCore\<close> performs exactly three register writes in this
  order: the low and the high half of the reset vector of that core, then the release of the
  reset. Afterwards that core is no longer in reset, every other core's reset bits are as before,
  and a second boot is refused with \<open>hw_resource_unavailable\<close> without any access.
\<close>

lemma bootCore_releases_core:
  assumes "mmap 0xFD1A0000 0x1000" and "mmap 0xFD5C0000 0x1000"
    and "getCpuIndex_manager d = Some k" and "core_in_reset (mm_read32 io RST_FPD_APU) k"
  shows "\<exists>io' v. bootCore mmap io d addr = Some (io', None) \<and>
    mm_log io' = mm_log io @ [W32 (RVBARADDRL k) (ucast addr),
      W32 (RVBARADDRH k) (ucast (drop_bit 32 addr)), W32 RST_FPD_APU v] \<and>
    isCoreInReset mmap io' d = Some False \<and>
    (\<forall>j < 10. j \<noteq> k \<longrightarrow> core_in_reset (mm_read32 io' RST_FPD_APU) j = core_in_reset (mm_read32 io RST_FPD_APU) j) \<and>
    bootCore mmap io' d addr' = Some (io', Some hw_resource_unavailable)"
proof -
  have k: "k < 10" using cpu_index_bound [OF assms(3)] by auto
  define io' where "io' = mm_write32 (mm_write32 (mm_write32 io (RVBARADDRL k) (ucast addr))
    (RVBARADDRH k) (ucast (drop_bit 32 addr))) RST_FPD_APU (mm_read32 io RST_FPD_APU AND NOT (push_bit k 0x401))"
  have val: "mm_read32 io' RST_FPD_APU = mm_read32 io RST_FPD_APU AND NOT (push_bit k 0x401)"
    by (simp add: io'_def)
  then have off: "\<not> core_in_reset (mm_read32 io' RST_FPD_APU) k"
    using k by (simp add: core_in_reset_clear)
  have "bootCore mmap io d addr = Some (io', None)"
    unfolding io'_def using assms by (rule bootCore_ok)
  moreover have "isCoreInReset mmap io' d = Some False"
    using isCoreInReset_eq [of mmap d k, OF assms(1,3)] off by simp
  moreover have "bootCore mmap io' d addr' = Some (io', Some hw_resource_unavailable)"
    using bootCore_running [of mmap d k, OF assms(1-3) off] .
  moreover have "mm_log io' = mm_log io @ [W32 (RVBARADDRL k) (ucast addr),
      W32 (RVBARADDRH k) (ucast (drop_bit 32 addr)),
      W32 RST_FPD_APU (mm_read32 io RST_FPD_APU AND NOT (push_bit k 0x401))]"
    by (simp add: io'_def)
  ultimately show ?thesis
    using k by (auto simp: val core_in_reset_clear)
qed

text \<open>
  An inter-processor interrupt reaches the intended core only: when the mappings succeed,
  \<open>sendIpiMessage\<close> fills the eight words of the receiver's message buffer and then triggers, as its
  last access, with the mask of the receiver's channel; the masks of two different channels have no
  bit in common.
\<close>

lemma sendIpiMessage_trace:
  assumes "mmap 0xFF990000 0x1000" and "mmap 0xFF300000 0x1000"
    and "getCpuIndex_manager d = Some k" and "getIpiChannelForCpu k = Some ch"
  shows "\<exists>io'. sendIpiMessage mmap stack io d message = Some (io', None) \<and>
    mm_log io' = mm_log io @
      map (\<lambda>i. W32 (message_buffer_base ch + of_nat i * 4) (mirror_word (message_mirror stack message) i)) [0..<8] @
      [W32 (IPI_TRIG IPI_SRC_BMBOOT_MANAGER) (getIpiPeerMask ch)] \<and>
    (\<forall>c'. c' \<noteq> ch \<longrightarrow> getIpiPeerMask c' AND getIpiPeerMask ch = 0)"
proof -
  have "getIpiPeerMask c' AND getIpiPeerMask ch = 0" if "c' \<noteq> ch" for c'
    using that by (cases c'; cases ch) simp_all
  with sendIpiMessage_ok [of mmap, OF assms] show ?thesis by simp
qed

text \<open>
  \<open>sendIpiMessage\<close> does not check its mappings: when the operating system refuses the
  message-buffer mapping, the first store goes through a null pointer (a fault of the manager),
  instead of an error code being returned.
\<close>

lemma sendIpiMessage_unchecked_mmap:
  assumes "\<not> mmap 0xFF990000 0x1000"
  shows "sendIpiMessage mmap stack io d message = None"
proof -
  have "[0..<8] = 0 # [1..<8]" by (simp add: upt_conv_Cons)
  with assms show ?thesis
    by (auto simp: sendIpiMessage_def Let_def BUF_SIZE_def simp del: upt_Suc split: option.splits)
qed

end
