(* ===== verification/Interrupt_Controller.thy ===== *)
theory Interrupt_Controller
  imports Gicv2 Zynqmp
begin

text \<open>
  The monitor's use of the interrupt controller,
  \<open>src/platform/zynqmp/executor/monitor/interrupt_controller.cpp\<close> with the declarations of
  \<open>platform_interrupt_controller.hpp\<close> and \<open>armv8a.hpp\<close>. The state is the device (\<open>gic_io\<close>), the static
  table \<open>interrupt_routed_to_el1\<close> and the CPU's \<open>DAIF\<close> register. What the distributor does with the
  accesses is not code of the repository: it is the locale \<open>gicd_device\<close>, whose laws are the
  set-enable/clear-enable, clear-pending and clear-active rules of the GICv2 architecture.
\<close>

section \<open>State and constants\<close>

datatype InterruptGroup = group0_fiq_el3 | group1_irq_el1

datatype InterruptTrigger = unchanged | level | edge

text \<open>\<open>MonitorInterruptPriority\<close> is used through its integer values.\<close>

definition m7_max :: int where "m7_max = 0x00"
definition payloadMinPriorityValue :: int where "payloadMinPriorityValue = 0x80"
definition payloadMaxPriorityValue :: int where "payloadMaxPriorityValue = 0xF0"

definition DAIF_F_MASK :: u64 where "DAIF_F_MASK = push_bit 6 1"
definition DAIF_I_MASK :: u64 where "DAIF_I_MASK = push_bit 7 1"

record gic_ctl =
  gic_io :: mmio
  interrupt_routed_to_el1 :: "bool list"
  DAIF :: u64

definition routed_size :: nat where
  "routed_size = nat (GIC_MAX_USER_INTERRUPT_ID + 1 - GIC_MIN_USER_INTERRUPT_ID)"

definition wf_ctl :: "gic_ctl \<Rightarrow> bool" where
  "wf_ctl c \<longleftrightarrow> length (interrupt_routed_to_el1 c) = routed_size"

section \<open>Operations\<close>

definition gic_write :: "gic_ctl \<Rightarrow> u64 \<Rightarrow> u32 \<Rightarrow> gic_ctl" where
  "gic_write c a v = c\<lparr>gic_io := mm_write32 (gic_io c) a v\<rparr>"

text \<open>Run an operation of the distributor; \<open>None\<close> is passed on.\<close>

definition gicd_op :: "(mmio \<Rightarrow> int \<Rightarrow> mmio option) \<Rightarrow> gic_ctl \<Rightarrow> int \<Rightarrow> gic_ctl option" where
  "gicd_op f c i = map_option (\<lambda>m. c\<lparr>gic_io := m\<rparr>) (f (gic_io c) i)"

definition enableCpuInterrupts :: "gic_ctl \<Rightarrow> gic_ctl" where
  "enableCpuInterrupts c =
     (let c1 = gic_write c GICC_BPR 0x03;
          c2 = gic_write c1 GICC_PMR 0xFF;
          c3 = gic_write c2 GICC_CTRL (CTRL_FIQEn OR CTRL_AckCtl OR CTRL_EnableGrp1 OR CTRL_EnableGrp0)
      in c3\<lparr>DAIF := DAIF c3 AND NOT DAIF_I_MASK AND NOT DAIF_F_MASK\<rparr>)"

definition enableIpiReception :: "gic_ctl \<Rightarrow> IpiChannel \<Rightarrow> IpiChannel \<Rightarrow> gic_ctl" where
  "enableIpiReception c src_channel dst_channel =
     (let c1 = gic_write c (IPI_ISR dst_channel) (getIpiPeerMask src_channel)
      in gic_write c1 (IPI_IER dst_channel) (getIpiPeerMask src_channel))"

text \<open>
  \<open>flushICache\<close> masks interrupts around the invalidation and restores the mask it saved in a 32-bit
  variable; its lasting effect on the modelled state is on \<open>DAIF\<close> only.
\<close>

definition flushICache :: "gic_ctl \<Rightarrow> gic_ctl" where
  "flushICache c =
     (let currmask = ucast (DAIF c) :: u32;
          c1 = c\<lparr>DAIF := ucast currmask OR DAIF_F_MASK OR DAIF_I_MASK\<rparr>
      in c1\<lparr>DAIF := ucast currmask\<rparr>)"

definition setGroupForInterruptChannel :: "gic_ctl \<Rightarrow> int \<Rightarrow> InterruptGroup \<Rightarrow> gic_ctl option" where
  "setGroupForInterruptChannel c int_id g =
     (case (if g = group0_fiq_el3 then gicd_op (\<lambda>m i. setGroup m i 0) c int_id
            else gicd_op (\<lambda>m i. setGroup m i 1) c int_id) of
        None \<Rightarrow> None
      | Some c1 \<Rightarrow>
          Some (if GIC_MIN_USER_INTERRUPT_ID \<le> int_id \<and> int_id \<le> GIC_MAX_USER_INTERRUPT_ID
                then c1\<lparr>interrupt_routed_to_el1 :=
                       (interrupt_routed_to_el1 c1)[nat (int_id - GIC_MIN_USER_INTERRUPT_ID) := (g = group1_irq_el1)]\<rparr>
                else c1))"

definition gic_write8 :: "gic_ctl \<Rightarrow> u64 \<Rightarrow> u8 \<Rightarrow> gic_ctl" where
  "gic_write8 c a v = c\<lparr>gic_io := mm_write8 (gic_io c) a v\<rparr>"

definition configurePrivatePeripheralInterrupt ::
    "gic_ctl \<Rightarrow> int \<Rightarrow> InterruptGroup \<Rightarrow> int \<Rightarrow> gic_ctl option" where
  "configurePrivatePeripheralInterrupt c ch g priority =
     (case setGroupForInterruptChannel c ch g of
        None \<Rightarrow> None
      | Some c1 \<Rightarrow> Some (gic_write8 c1 (GICD_IPRIORITYRn ch) (word_of_int priority)))"

definition configureSharedPeripheralInterruptAndRouteToCpu ::
    "gic_ctl \<Rightarrow> int \<Rightarrow> InterruptTrigger \<Rightarrow> nat \<Rightarrow> InterruptGroup \<Rightarrow> int \<Rightarrow> gic_ctl option" where
  "configureSharedPeripheralInterruptAndRouteToCpu c ch trigger target_cpu g priority =
     (case setGroupForInterruptChannel c ch g of
        None \<Rightarrow> None
      | Some c1 \<Rightarrow>
          let c2 = gic_write8 c1 (GICD_IPRIORITYRn ch) (word_of_int priority);
              c3 = gic_write8 c2 (GICD_ITARGETSRn ch) (push_bit target_cpu 1) in
          (if trigger = level then gicd_op setTriggerLevel c3 ch
           else if trigger = edge then gicd_op setTriggerEdge c3 ch
           else Some c3))"

definition disableInterrupt :: "gic_ctl \<Rightarrow> int \<Rightarrow> gic_ctl option" where
  "disableInterrupt c interrupt_id = gicd_op clearEnable c interrupt_id"

definition enableInterrupt :: "gic_ctl \<Rightarrow> int \<Rightarrow> gic_ctl option" where
  "enableInterrupt c interrupt_id =
     Option.bind (gicd_op clearPending c interrupt_id) (\<lambda>c1.
     Option.bind (gicd_op clearActive c1 interrupt_id) (\<lambda>c2.
     gicd_op setEnable c2 interrupt_id))"

text \<open>The loop of \<open>teardownEl1Interrupts\<close> over the interrupt IDs that are left.\<close>

fun teardown_loop :: "gic_ctl \<Rightarrow> nat list \<Rightarrow> gic_ctl option" where
  "teardown_loop c [] = Some c"
| "teardown_loop c (int_id # ids) =
     (if interrupt_routed_to_el1 c ! (int_id - nat GIC_MIN_USER_INTERRUPT_ID)
      then (case disableInterrupt c (int int_id) of
              None \<Rightarrow> None
            | Some c1 \<Rightarrow>
                teardown_loop
                  (c1\<lparr>interrupt_routed_to_el1 := (interrupt_routed_to_el1 c1)
                       [int_id - nat GIC_MIN_USER_INTERRUPT_ID := False]\<rparr>) ids)
      else teardown_loop c ids)"

definition teardownEl1Interrupts :: "gic_ctl \<Rightarrow> gic_ctl option" where
  "teardownEl1Interrupts c =
     (case disableInterrupt c CNTPNS_INTERRUPT_ID of
        None \<Rightarrow> None
      | Some c1 \<Rightarrow>
          teardown_loop (gic_write c1 GICC_NSAPR0 0)
            [nat GIC_MIN_USER_INTERRUPT_ID..<Suc (nat GIC_MAX_USER_INTERRUPT_ID)])"

text \<open>\<open>setupInterrupts\<close> on the core with the given index; \<open>None\<close> also for the \<open>abort()\<close> of an unknown core.\<close>

definition setupInterrupts :: "nat \<Rightarrow> gic_ctl \<Rightarrow> gic_ctl option" where
  "setupInterrupts cpu_index c0 =
     (let c = enableCpuInterrupts c0 in
      case getIpiChannelForCpu cpu_index of
        None \<Rightarrow> None
      | Some my_ipi_channel \<Rightarrow>
          let ipi_interrupt_id = getInterruptIdForIpi my_ipi_channel in
          (case configureSharedPeripheralInterruptAndRouteToCpu c ipi_interrupt_id unchanged cpu_index
                  group0_fiq_el3 m7_max of
             None \<Rightarrow> None
           | Some c1 \<Rightarrow>
               (case enableInterrupt c1 ipi_interrupt_id of
                  None \<Rightarrow> None
                | Some c2 \<Rightarrow> Some (enableIpiReception c2 IPI_SRC_BMBOOT_MANAGER my_ipi_channel))))"

section \<open>The accesses of each operation\<close>

lemma min_id [simp]: "nat GIC_MIN_USER_INTERRUPT_ID = 0"
  by (simp add: GIC_MIN_USER_INTERRUPT_ID_def)

lemma int_reg_bit [simp]: "int i div 32 = int (i div 32)" "nat (int i mod 32) = i mod 32"
  by (simp_all add: zdiv_int nat_mod_distrib)

lemma disableInterrupt_eq:
  "0 \<le> i \<Longrightarrow> disableInterrupt c i = Some (gic_write c (GICD_ICENABLERn (i div 32)) (2 ^ nat (i mod 32)))"
  by (simp add: disableInterrupt_def gicd_op_def clearEnable_def gic_write_def)

lemma enableInterrupt_eq:
  "0 \<le> i \<Longrightarrow> enableInterrupt c i =
     Some (gic_write (gic_write (gic_write c (GICD_ICPENDRn (i div 32)) (2 ^ nat (i mod 32)))
       (GICD_ICACTIVERn (i div 32)) (2 ^ nat (i mod 32))) (GICD_ISENABLERn (i div 32)) (2 ^ nat (i mod 32)))"
  by (simp add: enableInterrupt_def gicd_op_def clearPending_def clearActive_def setEnable_def gic_write_def)

lemma gic_write_simps [simp]:
  "mm_log (gic_io (gic_write c a v)) = mm_log (gic_io c) @ [W32 a v]"
  "interrupt_routed_to_el1 (gic_write c a v) = interrupt_routed_to_el1 c"
  "DAIF (gic_write c a v) = DAIF c"
  "mm_log (gic_io (gic_write8 c a w)) = mm_log (gic_io c) @ [W8 a w]"
  "interrupt_routed_to_el1 (gic_write8 c a w) = interrupt_routed_to_el1 c"
  "DAIF (gic_write8 c a w) = DAIF c"
  by (simp_all add: gic_write_def gic_write8_def)

text \<open>The writes of the tear-down loop: a clear-enable for each routed interrupt, in ascending order.\<close>

definition clear_enable_access :: "nat \<Rightarrow> access" where
  "clear_enable_access i = W32 (GICD_ICENABLERn (int i div 32)) (2 ^ nat (int i mod 32))"

lemma teardown_loop_trace:
  assumes "distinct ids" and "\<And>i. i \<in> set ids \<Longrightarrow> i < length (interrupt_routed_to_el1 c)"
  shows "\<exists>c'. teardown_loop c ids = Some c' \<and>
    mm_log (gic_io c') = mm_log (gic_io c) @ map clear_enable_access (filter ((!) (interrupt_routed_to_el1 c)) ids) \<and>
    length (interrupt_routed_to_el1 c') = length (interrupt_routed_to_el1 c) \<and>
    (\<forall>i < length (interrupt_routed_to_el1 c).
       interrupt_routed_to_el1 c' ! i = (i \<notin> set ids \<and> interrupt_routed_to_el1 c ! i)) \<and> DAIF c' = DAIF c"
  using assms
proof (induction ids arbitrary: c)
  case Nil
  then show ?case by simp
next
  case (Cons i ids)
  let ?t = "interrupt_routed_to_el1 c"
  let ?c = "gic_write c (GICD_ICENABLERn (int i div 32)) (2 ^ nat (int i mod 32))"
  let ?d = "?c\<lparr>interrupt_routed_to_el1 := ?t[i := False]\<rparr>"
  have dis: "distinct ids" "i \<notin> set ids" using Cons.prems(1) by auto
  have i: "i < length ?t" using Cons.prems(2) by simp
  show ?case
  proof (cases "?t ! i")
    case False
    have "\<And>j. j \<in> set ids \<Longrightarrow> j < length ?t" using Cons.prems(2) by simp
    from Cons.IH [OF dis(1) this] obtain c' where "teardown_loop c ids = Some c'"
      and "mm_log (gic_io c') = mm_log (gic_io c) @ map clear_enable_access (filter ((!) ?t) ids)"
      and "length (interrupt_routed_to_el1 c') = length ?t"
      and flags: "\<forall>j < length ?t. interrupt_routed_to_el1 c' ! j = (j \<notin> set ids \<and> ?t ! j)" and "DAIF c' = DAIF c"
      by blast
    moreover have "\<forall>j < length ?t. interrupt_routed_to_el1 c' ! j = (j \<notin> set (i # ids) \<and> ?t ! j)"
      using flags False by (metis list.set_intros(2) set_ConsD)
    ultimately show ?thesis using False by (intro exI [of _ c']) simp
  next
    case True
    have "\<And>j. j \<in> set ids \<Longrightarrow> j < length (interrupt_routed_to_el1 ?d)" using Cons.prems(2) by simp
    from Cons.IH [OF dis(1) this] obtain c' where c': "teardown_loop ?d ids = Some c'"
      "mm_log (gic_io c') = mm_log (gic_io ?d) @ map clear_enable_access (filter ((!) (?t[i := False])) ids)"
      "length (interrupt_routed_to_el1 c') = length ?t"
      "\<forall>j < length ?t. interrupt_routed_to_el1 c' ! j = (j \<notin> set ids \<and> ?t[i := False] ! j)"
      "DAIF c' = DAIF c"
      by auto
    have "filter ((!) (?t[i := False])) ids = filter ((!) ?t) ids"
      using dis(2) by (intro filter_cong refl) (metis nth_list_update_neq)
    then have "mm_log (gic_io c') = mm_log (gic_io c) @ map clear_enable_access (filter ((!) ?t) (i # ids))"
      using c'(2) True by (simp add: clear_enable_access_def)
    moreover have "\<forall>j < length ?t. interrupt_routed_to_el1 c' ! j = (j \<notin> set (i # ids) \<and> ?t ! j)"
      using c'(4) i by (auto simp: nth_list_update)
    ultimately show ?thesis
      using c' True by (intro exI [of _ c']) (simp add: disableInterrupt_eq)
  qed
qed

section \<open>The distributor\<close>

text \<open>
  \<open>eff a d\<close> is the device after the access \<open>a\<close>. The laws are those of the architecture: writing 1
  bits to a set-enable (clear-enable) register enables (disables) exactly the interrupts of
  those bits, and accesses to the other registers the monitor uses enable or disable nothing.
\<close>

definition enable_free :: "access \<Rightarrow> bool" where
  "enable_free a = (case a of
      W32 x v \<Rightarrow> (\<forall>n \<in> {0..<32}. x \<noteq> GICD_ISENABLERn n \<and> x \<noteq> GICD_ICENABLERn n)
    | W8 x v \<Rightarrow> (\<exists>n \<in> {0..<1020}. x = GICD_IPRIORITYRn n \<or> x = GICD_ITARGETSRn n))"

locale gicd_device =
  fixes eff :: "access \<Rightarrow> 'd \<Rightarrow> 'd"
    and enabled :: "'d \<Rightarrow> nat \<Rightarrow> bool"
  assumes set_enable: "n < 32 \<Longrightarrow>
      enabled (eff (W32 (GICD_ISENABLERn (int n)) v) d) i \<longleftrightarrow> enabled d i \<or> (i div 32 = n \<and> bit v (i mod 32))"
    and clear_enable: "n < 32 \<Longrightarrow>
      enabled (eff (W32 (GICD_ICENABLERn (int n)) v) d) i \<longleftrightarrow> enabled d i \<and> \<not> (i div 32 = n \<and> bit v (i mod 32))"
    and other_access: "enable_free a \<Longrightarrow> enabled (eff a d) i \<longleftrightarrow> enabled d i"
begin

lemma id_bit: "i < 1024 \<Longrightarrow> (j div 32 = i div 32 \<and> bit (2 ^ (i mod 32) :: u32) (j mod 32)) \<longleftrightarrow> j = i"
  by (auto simp: bit_exp_u32) (metis div_mult_mod_eq)

lemma clear_enable_one:
  "i < 1024 \<Longrightarrow> enabled (eff (clear_enable_access i) d) j \<longleftrightarrow> enabled d j \<and> j \<noteq> i"
  using clear_enable [of "i div 32" "2 ^ (i mod 32)" d j] id_bit [of i j]
  by (simp add: clear_enable_access_def less_mult_imp_div_less)

lemma set_enable_one:
  "i < 1024 \<Longrightarrow> enabled (eff (W32 (GICD_ISENABLERn (int i div 32)) (2 ^ nat (int i mod 32))) d) j \<longleftrightarrow>
     enabled d j \<or> j = i"
  using set_enable [of "i div 32" "2 ^ (i mod 32)" d j] id_bit [of i j]
  by (simp add: less_mult_imp_div_less)

lemma clear_enable_many:
  "(\<And>i. i \<in> set ids \<Longrightarrow> i < 1024) \<Longrightarrow>
   enabled (fold eff (map clear_enable_access ids) d) j \<longleftrightarrow> enabled d j \<and> j \<notin> set ids"
  by (induction ids arbitrary: d) (auto simp: clear_enable_one)

lemma enable_free_many:
  "list_all enable_free acs \<Longrightarrow> enabled (fold eff acs d) j \<longleftrightarrow> enabled d j"
  by (induction acs arbitrary: d) (auto simp: other_access)

end

text \<open>A register-level distributor that obeys the laws, executable, for concrete instances.\<close>

definition gicd_hw_apply :: "access \<Rightarrow> (nat \<Rightarrow> bool) \<Rightarrow> nat \<Rightarrow> bool" where
  "gicd_hw_apply a d i = (case a of
      W32 x v \<Rightarrow>
        (if i < 1024 \<and> x = GICD_ISENABLERn (int (i div 32)) then d i \<or> bit v (i mod 32)
         else if i < 1024 \<and> x = GICD_ICENABLERn (int (i div 32)) then d i \<and> \<not> bit v (i mod 32)
         else d i)
    | W8 x v \<Rightarrow> d i)"

interpretation gicd_hw: gicd_device gicd_hw_apply "\<lambda>d. d"
proof unfold_locales
  fix n i :: nat and v d
  assume n: "n < 32"
  have div32: "i div 32 < 32" if "i < 1024" using that by (simp add: less_mult_imp_div_less)
  show "gicd_hw_apply (W32 (GICD_ISENABLERn (int n)) v) d i \<longleftrightarrow> d i \<or> (i div 32 = n \<and> bit v (i mod 32))"
    using n div32 bank_address_cases [of "int n" "int (i div 32)"]
    by (cases "i < 1024") (auto simp: gicd_hw_apply_def)
  show "gicd_hw_apply (W32 (GICD_ICENABLERn (int n)) v) d i \<longleftrightarrow> d i \<and> \<not> (i div 32 = n \<and> bit v (i mod 32))"
    using n div32 bank_address_cases [of "int n" "int (i div 32)"]
    by (cases "i < 1024") (auto simp: gicd_hw_apply_def)
next
  fix a d and i :: nat
  assume "enable_free a"
  moreover have "int (i div 32) \<in> {0..<32}" if "i < 1024"
    using that by (simp add: less_mult_imp_div_less)
  ultimately show "gicd_hw_apply a d i \<longleftrightarrow> d i"
    by (auto simp: gicd_hw_apply_def enable_free_def split: access.splits)
qed

section \<open>Accesses that leave the enable bits alone\<close>

lemma enable_free_W32I:
  assumes "uint x < 0xF9010100 \<or> 0xF9010200 \<le> uint x"
  shows "enable_free (W32 x v)"
proof -
  have "x \<noteq> GICD_ISENABLERn n \<and> x \<noteq> GICD_ICENABLERn n" if "n \<in> {0..<32}" for n
    using uint_bank(2,3) [of n] that assms by auto
  then show ?thesis by (simp add: enable_free_def)
qed

lemma enable_free_regs [simp]:
  "enable_free (W32 GICC_NSAPR0 v)" "enable_free (W32 GICC_EOIR v)" "enable_free (W32 GICC_BPR v)"
  "enable_free (W32 GICC_PMR v)" "enable_free (W32 GICC_CTRL v)"
  "enable_free (W32 (IPI_ISR ch) v)" "enable_free (W32 (IPI_IER ch) v)"
  by (simp_all add: enable_free_W32I GICC_addresses)
    (cases ch; simp add: enable_free_W32I IPI_ISR_def IPI_IER_def getIpi_member_def IPIPSU_layout_def layout_defs)+

lemma enable_free_gicd [simp]:
  "0 \<le> n \<Longrightarrow> n < 32 \<Longrightarrow> enable_free (W32 (GICD_IGROUPRn n) v)"
  "0 \<le> n \<Longrightarrow> n < 32 \<Longrightarrow> enable_free (W32 (GICD_ICPENDRn n) v)"
  "0 \<le> n \<Longrightarrow> n < 32 \<Longrightarrow> enable_free (W32 (GICD_ICACTIVERn n) v)"
  "0 \<le> n \<Longrightarrow> n < 64 \<Longrightarrow> enable_free (W32 (GICD_ICFGRn n) v)"
  by (rule enable_free_W32I, simp add: uint_bank)+

lemma enable_free_bytes [simp]:
  "0 \<le> n \<Longrightarrow> n < 1020 \<Longrightarrow> enable_free (W8 (GICD_IPRIORITYRn n) b)"
  "0 \<le> n \<Longrightarrow> n < 1020 \<Longrightarrow> enable_free (W8 (GICD_ITARGETSRn n) b)"
  by (auto simp: enable_free_def)

section \<open>Configuration\<close>

lemma setGroupForInterruptChannel_eq:
  assumes "0 \<le> i"
  shows "\<exists>v. setGroupForInterruptChannel c i g = Some
    ((gic_write c (GICD_IGROUPRn (i div 32)) v)\<lparr>interrupt_routed_to_el1 :=
       (if i < 188 then (interrupt_routed_to_el1 c)[nat i := (g = group1_irq_el1)] else interrupt_routed_to_el1 c)\<rparr>)"
  using assms by (cases g)
    (auto simp: setGroupForInterruptChannel_def gicd_op_def setGroup_eq gic_write_def
      GIC_MIN_USER_INTERRUPT_ID_def GIC_MAX_USER_INTERRUPT_ID_def)

text \<open>Configuration enables nothing and records the interrupt in the routing table.\<close>

lemma configure_private_trace:
  assumes "0 \<le> i" and "i < 188"
  shows "\<exists>c' v. configurePrivatePeripheralInterrupt c i group1_irq_el1 p = Some c' \<and>
    mm_log (gic_io c') = mm_log (gic_io c) @
      [W32 (GICD_IGROUPRn (i div 32)) v, W8 (GICD_IPRIORITYRn i) (word_of_int p)] \<and>
    interrupt_routed_to_el1 c' = (interrupt_routed_to_el1 c)[nat i := True]"
proof -
  obtain v where "setGroupForInterruptChannel c i group1_irq_el1 = Some
      ((gic_write c (GICD_IGROUPRn (i div 32)) v)\<lparr>interrupt_routed_to_el1 := (interrupt_routed_to_el1 c)[nat i := True]\<rparr>)"
    using setGroupForInterruptChannel_eq [OF assms(1), of c group1_irq_el1] assms(2) by auto
  then show ?thesis
    using assms by (simp add: configurePrivatePeripheralInterrupt_def gic_write8_def)
qed

lemma configure_shared_trace:
  assumes "0 \<le> i" and "i < 188"
  shows "\<exists>c' v w. configureSharedPeripheralInterruptAndRouteToCpu c i edge cpu group1_irq_el1 p = Some c' \<and>
    mm_log (gic_io c') = mm_log (gic_io c) @
      [W32 (GICD_IGROUPRn (i div 32)) v, W8 (GICD_IPRIORITYRn i) (word_of_int p),
       W8 (GICD_ITARGETSRn i) (push_bit cpu 1), W32 (GICD_ICFGRn (i div 16)) w] \<and>
    interrupt_routed_to_el1 c' = (interrupt_routed_to_el1 c)[nat i := True]"
proof -
  obtain v where "setGroupForInterruptChannel c i group1_irq_el1 = Some
      ((gic_write c (GICD_IGROUPRn (i div 32)) v)\<lparr>interrupt_routed_to_el1 := (interrupt_routed_to_el1 c)[nat i := True]\<rparr>)"
    using setGroupForInterruptChannel_eq [OF assms(1), of c group1_irq_el1] assms(2) by auto
  then show ?thesis
    using assms
    by (simp add: configureSharedPeripheralInterruptAndRouteToCpu_def gicd_op_def setTriggerEdge_eq gic_write8_def)
qed

text \<open>
  \<open>covered\<close>: everything that is enabled now was enabled at the start (\<open>d0\<close>) or is in the routing table.
\<close>

context gicd_device
begin

definition covered :: "'d \<Rightarrow> gic_ctl \<Rightarrow> 'd \<Rightarrow> bool" where
  "covered d0 c d \<longleftrightarrow> (\<forall>i. enabled d i \<longrightarrow> enabled d0 i \<or> (i < routed_size \<and> interrupt_routed_to_el1 c ! i))"

lemma covered_refl: "covered d c d"
  by (simp add: covered_def)

lemma covered_enable_free:
  "covered d0 c d \<Longrightarrow> list_all enable_free acc \<Longrightarrow>
   (\<And>i. i < routed_size \<Longrightarrow> interrupt_routed_to_el1 c ! i \<Longrightarrow> interrupt_routed_to_el1 c' ! i) \<Longrightarrow>
   covered d0 c' (fold eff acc d)"
  by (auto simp: covered_def enable_free_many)

lemma covered_set_enable:
  assumes "covered d0 c d" and "i < routed_size" and "interrupt_routed_to_el1 c ! i"
  shows "covered d0 c (eff (W32 (GICD_ISENABLERn (int i div 32)) (2 ^ nat (int i mod 32))) d)"
proof -
  have "i < 1024" using assms(2)
    by (simp add: routed_size_def GIC_MIN_USER_INTERRUPT_ID_def GIC_MAX_USER_INTERRUPT_ID_def)
  from set_enable_one [OF this] show ?thesis
    using assms by (auto simp: covered_def)
qed

lemma covered_clear_enable:
  "covered d0 c d \<Longrightarrow> i < 1024 \<Longrightarrow> covered d0 c (eff (clear_enable_access i) d)"
  by (auto simp: covered_def clear_enable_one)

end

section \<open>Properties\<close>

lemma routed_size [simp]: "routed_size = 188"
  by (simp add: routed_size_def GIC_MIN_USER_INTERRUPT_ID_def GIC_MAX_USER_INTERRUPT_ID_def)

lemma teardown_trace:
  assumes "wf_ctl c"
  shows "\<exists>c'. teardownEl1Interrupts c = Some c' \<and>
    mm_log (gic_io c') = mm_log (gic_io c) @ [clear_enable_access 30, W32 GICC_NSAPR0 0] @
      map clear_enable_access (filter ((!) (interrupt_routed_to_el1 c)) [0..<188]) \<and>
    interrupt_routed_to_el1 c' = replicate 188 False \<and> DAIF c' = DAIF c"
proof -
  let ?c = "gic_write (gic_write c (GICD_ICENABLERn 0) (2 ^ 30)) GICC_NSAPR0 0"
  have len: "length (interrupt_routed_to_el1 c) = 188" using assms by (simp add: wf_ctl_def)
  obtain c' where c': "teardown_loop ?c [0..<188] = Some c'"
    "mm_log (gic_io c') = mm_log (gic_io ?c) @ map clear_enable_access (filter ((!) (interrupt_routed_to_el1 c)) [0..<188])"
    "length (interrupt_routed_to_el1 c') = 188" "\<forall>i < 188. \<not> interrupt_routed_to_el1 c' ! i" "DAIF c' = DAIF c"
    using teardown_loop_trace [of "[0..<188]" ?c] len by auto
  have "teardownEl1Interrupts c = Some c'"
    using c'(1) by (simp add: teardownEl1Interrupts_def disableInterrupt_eq CNTPNS_INTERRUPT_ID_def
        GIC_MAX_USER_INTERRUPT_ID_def del: upt_Suc)
  moreover have "interrupt_routed_to_el1 c' = replicate 188 False"
    using c'(3,4) by (auto intro: nth_equalityI)
  ultimately show ?thesis
    using c'(2,5) by (auto simp: clear_enable_access_def)
qed

context gicd_device
begin

lemma teardown_device:
  assumes "wf_ctl c"
  shows "\<exists>c' acc. teardownEl1Interrupts c = Some c' \<and> mm_log (gic_io c') = mm_log (gic_io c) @ acc \<and>
    interrupt_routed_to_el1 c' = replicate 188 False \<and> DAIF c' = DAIF c \<and>
    (\<forall>d i. enabled (fold eff acc d) i \<longleftrightarrow>
       enabled d i \<and> i \<noteq> 30 \<and> \<not> (i < 188 \<and> interrupt_routed_to_el1 c ! i))"
proof -
  let ?ids = "filter ((!) (interrupt_routed_to_el1 c)) [0..<188]"
  let ?acc = "[clear_enable_access 30, W32 GICC_NSAPR0 0] @ map clear_enable_access ?ids"
  have "enabled (fold eff ?acc d) i \<longleftrightarrow>
      enabled d i \<and> i \<noteq> 30 \<and> \<not> (i < 188 \<and> interrupt_routed_to_el1 c ! i)" for d i
    using clear_enable_many [of ?ids "eff (W32 GICC_NSAPR0 0) (eff (clear_enable_access 30) d)" i]
    by (auto simp: clear_enable_one other_access)
  with teardown_trace [OF assms] show ?thesis by blast
qed

end

text \<open>
  C28: \<open>teardownEl1Interrupts\<close> always completes and leaves exactly the right interrupts enabled: on any
  distributor that obeys the architecture, an interrupt is enabled afterwards if and only if it was
  enabled before, is not the non-secure timer interrupt (30) and was not routed to EL1. The
  routing table is empty afterwards.
\<close>

theorem teardown_disables_routed:
  assumes "gicd_device eff enabled" and "wf_ctl c"
  shows "\<exists>c' acc. teardownEl1Interrupts c = Some c' \<and> mm_log (gic_io c') = mm_log (gic_io c) @ acc \<and>
    interrupt_routed_to_el1 c' = replicate 188 False \<and> DAIF c' = DAIF c \<and>
    (\<forall>d i. enabled (fold eff acc d) i \<longleftrightarrow>
       enabled d i \<and> i \<noteq> 30 \<and> \<not> (i < 188 \<and> interrupt_routed_to_el1 c ! i))"
  using assms by (rule gicd_device.teardown_device)

theorem teardown_disables_routed_witness:
  "let c = \<lparr>gic_io = \<lparr>mm_regs = (\<lambda>_. 0), mm_log = []\<rparr>, interrupt_routed_to_el1 = (replicate 188 False)[121 := True],
            DAIF = 0\<rparr>
   in \<exists>c' acc. teardownEl1Interrupts c = Some c' \<and> mm_log (gic_io c') = acc \<and>
        interrupt_routed_to_el1 c' = replicate 188 False \<and>
        \<not> fold gicd_hw_apply acc (\<lambda>i. i \<in> {67, 121}) 121 \<and> fold gicd_hw_apply acc (\<lambda>i. i \<in> {67, 121}) 67"
  using teardown_disables_routed [OF gicd_hw.gicd_device_axioms,
    of "\<lparr>gic_io = \<lparr>mm_regs = (\<lambda>_. 0), mm_log = []\<rparr>, interrupt_routed_to_el1 = (replicate 188 False)[121 := True],
         DAIF = 0\<rparr>"]
  by (auto simp: wf_ctl_def Let_def nth_list_update)

lemma setGroupForInterruptChannel_fiq:
  assumes "0 \<le> i" and "i < 188"
  shows "setGroupForInterruptChannel c i group0_fiq_el3 = Some
    ((gic_write c (GICD_IGROUPRn (i div 32)) (mm_read32 (gic_io c) (GICD_IGROUPRn (i div 32)) AND NOT (2 ^ nat (i mod 32))))
      \<lparr>interrupt_routed_to_el1 := (interrupt_routed_to_el1 c)[nat i := False]\<rparr>)"
  using assms by (simp add: setGroupForInterruptChannel_def gicd_op_def setGroup_eq gic_write_def
      GIC_MIN_USER_INTERRUPT_ID_def GIC_MAX_USER_INTERRUPT_ID_def)

text \<open>
  \<open>setupInterrupts\<close> on a core with an IPI channel performs exactly these accesses, in this order:
  the CPU interface is set up (binary point 3, all priorities, both groups), the channel's interrupt
  is put into group 0 with the highest priority and targeted at this core only, its pending and
  active states are cleared before it is enabled, and the manager's request bit is cleared before
  it is enabled. The interrupt is not marked as routed to EL1, and IRQ and FIQ are unmasked.
\<close>

lemma setupInterrupts_accesses:
  assumes "getIpiChannelForCpu cpu = Some ch"
  shows "\<exists>c'. setupInterrupts cpu c = Some c' \<and>
    (let i = getInterruptIdForIpi ch; n = i div 32; b = 2 ^ nat (i mod 32) in
     mm_log (gic_io c') = mm_log (gic_io c) @
       [W32 GICC_BPR 3, W32 GICC_PMR 0xFF, W32 GICC_CTRL 0xF,
        W32 (GICD_IGROUPRn n) (mm_read32 (gic_io c) (GICD_IGROUPRn n) AND NOT b),
        W8 (GICD_IPRIORITYRn i) 0, W8 (GICD_ITARGETSRn i) (push_bit cpu 1),
        W32 (GICD_ICPENDRn n) b, W32 (GICD_ICACTIVERn n) b, W32 (GICD_ISENABLERn n) b,
        W32 (IPI_ISR ch) 1, W32 (IPI_IER ch) 1] \<and>
     interrupt_routed_to_el1 c' = (interrupt_routed_to_el1 c)[nat i := False] \<and>
     DAIF c' = DAIF c AND NOT 0xC0)"
proof -
  have i: "0 \<le> getInterruptIdForIpi ch" "getInterruptIdForIpi ch < 188" by (cases ch; simp)+
  have regs: "GICD_IGROUPRn (getInterruptIdForIpi ch div 32) \<notin> {GICC_BPR, GICC_PMR, GICC_CTRL}"
    by (cases ch) (simp_all add: GICC_addresses GICD_addresses)
  have daif: "DAIF c AND NOT DAIF_I_MASK AND NOT DAIF_F_MASK = DAIF c AND NOT 0xC0"
    by (simp add: DAIF_I_MASK_def DAIF_F_MASK_def and.assoc)
  have ctrl: "CTRL_FIQEn OR CTRL_AckCtl OR CTRL_EnableGrp1 OR CTRL_EnableGrp0 = 0xF"
    by (simp add: CTRL_FIQEn_def CTRL_AckCtl_def CTRL_EnableGrp1_def CTRL_EnableGrp0_def)
  show ?thesis
    using assms i regs
    by (simp add: setupInterrupts_def enableCpuInterrupts_def Let_def enableInterrupt_eq enableIpiReception_def
        configureSharedPeripheralInterruptAndRouteToCpu_def setGroupForInterruptChannel_fiq m7_max_def
        IPI_SRC_BMBOOT_MANAGER_def daif ctrl gic_write_def gic_write8_def)
qed

end
