(* ===== verification/Monitor.thy ===== *)
theory Monitor
  imports Payload_Image Stdout_Channel Interrupt_Controller
begin

text \<open>
  The monitor: its main loop (\<open>src/executor/monitor/monitor.cpp\<close>), the services it offers to the payload
  (\<open>smc_handlers.cpp\<close>) and its exception vectors (\<open>src/platform/zynqmp/executor/monitor/vectors_el3.cpp\<close>).
  The state is the core's IPC block, physical memory, the interrupt controller state and the
  \<open>CNTFRQ_EL0\<close> register; the core's index, \<open>CurrentEL\<close> and the values read from device registers with
  read side effects are arguments. Loops that never end and jumps that never return are outcomes.
\<close>

section \<open>State and outcomes\<close>

datatype CrashingEntity = entity_monitor | entity_payload

record mon_state =
  ipc :: IpcBlock
  phys_mem :: memory
  ctl :: gic_ctl
  CNTFRQ_EL0 :: u64

text \<open>
  \<open>Resume\<close>: the handler returns to the interrupted code with the given registers; \<open>Reboot\<close>: it jumps
  to \<open>_boot\<close>; \<open>Hang\<close>: it ends in \<open>for (;;) {}\<close>; \<open>Undefined\<close>: the C++ behaviour is undefined or the
  core aborts.
\<close>

datatype el3_outcome = Resume mon_state Aarch64_Regs | Reboot mon_state | Hang mon_state | Undefined

text \<open>
  One pass of the main loop: it goes on, or leaves for the payload at an address, or for
  \<open>dummy_payload\<close>. \<open>enterEL1Payload\<close> ends in \<open>eret\<close> and never comes back.
\<close>

datatype main_outcome = Loop mon_state | EnterEL1 u64 mon_state | EnterDummy mon_state

section \<open>Crash reports\<close>

definition strncpy :: "bytes \<Rightarrow> nat \<Rightarrow> bytes" where
  "strncpy src n = (let s = takeWhile (\<lambda>b. b \<noteq> 0) (take n src) in s @ replicate (n - length s) 0)"

definition set_state :: "DomainState \<Rightarrow> mon_state \<Rightarrow> mon_state" where
  "set_state st s = s\<lparr>ipc := (ipc s)\<lparr>e2m := (e2m (ipc s))\<lparr>state := raw_state st\<rparr>\<rparr>\<rparr>"

text \<open>\<open>desc\<close> is the memory the description pointer leads to.\<close>

definition reportCrash :: "u64 \<Rightarrow> CrashingEntity \<Rightarrow> bytes \<Rightarrow> u64 \<Rightarrow> mon_state \<Rightarrow> mon_state" where
  "reportCrash currentEL who desc address s =
     (let s1 = s\<lparr>ipc := (ipc s)\<lparr>e2m := (e2m (ipc s))
           \<lparr>fault_pc := address, fault_el := ucast currentEL, fault_desc := strncpy desc sizeof_fault_desc\<rparr>\<rparr>\<rparr>
      in set_state (if who = entity_payload then crashed_payload else crashed_monitor) s1)"

section \<open>SMC services\<close>

definition reportPayloadStarted :: "mon_state \<Rightarrow> mon_state" where
  "reportPayloadStarted s = set_state running_payload s"

definition set_x0 :: "u64 \<Rightarrow> Aarch64_Regs \<Rightarrow> Aarch64_Regs" where
  "set_x0 v r = r\<lparr>regs := (regs r)[0 := v]\<rparr>"

definition resume_ctl :: "mon_state \<Rightarrow> Aarch64_Regs \<Rightarrow> gic_ctl option \<Rightarrow> el3_outcome" where
  "resume_ctl s r c = (case c of None \<Rightarrow> Undefined | Some c' \<Rightarrow> Resume (s\<lparr>ctl := c'\<rparr>) r)"

text \<open>The body of the \<open>SMC_ZYNQMP_GIC_IRQ_CONFIGURE\<close> case.\<close>

definition smc_configure :: "nat \<Rightarrow> gic_ctl \<Rightarrow> int \<Rightarrow> int \<Rightarrow> gic_ctl option" where
  "smc_configure cpu c interruptId requestedPriority =
     (if requestedPriority < payloadMinPriorityValue \<or> requestedPriority > payloadMaxPriorityValue then Some c
      else if interruptId \<ge> 16 \<and> interruptId < 32
      then configurePrivatePeripheralInterrupt c interruptId group1_irq_el1 requestedPriority
      else if interruptId \<ge> 32
      then configureSharedPeripheralInterruptAndRouteToCpu c interruptId edge cpu group1_irq_el1 requestedPriority
      else Some c)"

text \<open>
  \<open>handleSmc\<close>. The bytes of \<open>SMC_WRITE_STDOUT\<close> and the description of \<open>SMC_NOTIFY_PAYLOAD_CRASHED\<close> are
  read from physical memory at the address the payload passes; they are taken not to lie in the
  IPC block itself. The byte count is narrowed to \<open>int\<close> and sign-extended on its way into \<open>x0\<close>.
\<close>

definition handleSmc :: "nat \<Rightarrow> u64 \<Rightarrow> mon_state \<Rightarrow> Aarch64_Regs \<Rightarrow> el3_outcome" where
  "handleSmc cpu currentEL s r =
     (let x0 = regs r ! 0; x1 = regs r ! 1; x2 = regs r ! 2 in
      if x0 = SMC_GET_ABI_VERSION then Resume s (set_x0 (push_bit 8 (ucast ABI_MAJOR) OR ucast ABI_MINOR) r)
      else if x0 = SMC_NOTIFY_PAYLOAD_STARTED then Resume (reportPayloadStarted s) r
      else if x0 = SMC_NOTIFY_PAYLOAD_CRASHED
      then Resume (reportCrash currentEL entity_payload (mem_read (phys_mem s) x1 sizeof_fault_desc) x2 s) r
      else if x0 = SMC_WRITE_STDOUT
      then (case writeToStdout (ipc s) (mem_read (phys_mem s) x1 (unat x2)) of
              None \<Rightarrow> Undefined
            | Some (b, wrote) \<Rightarrow> Resume (s\<lparr>ipc := b\<rparr>) (set_x0 (u64_of_int32 (int_of_u64 wrote)) r))
      else if x0 = SMC_ZYNQMP_GIC_IRQ_CONFIGURE
      then resume_ctl s r (smc_configure cpu (ctl s) (int_of_u64 x1) (int_of_u64 x2))
      else if x0 = SMC_ZYNQMP_GIC_IRQ_DISABLE
      then resume_ctl s r (disableInterrupt (ctl s) (int_of_u64 x1))
      else if x0 = SMC_ZYNQMP_GIC_IRQ_ENABLE
      then resume_ctl s r (enableInterrupt (ctl s) (int_of_u64 x1))
      else Hang (reportCrash currentEL entity_monitor (ascii ''Unhandled SMC'') x0 s))"

section \<open>Main loop\<close>

text \<open>The part of \<open>main\<close> before the loop; \<open>None\<close> when the core is none of the three, which aborts.\<close>

definition main_init :: "nat \<Rightarrow> mon_state \<Rightarrow> mon_state option" where
  "main_init cpu s =
     (case getIpcBlock cpu of
        None \<Rightarrow> None
      | Some _ \<Rightarrow>
          (case setupInterrupts cpu (ctl s) of
             None \<Rightarrow> None
           | Some c \<Rightarrow> Some (set_state monitor_ready
                 (s\<lparr>CNTFRQ_EL0 := ucast (cntfrq (m2e (ipc s))), ctl := c\<rparr>))))"

definition DUMMY_PAYLOAD :: u64 where "DUMMY_PAYLOAD = 0xbaadf00d"

definition acknowledge :: "mon_state \<Rightarrow> mon_state" where
  "acknowledge s = s\<lparr>ipc := (ipc s)\<lparr>e2m := (e2m (ipc s))\<lparr>cmd_ack := cmd_ack (e2m (ipc s)) + 1\<rparr>\<rparr>\<rparr>"

definition set_resp :: "Response \<Rightarrow> mon_state \<Rightarrow> mon_state" where
  "set_resp rsp s = s\<lparr>ipc := (ipc s)\<lparr>e2m := (e2m (ipc s))\<lparr>cmd_resp := raw_Response rsp\<rparr>\<rparr>\<rparr>"

definition main_iteration :: "mon_state \<Rightarrow> main_outcome" where
  "main_iteration s =
     (let inbox = m2e (ipc s) in
      if cmd_seq inbox = cmd_ack (e2m (ipc s)) then Loop s
      else if cmd inbox = Command_noop then Loop (acknowledge s)
      else if cmd inbox = Command_start_payload
      then
        let s1 = set_state starting_payload s;
            s2 = s1\<lparr>ctl := flushICache (ctl s1)\<rparr> in
        if payload_entry_address inbox = DUMMY_PAYLOAD then EnterDummy s2
        else
          let resp = validatePayload (phys_mem s2) (payload_entry_address inbox) (payload_size_ipc inbox)
                       (payload_crc inbox);
              s3 = acknowledge (set_resp resp s2) in
          if resp = crc_ok then EnterEL1 (payload_entry_address inbox) s3
          else Loop (set_state monitor_ready s3)
      else Loop s)"

section \<open>EL3 exception vectors\<close>

definition EC_SMC :: u64 where "EC_SMC = 0b010111"

definition dev_write :: "u64 \<Rightarrow> u32 \<Rightarrow> mon_state \<Rightarrow> mon_state" where
  "dev_write a v s = s\<lparr>ctl := gic_write (ctl s) a v\<rparr>"

text \<open>
  \<open>iar\<close> and \<open>isr\<close> are the values read from \<open>GICC->IAR\<close> and from the \<open>ISR\<close> of this core's IPI channel.
\<close>

definition FIQInterrupt :: "nat \<Rightarrow> u64 \<Rightarrow> u32 \<Rightarrow> u32 \<Rightarrow> mon_state \<Rightarrow> el3_outcome" where
  "FIQInterrupt cpu currentEL iar isr s =
     (case getIpiChannelForCpu cpu of
        None \<Rightarrow> Undefined
      | Some my_ipi \<Rightarrow>
          let crash = (\<lambda>s. Hang (dev_write GICC_EOIR iar
                (reportCrash currentEL entity_monitor (ascii ''Monitor FIQInterrupt'') (ucast iar) s))) in
          if uint (iar AND IAR_INTERRUPT_ID_MASK) = getInterruptIdForIpi my_ipi
          then
            let s1 = dev_write GICC_EOIR iar (dev_write (IPI_ISR my_ipi) isr s) in
            if isr AND getIpiPeerMask IPI_SRC_BMBOOT_MANAGER \<noteq> 0
            then (case teardownEl1Interrupts (ctl s1) of
                    None \<Rightarrow> Undefined
                  | Some c \<Rightarrow> Reboot (s1\<lparr>ctl := c\<rparr>))
            else crash s1
          else crash s)"

definition IRQInterrupt :: "u64 \<Rightarrow> u32 \<Rightarrow> mon_state \<Rightarrow> el3_outcome" where
  "IRQInterrupt currentEL iar s =
     Hang (dev_write GICC_EOIR iar
       (reportCrash currentEL entity_monitor (ascii ''Monitor IRQInterrupt'') (ucast iar) s))"

text \<open>
  \<open>saveFpuState\<close> (\<open>src/executor/executor_asm.S\<close>): the vector registers, then \<open>FPSR\<close> and \<open>FPCR\<close> as a
  pair of 64-bit stores, so that the 32-bit fields \<open>fpsr\<close> and \<open>fpcr\<close> receive the two halves of \<open>FPSR\<close>.
\<close>

record fpu =
  Q :: "128 word list"
  FPSR :: u64
  FPCR :: u64

definition saveFpuState :: "fpu \<Rightarrow> Aarch64_FpRegs" where
  "saveFpuState f = \<lparr>vregs = Q f, fpsr = ucast (FPSR f), fpcr = ucast (drop_bit 32 (FPSR f))\<rparr>"

definition save_cpu :: "fpu \<Rightarrow> Aarch64_Regs \<Rightarrow> mon_state \<Rightarrow> mon_state" where
  "save_cpu f r s =
     s\<lparr>ipc := (ipc s)\<lparr>e2m := (e2m (ipc s))\<lparr>saved_fpu := saveFpuState f, saved_cpu := r\<rparr>\<rparr>\<rparr>"

definition SynchronousInterrupt ::
    "nat \<Rightarrow> u64 \<Rightarrow> u64 \<Rightarrow> u64 \<Rightarrow> fpu \<Rightarrow> mon_state \<Rightarrow> Aarch64_Regs \<Rightarrow> el3_outcome" where
  "SynchronousInterrupt cpu currentEL esr_el3 elr_el3 f s saved_regs =
     (let ec = drop_bit 26 esr_el3 AND 0b111111 in
      if ec = EC_SMC then handleSmc cpu currentEL s saved_regs
      else Hang (reportCrash currentEL entity_monitor (ascii ''Monitor SynchronousInterrupt'') elr_el3
                  (save_cpu f saved_regs s)))"

definition SErrorInterrupt :: "u64 \<Rightarrow> u64 \<Rightarrow> mon_state \<Rightarrow> el3_outcome" where
  "SErrorInterrupt currentEL elr_el3 s =
     Hang (reportCrash currentEL entity_monitor (ascii ''Monitor SErrorInterrupt'') elr_el3 s)"

section \<open>What each part of the monitor leaves alone\<close>

definition wf_mon :: "mon_state \<Rightarrow> bool" where
  "wf_mon s \<longleftrightarrow> wf_ipc (ipc s) \<and> wf_ctl (ctl s)"

text \<open>
  \<open>el3_frame s s'\<close>: the manager's half of the IPC block, the command acknowledgement and memory are
  as before.
\<close>

definition el3_frame :: "mon_state \<Rightarrow> mon_state \<Rightarrow> bool" where
  "el3_frame s s' \<longleftrightarrow> m2e (ipc s') = m2e (ipc s) \<and> cmd_ack (e2m (ipc s')) = cmd_ack (e2m (ipc s)) \<and>
     cmd_resp (e2m (ipc s')) = cmd_resp (e2m (ipc s)) \<and> phys_mem s' = phys_mem s \<and> CNTFRQ_EL0 s' = CNTFRQ_EL0 s"

fun outcome_state :: "el3_outcome \<Rightarrow> mon_state option" where
  "outcome_state (Resume s r) = Some s"
| "outcome_state (Reboot s) = Some s"
| "outcome_state (Hang s) = Some s"
| "outcome_state Undefined = None"

lemma length_strncpy [simp]: "length (strncpy src n) = n"
proof -
  have "length (takeWhile (\<lambda>b. b \<noteq> 0) (take n src)) \<le> length (take n src)"
    by (rule length_takeWhile_le)
  then show ?thesis by (simp add: strncpy_def Let_def)
qed

lemma el3_frame_refl [simp]: "el3_frame s s"
  by (simp add: el3_frame_def)

lemma el3_frame_updates [simp]:
  "el3_frame s (set_state st t) = el3_frame s t" "el3_frame s (dev_write a v t) = el3_frame s t"
  "el3_frame s (save_cpu f r t) = el3_frame s t" "el3_frame s (t\<lparr>ctl := c\<rparr>) = el3_frame s t"
  "el3_frame s (reportCrash el who desc addr t) = el3_frame s t" "el3_frame s (reportPayloadStarted t) = el3_frame s t"
  by (simp_all add: el3_frame_def set_state_def dev_write_def save_cpu_def reportCrash_def reportPayloadStarted_def Let_def)

lemma wf_mon_updates [simp]:
  "wf_mon s \<Longrightarrow> wf_mon (set_state st s)" "wf_mon s \<Longrightarrow> wf_mon (dev_write a v s)"
  "wf_mon s \<Longrightarrow> wf_mon (reportCrash el who desc addr s)" "wf_mon s \<Longrightarrow> wf_mon (reportPayloadStarted s)"
  "wf_mon s \<Longrightarrow> length (regs r) = 31 \<Longrightarrow> wf_mon (save_cpu f r s)"
  "wf_mon s \<Longrightarrow> wf_ctl c \<Longrightarrow> wf_mon (s\<lparr>ctl := c\<rparr>)"
  by (simp_all add: wf_mon_def wf_ipc_def wf_ctl_def set_state_def dev_write_def save_cpu_def reportCrash_def
      reportPayloadStarted_def Let_def)

lemma state_updates [simp]:
  "state (e2m (ipc (set_state st s))) = raw_state st"
  "state (e2m (ipc (reportCrash el who desc a s))) =
     raw_state (if who = entity_payload then crashed_payload else crashed_monitor)"
  "state (e2m (ipc (dev_write x v s))) = state (e2m (ipc s))"
  "ipc (dev_write x v s) = ipc s" "ctl (set_state st s) = ctl s" "ctl (reportCrash el who desc a s) = ctl s"
  "ctl (dev_write x v s) = gic_write (ctl s) x v"
  by (simp_all add: set_state_def reportCrash_def dev_write_def Let_def)

text \<open>Every interrupt controller operation keeps the size of the routing table.\<close>

lemma gicd_op_table: "gicd_op f c i = Some c' \<Longrightarrow> interrupt_routed_to_el1 c' = interrupt_routed_to_el1 c"
  by (auto simp: gicd_op_def)

lemma wf_gicd_op: "gicd_op f c i = Some c' \<Longrightarrow> wf_ctl c' \<longleftrightarrow> wf_ctl c"
  by (simp add: wf_ctl_def gicd_op_table)

lemma wf_setGroup: "setGroupForInterruptChannel c i g = Some c' \<Longrightarrow> wf_ctl c' \<longleftrightarrow> wf_ctl c"
  by (auto simp: setGroupForInterruptChannel_def wf_ctl_def gicd_op_def split: option.splits if_splits)

lemma wf_gic_write [simp]: "wf_ctl (gic_write c a v) \<longleftrightarrow> wf_ctl c" "wf_ctl (gic_write8 c a w) \<longleftrightarrow> wf_ctl c"
  by (simp_all add: wf_ctl_def)

lemma wf_smc_configure: "smc_configure cpu c i p = Some c' \<Longrightarrow> wf_ctl c' \<longleftrightarrow> wf_ctl c"
  by (auto simp: smc_configure_def configurePrivatePeripheralInterrupt_def Let_def
      configureSharedPeripheralInterruptAndRouteToCpu_def
      dest!: wf_setGroup wf_gicd_op split: option.splits if_splits)

lemma wf_irq_ops:
  "disableInterrupt c i = Some c' \<Longrightarrow> wf_ctl c' \<longleftrightarrow> wf_ctl c"
  "enableInterrupt c i = Some c' \<Longrightarrow> wf_ctl c' \<longleftrightarrow> wf_ctl c"
  by (auto simp: disableInterrupt_def enableInterrupt_def dest!: wf_gicd_op split: bind_splits)

lemma resume_ctl_cases:
  "resume_ctl s r c = Resume s' r' \<longleftrightarrow> (\<exists>c'. c = Some c' \<and> s' = s\<lparr>ctl := c'\<rparr> \<and> r' = r)"
  "outcome_state (resume_ctl s r c) = Some s' \<longleftrightarrow> (\<exists>c'. c = Some c' \<and> s' = s\<lparr>ctl := c'\<rparr>)"
  "resume_ctl s r c = Undefined \<longleftrightarrow> c = None"
  "resume_ctl s r c \<noteq> Hang t" "resume_ctl s r c \<noteq> Reboot t"
  by (auto simp: resume_ctl_def split: option.splits)

lemma handleSmc_frame:
  assumes "wf_mon s" and "outcome_state (handleSmc cpu el s r) = Some s'"
  shows "el3_frame s s' \<and> wf_mon s'"
proof -
  obtain b where b: "writeToStdout (ipc s) (mem_read (phys_mem s) (regs r ! 1) (unat (regs r ! 2))) = Some (b, of_nat (unat (regs r ! 2)))"
      "wf_ipc b" "same_but_stdout (ipc s) b"
    using writeToStdout_safe [of "ipc s" "mem_read (phys_mem s) (regs r ! 1) (unat (regs r ! 2))"] assms(1)
    by (auto simp: wf_mon_def stdout_safe_def)
  have "el3_frame s (s\<lparr>ipc := b\<rparr>)" "wf_mon (s\<lparr>ipc := b\<rparr>)"
    using b assms(1) erase_stdout_fields [of "e2m b" "e2m (ipc s)"]
    by (simp_all add: el3_frame_def same_but_stdout_def wf_mon_def)
  moreover have "wf_ctl (ctl s)" using assms(1) by (simp add: wf_mon_def)
  ultimately show ?thesis
    using assms b(1)
    by (auto simp: handleSmc_def Let_def resume_ctl_cases wf_smc_configure wf_irq_ops split: if_splits)
qed

lemma wf_teardown: "wf_ctl c \<Longrightarrow> teardownEl1Interrupts c = Some c' \<Longrightarrow> wf_ctl c'"
  using teardown_trace [of c] by (auto simp: wf_ctl_def)

lemma FIQInterrupt_frame:
  assumes "wf_mon s" and "outcome_state (FIQInterrupt cpu el iar isr s) = Some s'"
  shows "el3_frame s s' \<and> wf_mon s'"
proof -
  have "wf_ctl (gic_write (gic_write (ctl s) x v) y w)" for x v y w
    using assms(1) by (simp add: wf_mon_def)
  with assms show ?thesis
    by (auto simp: FIQInterrupt_def Let_def dest!: wf_teardown [rotated] split: option.splits if_splits)
qed

lemma other_vectors_frame:
  assumes "wf_mon s"
  shows "outcome_state (IRQInterrupt el iar s) = Some s' \<Longrightarrow> el3_frame s s' \<and> wf_mon s'"
    and "outcome_state (SErrorInterrupt el elr s) = Some s' \<Longrightarrow> el3_frame s s' \<and> wf_mon s'"
    and "length (regs r) = 31 \<Longrightarrow> outcome_state (SynchronousInterrupt cpu el esr elr f s r) = Some s' \<Longrightarrow>
      el3_frame s s' \<and> wf_mon s'"
proof -
  assume "outcome_state (IRQInterrupt el iar s) = Some s'"
  then show "el3_frame s s' \<and> wf_mon s'"
    using assms by (auto simp: IRQInterrupt_def)
next
  assume "outcome_state (SErrorInterrupt el elr s) = Some s'"
  then show "el3_frame s s' \<and> wf_mon s'"
    using assms by (auto simp: SErrorInterrupt_def)
next
  assume "length (regs r) = 31" and "outcome_state (SynchronousInterrupt cpu el esr elr f s r) = Some s'"
  then show "el3_frame s s' \<and> wf_mon s'"
    using assms handleSmc_frame [OF assms, of cpu el r s']
    by (auto simp: SynchronousInterrupt_def Let_def split: if_splits)
qed

section \<open>The main loop\<close>

lemma main_updates [simp]:
  "m2e (ipc (set_state st s)) = m2e (ipc s)" "m2e (ipc (acknowledge s)) = m2e (ipc s)"
  "m2e (ipc (set_resp rsp s)) = m2e (ipc s)"
  "phys_mem (set_state st s) = phys_mem s" "phys_mem (acknowledge s) = phys_mem s" "phys_mem (set_resp rsp s) = phys_mem s"
  "ctl (acknowledge s) = ctl s" "ctl (set_resp rsp s) = ctl s"
  "state (e2m (ipc (acknowledge s))) = state (e2m (ipc s))" "state (e2m (ipc (set_resp rsp s))) = state (e2m (ipc s))"
  "cmd_ack (e2m (ipc (set_state st s))) = cmd_ack (e2m (ipc s))"
  "cmd_ack (e2m (ipc (acknowledge s))) = cmd_ack (e2m (ipc s)) + 1"
  "cmd_ack (e2m (ipc (set_resp rsp s))) = cmd_ack (e2m (ipc s))"
  "cmd_resp (e2m (ipc (set_state st s))) = cmd_resp (e2m (ipc s))"
  "cmd_resp (e2m (ipc (acknowledge s))) = cmd_resp (e2m (ipc s))"
  "cmd_resp (e2m (ipc (set_resp rsp s))) = raw_Response rsp"
  "CNTFRQ_EL0 (set_state st s) = CNTFRQ_EL0 s" "CNTFRQ_EL0 (acknowledge s) = CNTFRQ_EL0 s"
  "CNTFRQ_EL0 (set_resp rsp s) = CNTFRQ_EL0 s"
  by (simp_all add: set_state_def acknowledge_def set_resp_def)

lemma wf_main_updates [simp]:
  "wf_mon s \<Longrightarrow> wf_mon (acknowledge s)" "wf_mon s \<Longrightarrow> wf_mon (set_resp rsp s)"
  by (simp_all add: wf_mon_def wf_ipc_def acknowledge_def set_resp_def)

lemma wf_flushICache [simp]: "wf_ctl (flushICache c) \<longleftrightarrow> wf_ctl c"
  by (simp add: flushICache_def wf_ctl_def Let_def)

fun main_state :: "main_outcome \<Rightarrow> mon_state" where
  "main_state (Loop s) = s"
| "main_state (EnterEL1 a s) = s"
| "main_state (EnterDummy s) = s"

lemma main_iteration_frame:
  assumes "wf_mon s"
  shows "wf_mon (main_state (main_iteration s)) \<and> m2e (ipc (main_state (main_iteration s))) = m2e (ipc s) \<and>
    phys_mem (main_state (main_iteration s)) = phys_mem s"
proof -
  have "wf_ctl (ctl s)" using assms by (simp add: wf_mon_def)
  with assms show ?thesis by (simp add: main_iteration_def Let_def)
qed

lemma validatePayload_ok:
  "validatePayload phys img sz crc = crc_ok \<longleftrightarrow>
     crc32 0 (mem_read phys img (unat sz)) = crc \<and> header_ok (decode_header (mem_read phys img 32))"
  unfolding validatePayload_def by (rule crc.accepts_iff)

lemma main_iteration_enter:
  "main_iteration s = EnterEL1 a s' \<Longrightarrow>
     a = payload_entry_address (m2e (ipc s)) \<and> cmd (m2e (ipc s)) = Command_start_payload \<and>
     cmd_seq (m2e (ipc s)) \<noteq> cmd_ack (e2m (ipc s)) \<and>
     validatePayload (phys_mem s) a (payload_size_ipc (m2e (ipc s))) (payload_crc (m2e (ipc s))) = crc_ok \<and>
     state (e2m (ipc s')) = raw_state starting_payload \<and> cmd_ack (e2m (ipc s')) = cmd_ack (e2m (ipc s)) + 1 \<and>
     cmd_resp (e2m (ipc s')) = raw_Response crc_ok"
  by (auto simp: main_iteration_def Let_def split: if_splits)

section \<open>Interrupts of the payload\<close>

text \<open>
  A call is disciplined when it enables only interrupts that are in the routing table, and names
  interrupts of the GIC of this platform. Payloads that use the runtime's interrupt functions make
  disciplined calls only.
\<close>

definition disciplined :: "gic_ctl \<Rightarrow> Aarch64_Regs \<Rightarrow> bool" where
  "disciplined c r \<longleftrightarrow>
     (let x0 = regs r ! 0; i = int_of_u64 (regs r ! 1) in
      (x0 = SMC_ZYNQMP_GIC_IRQ_CONFIGURE \<longrightarrow> i < 188) \<and>
      (x0 = SMC_ZYNQMP_GIC_IRQ_ENABLE \<longrightarrow> 0 \<le> i \<and> i < 188 \<and> interrupt_routed_to_el1 c ! nat i) \<and>
      (x0 = SMC_ZYNQMP_GIC_IRQ_DISABLE \<longrightarrow> 0 \<le> i \<and> i < 1020))"

text \<open>
  A sequence of calls, each with the contents of memory when it is made, that the monitor serves
  one after the other; \<open>None\<close> when one of them is not disciplined or does not return.
\<close>

fun smc_run :: "nat \<Rightarrow> u64 \<Rightarrow> mon_state \<Rightarrow> (memory \<times> Aarch64_Regs) list \<Rightarrow> mon_state option" where
  "smc_run cpu el s [] = Some s"
| "smc_run cpu el s ((m, r) # calls) =
     (if disciplined (ctl s) r
      then (case handleSmc cpu el (s\<lparr>phys_mem := m\<rparr>) r of
              Resume s' r' \<Rightarrow> smc_run cpu el s' calls
            | _ \<Rightarrow> None)
      else None)"

lemma nth_update_True: "j < length xs \<Longrightarrow> xs ! j \<Longrightarrow> xs[k := True] ! j"
  by (cases "j = k") simp_all

lemma enableInterrupt_trace:
  assumes "enableInterrupt c (int n) = Some c'"
  shows "mm_log (gic_io c') = mm_log (gic_io c) @ [W32 (GICD_ICPENDRn (int n div 32)) (2 ^ nat (int n mod 32)),
      W32 (GICD_ICACTIVERn (int n div 32)) (2 ^ nat (int n mod 32)),
      W32 (GICD_ISENABLERn (int n div 32)) (2 ^ nat (int n mod 32))]"
    and "interrupt_routed_to_el1 c' = interrupt_routed_to_el1 c"
proof -
  have "c' = gic_write (gic_write (gic_write c (GICD_ICPENDRn (int n div 32)) (2 ^ nat (int n mod 32)))
       (GICD_ICACTIVERn (int n div 32)) (2 ^ nat (int n mod 32))) (GICD_ISENABLERn (int n div 32)) (2 ^ nat (int n mod 32))"
    using assms enableInterrupt_eq [of "int n" c] by simp
  then show "mm_log (gic_io c') = mm_log (gic_io c) @ [W32 (GICD_ICPENDRn (int n div 32)) (2 ^ nat (int n mod 32)),
      W32 (GICD_ICACTIVERn (int n div 32)) (2 ^ nat (int n mod 32)),
      W32 (GICD_ISENABLERn (int n div 32)) (2 ^ nat (int n mod 32))]"
    "interrupt_routed_to_el1 c' = interrupt_routed_to_el1 c" by simp_all
qed

text \<open>What a service does to the interrupt controller: nothing, or exactly one of its three operations.\<close>

lemma handleSmc_ctl:
  assumes "handleSmc cpu el s r = Resume s' r'"
  shows "(ctl s' = ctl s \<and> regs r ! 0 \<noteq> SMC_ZYNQMP_GIC_IRQ_ENABLE) \<or>
    (regs r ! 0 = SMC_ZYNQMP_GIC_IRQ_CONFIGURE \<and>
       smc_configure cpu (ctl s) (int_of_u64 (regs r ! 1)) (int_of_u64 (regs r ! 2)) = Some (ctl s')) \<or>
    (regs r ! 0 = SMC_ZYNQMP_GIC_IRQ_DISABLE \<and> disableInterrupt (ctl s) (int_of_u64 (regs r ! 1)) = Some (ctl s')) \<or>
    (regs r ! 0 = SMC_ZYNQMP_GIC_IRQ_ENABLE \<and> enableInterrupt (ctl s) (int_of_u64 (regs r ! 1)) = Some (ctl s'))"
  using assms
  by (auto simp: handleSmc_def Let_def resume_ctl_cases reportPayloadStarted_def smc_ids split: if_splits option.splits)

lemma smc_configure_trace:
  assumes "i < 188"
  shows "\<exists>c' acc. smc_configure cpu c i p = Some c' \<and> mm_log (gic_io c') = mm_log (gic_io c) @ acc \<and>
    list_all enable_free acc \<and>
    (if 16 \<le> i \<and> 0x80 \<le> p \<and> p \<le> 0xF0
     then (\<forall>a v. W8 a v \<in> set acc \<longleftrightarrow> (a = GICD_IPRIORITYRn i \<and> v = word_of_int p) \<or>
             (32 \<le> i \<and> a = GICD_ITARGETSRn i \<and> v = push_bit cpu 1)) \<and>
       (\<forall>a v. W32 a v \<in> set acc \<longrightarrow> a = GICD_IGROUPRn (i div 32) \<or> a = GICD_ICFGRn (i div 16)) \<and>
       interrupt_routed_to_el1 c' = (interrupt_routed_to_el1 c)[nat i := True]
     else c' = c \<and> acc = [])"
proof -
  consider "16 \<le> i \<and> 0x80 \<le> p \<and> p \<le> 0xF0" "i < 32" | "32 \<le> i \<and> 0x80 \<le> p \<and> p \<le> 0xF0"
    | "\<not> (16 \<le> i \<and> 0x80 \<le> p \<and> p \<le> 0xF0)" by linarith
  then show ?thesis
  proof cases
    case 1
    with configure_private_trace [of i c p] obtain c' v where
      "smc_configure cpu c i p = Some c'" "interrupt_routed_to_el1 c' = (interrupt_routed_to_el1 c)[nat i := True]"
      "mm_log (gic_io c') = mm_log (gic_io c) @ [W32 (GICD_IGROUPRn (i div 32)) v, W8 (GICD_IPRIORITYRn i) (word_of_int p)]"
      by (auto simp: smc_configure_def payloadMinPriorityValue_def payloadMaxPriorityValue_def)
    with 1 show ?thesis by auto
  next
    case 2
    with configure_shared_trace [of i c cpu p] assms obtain c' v w where
      "smc_configure cpu c i p = Some c'" "interrupt_routed_to_el1 c' = (interrupt_routed_to_el1 c)[nat i := True]"
      "mm_log (gic_io c') = mm_log (gic_io c) @ [W32 (GICD_IGROUPRn (i div 32)) v, W8 (GICD_IPRIORITYRn i) (word_of_int p),
         W8 (GICD_ITARGETSRn i) (push_bit cpu 1), W32 (GICD_ICFGRn (i div 16)) w]"
      by (auto simp: smc_configure_def payloadMinPriorityValue_def payloadMaxPriorityValue_def)
    with 2 assms show ?thesis by auto
  next
    case 3
    then show ?thesis
      by (auto simp: smc_configure_def payloadMinPriorityValue_def payloadMaxPriorityValue_def)
  qed
qed

context gicd_device
begin

lemma handleSmc_covered:
  assumes "handleSmc cpu el s r = Resume s' r'" and "disciplined (ctl s) r" and "wf_ctl (ctl s)"
  shows "\<exists>acc. mm_log (gic_io (ctl s')) = mm_log (gic_io (ctl s)) @ acc \<and>
    (\<forall>d0 d. covered d0 (ctl s) d \<longrightarrow> covered d0 (ctl s') (fold eff acc d))"
  using handleSmc_ctl [OF assms(1)]
proof (elim disjE conjE)
  assume "ctl s' = ctl s"
  then show ?thesis by simp
next
  let ?i = "int_of_u64 (regs r ! 1)"
  assume "regs r ! 0 = SMC_ZYNQMP_GIC_IRQ_CONFIGURE"
    and cfg: "smc_configure cpu (ctl s) ?i (int_of_u64 (regs r ! 2)) = Some (ctl s')"
  then have "?i < 188" using assms(2) by (simp add: disciplined_def Let_def)
  with cfg obtain acc where acc: "mm_log (gic_io (ctl s')) = mm_log (gic_io (ctl s)) @ acc" "list_all enable_free acc"
    and tab: "interrupt_routed_to_el1 (ctl s') = (interrupt_routed_to_el1 (ctl s))[nat ?i := True] \<or> ctl s' = ctl s"
    using smc_configure_trace [of ?i cpu "ctl s" "int_of_u64 (regs r ! 2)"] by (auto split: if_splits)
  have "interrupt_routed_to_el1 (ctl s') ! j" if "j < routed_size" "interrupt_routed_to_el1 (ctl s) ! j" for j
    using that tab assms(3) by (auto simp: nth_update_True wf_ctl_def)
  with acc show ?thesis using covered_enable_free by blast
next
  let ?i = "int_of_u64 (regs r ! 1)"
  assume "regs r ! 0 = SMC_ZYNQMP_GIC_IRQ_DISABLE" and dis: "disableInterrupt (ctl s) ?i = Some (ctl s')"
  then obtain n where n: "?i = int n" "n < 1020"
    using assms(2) by (auto simp: disciplined_def Let_def dest: zero_le_imp_eq_int)
  have c': "ctl s' = gic_write (ctl s) (GICD_ICENABLERn (int n div 32)) (2 ^ nat (int n mod 32))"
    using dis n disableInterrupt_eq [of "int n"] by simp
  have "covered d0 (ctl s') (fold eff [clear_enable_access n] d)" if "covered d0 (ctl s) d" for d0 d
    using covered_clear_enable [OF that, of n] n(2) c' by (simp add: covered_def)
  then show ?thesis
    using c' by (intro exI [of _ "[clear_enable_access n]"]) (simp add: clear_enable_access_def)
next
  let ?i = "int_of_u64 (regs r ! 1)"
  assume en: "regs r ! 0 = SMC_ZYNQMP_GIC_IRQ_ENABLE" "enableInterrupt (ctl s) ?i = Some (ctl s')"
  then obtain n where n: "?i = int n" "n < 188" "interrupt_routed_to_el1 (ctl s) ! n"
    using assms(2) by (auto simp: disciplined_def Let_def dest: zero_le_imp_eq_int)
  let ?pre = "[W32 (GICD_ICPENDRn (int n div 32)) (2 ^ nat (int n mod 32)),
    W32 (GICD_ICACTIVERn (int n div 32)) (2 ^ nat (int n mod 32))]"
  let ?set = "W32 (GICD_ISENABLERn (int n div 32)) (2 ^ nat (int n mod 32))"
  have c': "mm_log (gic_io (ctl s')) = mm_log (gic_io (ctl s)) @ ?pre @ [?set]"
    "interrupt_routed_to_el1 (ctl s') = interrupt_routed_to_el1 (ctl s)"
    using en(2) n(1) enableInterrupt_trace by auto
  have "n div 32 < 32" using n(2) by simp
  then have "list_all enable_free ?pre" by simp
  then have "covered d0 (ctl s') (fold eff (?pre @ [?set]) d)" if "covered d0 (ctl s) d" for d0 d
    using covered_set_enable [OF covered_enable_free [OF that, of ?pre "ctl s'"], of n] n c'(2) by simp
  then show ?thesis using c'(1) by blast
qed

lemma smc_run_covered:
  assumes "smc_run cpu el s calls = Some s'" and "wf_mon s"
  shows "\<exists>acc. mm_log (gic_io (ctl s')) = mm_log (gic_io (ctl s)) @ acc \<and> wf_mon s' \<and>
    (\<forall>d0 d. covered d0 (ctl s) d \<longrightarrow> covered d0 (ctl s') (fold eff acc d))"
  using assms
proof (induction cpu el s calls rule: smc_run.induct)
  case (1 cpu el s)
  then show ?case by simp
next
  case (2 cpu el s m r calls)
  let ?s = "s\<lparr>phys_mem := m\<rparr>"
  from "2.prems"(1) obtain t r' where t: "disciplined (ctl s) r" "handleSmc cpu el ?s r = Resume t r'"
      "smc_run cpu el t calls = Some s'"
    by (auto split: if_splits el3_outcome.splits)
  have "wf_mon ?s" using "2.prems"(2) by (simp add: wf_mon_def)
  then have wf: "wf_mon t" "wf_ctl (ctl s)"
    using handleSmc_frame [of ?s cpu el r t] t(2) by (simp_all add: wf_mon_def)
  obtain acc where acc: "mm_log (gic_io (ctl t)) = mm_log (gic_io (ctl s)) @ acc"
      "\<forall>d0 d. covered d0 (ctl s) d \<longrightarrow> covered d0 (ctl t) (fold eff acc d)"
    using handleSmc_covered [OF t(2)] t(1) wf(2) by auto
  obtain acc' where "mm_log (gic_io (ctl s')) = mm_log (gic_io (ctl t)) @ acc'" "wf_mon s'"
      "\<forall>d0 d. covered d0 (ctl t) d \<longrightarrow> covered d0 (ctl s') (fold eff acc' d)"
    using "2.IH" [OF t(1,2) t(3) wf(1)] by blast
  then show ?case
    using acc by (intro exI [of _ "acc @ acc'"]) simp
qed

text \<open>After the kill request nothing is enabled that was not enabled before the payload ran.\<close>

lemma kill_device:
  assumes "wf_mon s" and "smc_run cpu el s calls = Some s1"
    and "getIpiChannelForCpu cpu = Some ch" and "uint (iar AND IAR_INTERRUPT_ID_MASK) = getInterruptIdForIpi ch"
    and "isr AND 1 \<noteq> 0"
  shows "\<exists>s2 acc. FIQInterrupt cpu el iar isr s1 = Reboot s2 \<and>
    mm_log (gic_io (ctl s2)) = mm_log (gic_io (ctl s)) @ acc \<and>
    interrupt_routed_to_el1 (ctl s2) = replicate 188 False \<and>
    (\<forall>d i. enabled (fold eff acc d) i \<longrightarrow> enabled d i)"
proof -
  obtain acc where acc: "mm_log (gic_io (ctl s1)) = mm_log (gic_io (ctl s)) @ acc" "wf_mon s1"
      "\<forall>d. covered d (ctl s1) (fold eff acc d)"
    using smc_run_covered [OF assms(2,1)] covered_refl by blast
  let ?c = "gic_write (gic_write (ctl s1) (IPI_ISR ch) isr) GICC_EOIR iar"
  let ?ack = "[W32 (IPI_ISR ch) isr, W32 GICC_EOIR iar]"
  have "wf_ctl ?c" using acc(2) by (simp add: wf_mon_def)
  from teardown_device [OF this] obtain c' acc' where td: "teardownEl1Interrupts ?c = Some c'"
      "mm_log (gic_io c') = mm_log (gic_io ?c) @ acc'" "interrupt_routed_to_el1 c' = replicate 188 False"
      "\<forall>d i. enabled (fold eff acc' d) i \<longleftrightarrow>
         enabled d i \<and> i \<noteq> 30 \<and> \<not> (i < 188 \<and> interrupt_routed_to_el1 (ctl s1) ! i)"
    by auto
  have "FIQInterrupt cpu el iar isr s1 =
      Reboot ((dev_write GICC_EOIR iar (dev_write (IPI_ISR ch) isr s1))\<lparr>ctl := c'\<rparr>)"
    using assms(3,4,5) td(1) by (simp add: FIQInterrupt_def Let_def IPI_SRC_BMBOOT_MANAGER_def)
  moreover have "enabled (fold eff (acc @ ?ack @ acc') d) i \<longrightarrow> enabled d i" for d i
  proof -
    have "covered d (ctl s1) (fold eff (acc @ ?ack) d)"
      using acc(3) covered_enable_free [of d "ctl s1" "fold eff acc d" ?ack "ctl s1"] by simp
    then show ?thesis
      using td(4) by (auto simp: covered_def)
  qed
  ultimately show ?thesis
    using td(2,3) acc(1) by (intro exI [of _ "acc @ ?ack @ acc'"] exI conjI) auto
qed

end

section \<open>Properties\<close>

text \<open>
  C3: stopping a payload silences its interrupts. Start from any well-formed monitor state, let the
  payload make any sequence of service calls in which it enables only interrupts it has configured,
  and let the manager's kill request arrive as a fast interrupt: the handler always reaches the
  restart of the monitor, the routing table is empty, and on every distributor that obeys the
  architecture each interrupt enabled then was already enabled before the payload ran.
\<close>

theorem kill_silences_payload_interrupts:
  assumes "gicd_device eff enabled" and "wf_mon s" and "smc_run cpu el s calls = Some s1"
    and "getIpiChannelForCpu cpu = Some ch" and "uint (iar AND IAR_INTERRUPT_ID_MASK) = getInterruptIdForIpi ch"
    and "isr AND 1 \<noteq> 0"
  shows "\<exists>s2 acc. FIQInterrupt cpu el iar isr s1 = Reboot s2 \<and>
    mm_log (gic_io (ctl s2)) = mm_log (gic_io (ctl s)) @ acc \<and>
    interrupt_routed_to_el1 (ctl s2) = replicate 188 False \<and>
    (\<forall>d i. enabled (fold eff acc d) i \<longrightarrow> enabled d i)"
  using assms by (rule gicd_device.kill_device)

definition idle_ctl :: gic_ctl where
  "idle_ctl = \<lparr>gic_io = \<lparr>mm_regs = (\<lambda>_. 0), mm_log = []\<rparr>, interrupt_routed_to_el1 = replicate 188 False, DAIF = 0\<rparr>"

definition idle_mon :: mon_state where
  "idle_mon = \<lparr>ipc = zero_IpcBlock, phys_mem = (\<lambda>_. 0), ctl = idle_ctl, CNTFRQ_EL0 = 0\<rparr>"

definition smc_regs :: "u64 list \<Rightarrow> Aarch64_Regs" where
  "smc_regs args = zero_regs\<lparr>regs := args @ replicate (31 - length args) 0\<rparr>"

lemma wf_idle_mon [simp]: "wf_mon idle_mon"
  by (simp add: wf_mon_def idle_mon_def idle_ctl_def wf_ctl_def)

theorem kill_silences_payload_interrupts_witness:
  "\<exists>s1 s2. smc_run 1 0xC idle_mon
       [(\<lambda>_. 0, smc_regs [SMC_ZYNQMP_GIC_IRQ_CONFIGURE, 121, 0xA0]),
        (\<lambda>_. 0, smc_regs [SMC_ZYNQMP_GIC_IRQ_ENABLE, 121])] = Some s1 \<and>
     FIQInterrupt 1 0xC 67 1 s1 = Reboot s2 \<and>
     \<not> fold gicd_hw_apply (mm_log (gic_io (ctl s2))) (\<lambda>i. i = 67) 121"
proof -
  let ?conf = "smc_regs [SMC_ZYNQMP_GIC_IRQ_CONFIGURE, 121, 0xA0]"
  let ?en = "smc_regs [SMC_ZYNQMP_GIC_IRQ_ENABLE, 121]"
  have ids: "int_of_u64 121 = 121" "int_of_u64 0xA0 = 0xA0" by (simp_all add: int_of_u64_def)
  have m: "idle_mon\<lparr>phys_mem := \<lambda>_. 0\<rparr> = idle_mon" by (simp add: idle_mon_def)
  obtain c where c: "smc_configure 1 (ctl idle_mon) 121 0xA0 = Some c"
      "interrupt_routed_to_el1 c = (interrupt_routed_to_el1 (ctl idle_mon))[121 := True]"
    using smc_configure_trace [of 121 1 "ctl idle_mon" "0xA0"] by auto
  have h1: "handleSmc 1 0xC idle_mon ?conf = Resume (idle_mon\<lparr>ctl := c\<rparr>) ?conf"
    using c(1) by (simp add: handleSmc_def Let_def smc_regs_def smc_ids ids resume_ctl_def)
  have h2: "\<exists>t. handleSmc 1 0xC (idle_mon\<lparr>ctl := c\<rparr>) ?en = Resume t ?en"
    by (simp add: handleSmc_def Let_def smc_regs_def smc_ids ids resume_ctl_def enableInterrupt_eq)
  have d: "disciplined (ctl idle_mon) ?conf" "disciplined c ?en"
    using c(2) by (simp_all add: disciplined_def Let_def smc_regs_def smc_ids ids idle_mon_def idle_ctl_def)
  obtain s1 where s1: "smc_run 1 0xC idle_mon [(\<lambda>_. 0, ?conf), (\<lambda>_. 0, ?en)] = Some s1"
    using h1 h2 d by (auto simp: m idle_mon_def)
  have "mm_log (gic_io (ctl idle_mon)) = []" by (simp add: idle_mon_def idle_ctl_def)
  then show ?thesis
    using kill_silences_payload_interrupts [OF gicd_hw.gicd_device_axioms wf_idle_mon s1, of ch0 67 1] s1
    by (force simp: getIpiChannelForCpu_def IAR_INTERRUPT_ID_MASK_def)
qed

text \<open>
  The monitor jumps to a payload only after validating it, and only on a pending start command:
  whenever one pass of the main loop leaves for a payload, the address is the one the manager
  requested, the CRC of the requested range of memory is the one the manager announced, the image
  carries the magic number and a compatible ABI version, and the manager can see
  \<open>starting_payload\<close>, the answer \<open>crc_ok\<close> and the acknowledged sequence number.
\<close>

lemma payload_entered_only_if_valid:
  assumes "main_iteration s = EnterEL1 a s'"
  shows "a = payload_entry_address (m2e (ipc s)) \<and> cmd (m2e (ipc s)) = Command_start_payload \<and>
    cmd_seq (m2e (ipc s)) \<noteq> cmd_ack (e2m (ipc s)) \<and>
    crc32 0 (mem_read (phys_mem s) a (unat (payload_size_ipc (m2e (ipc s))))) = payload_crc (m2e (ipc s)) \<and>
    header_ok (decode_header (mem_read (phys_mem s) a 32)) \<and>
    state (e2m (ipc s')) = raw_state starting_payload \<and> cmd_ack (e2m (ipc s')) = cmd_ack (e2m (ipc s)) + 1 \<and>
    cmd_resp (e2m (ipc s')) = raw_Response crc_ok"
  using main_iteration_enter [OF assms] by (auto simp: validatePayload_ok)

text \<open>A state in which an ELF payload (size 0, checksum 0) with a proper header waits to be started.\<close>

definition elf_header :: PayloadImageHeader where
  "elf_header = \<lparr>thunk = replicate 8 0, magic = 0x6f626d42, abi_major = 2, abi_minor = 0, res0 = [0, 0],
     load_address = 0x800100000, program_size = 64\<rparr>"

definition start_elf_mon :: mon_state where
  "start_elf_mon = idle_mon\<lparr>phys_mem := mem_write (\<lambda>_. 0) 0x800100000 (encode_header elf_header),
     ipc := zero_IpcBlock\<lparr>m2e := (m2e zero_IpcBlock)\<lparr>cmd := Command_start_payload, cmd_seq := 1,
       payload_entry_address := 0x800100000\<rparr>\<rparr>\<rparr>"

lemma elf_header_in_memory:
  "decode_header (mem_read (mem_write m a (encode_header elf_header)) a 32) = elf_header"
proof -
  have "length (encode_header elf_header) = 32" by (simp add: encode_header_def elf_header_def)
  then have "mem_read (mem_write m a (encode_header elf_header)) a 32 = encode_header elf_header"
    using mem_read_write [of "encode_header elf_header" m a] by simp
  then show ?thesis
    using decode_encode_header [of elf_header "[]"] by (simp add: elf_header_def)
qed

lemma payload_priority_byte:
  assumes "0x80 \<le> p" and "p \<le> (0xF0 :: int)"
  shows "(0x80 :: u8) \<le> word_of_int p \<and> word_of_int p \<le> (0xF0 :: u8)"
  using assms by (simp add: word_le_def uint_word_of_int)

lemma priority_not_target:
  assumes "0 \<le> i" "i < 1020" "0 \<le> j" "j < 1020"
  shows "GICD_IPRIORITYRn i \<noteq> GICD_ITARGETSRn j"
  using assms by (simp add: GICD_addresses word_uint_eq_iff uint_word_ariths uint_word_of_int)

text \<open>A 32-bit register none of whose bytes is a priority.\<close>

definition off_priorities :: "u64 \<Rightarrow> bool" where
  "off_priorities a \<longleftrightarrow> a + 3 < GICD_IPRIORITYRn 0 \<or> GICD_IPRIORITYRn 1019 < a"

lemma registers_off_priorities:
  assumes "0 \<le> n" and "n < 16"
  shows "off_priorities (GICD_IGROUPRn n)" "off_priorities (GICD_ISENABLERn n)" "off_priorities (GICD_ICENABLERn n)"
    "off_priorities (GICD_ICPENDRn n)" "off_priorities (GICD_ICACTIVERn n)" "off_priorities (GICD_ICFGRn n)"
proof -
  have "n \<in> {0, 1, 2, 3, 4, 5, 6, 7, 8, 9, 10, 11, 12, 13, 14, 15}" unfolding insert_iff empty_iff using assms by presburger
  then show "off_priorities (GICD_IGROUPRn n)" "off_priorities (GICD_ISENABLERn n)" "off_priorities (GICD_ICENABLERn n)"
    "off_priorities (GICD_ICPENDRn n)" "off_priorities (GICD_ICACTIVERn n)" "off_priorities (GICD_ICFGRn n)"
    unfolding off_priorities_def GICD_addresses by (elim insertE emptyE; simp)+
qed

lemma smc_configure_priorities:
  assumes "0 \<le> i" and "i < 188" and "smc_configure cpu c i p = Some c'"
  shows "\<exists>acc. mm_log (gic_io c') = mm_log (gic_io c) @ acc \<and>
    (\<forall>j v. 0 \<le> j \<and> j < 1020 \<and> W8 (GICD_IPRIORITYRn j) v \<in> set acc \<longrightarrow> 0x80 \<le> v \<and> v \<le> 0xF0) \<and>
    (\<forall>a v. W32 a v \<in> set acc \<longrightarrow> off_priorities a)"
proof (cases "16 \<le> i \<and> 0x80 \<le> p \<and> p \<le> 0xF0")
  case True
  obtain acc where log: "mm_log (gic_io c') = mm_log (gic_io c) @ acc"
    and w8: "\<forall>a v. W8 a v \<in> set acc \<longleftrightarrow> (a = GICD_IPRIORITYRn i \<and> v = word_of_int p) \<or>
             (32 \<le> i \<and> a = GICD_ITARGETSRn i \<and> v = push_bit cpu 1)"
    and w32: "\<forall>a v. W32 a v \<in> set acc \<longrightarrow> a = GICD_IGROUPRn (i div 32) \<or> a = GICD_ICFGRn (i div 16)"
    using smc_configure_trace [OF assms(2), of cpu c p] unfolding if_P [OF True] assms(3) option.inject by blast
  have "0x80 \<le> v \<and> v \<le> 0xF0" if "0 \<le> j" "j < 1020" "W8 (GICD_IPRIORITYRn j) v \<in> set acc" for j v
    using that w8 priority_not_target [of j i] payload_priority_byte [of p] assms(1,2) True by auto
  moreover have "off_priorities a" if "W32 a v \<in> set acc" for a v
    using that w32 registers_off_priorities(1) [of "i div 32"] registers_off_priorities(6) [of "i div 16"] assms(1,2) by auto
  ultimately show ?thesis using log by blast
next
  case False
  then show ?thesis
    using smc_configure_trace [OF assms(2), of cpu c p] assms(3) unfolding if_not_P [OF False] by auto
qed

text \<open>
  C35: a payload cannot outrank the monitor with the interrupts of this platform: whatever service call it makes for an
  interrupt number from 0 to 187, the only priority values the monitor programs on its behalf lie between \<open>0x80\<close> and
  \<open>0xF0\<close>, numerically above, that is less urgent than, all eight monitor priorities, and none of the 32-bit registers it
  writes overlaps a priority. (The service does not check the number against an upper bound; for larger numbers
  this is not claimed.)
\<close>

theorem payload_priorities_bounded:
  assumes "handleSmc cpu el s r = Resume s' r'" and "int_of_u64 (regs r ! 1) < 188" and "0 \<le> int_of_u64 (regs r ! 1)"
  shows "\<exists>acc. mm_log (gic_io (ctl s')) = mm_log (gic_io (ctl s)) @ acc \<and>
    (\<forall>i v. 0 \<le> i \<and> i < 1020 \<and> W8 (GICD_IPRIORITYRn i) v \<in> set acc \<longrightarrow> 0x80 \<le> v \<and> v \<le> 0xF0) \<and>
    (\<forall>a v. W32 a v \<in> set acc \<longrightarrow> a + 3 < GICD_IPRIORITYRn 0 \<or> GICD_IPRIORITYRn 1019 < a)"
proof -
  obtain n where n: "int_of_u64 (regs r ! 1) = int n" using assms(3) nonneg_int_cases by blast
  then have m: "0 \<le> int n div 32" "int n div 32 < 16" using assms(2) by linarith+
  note off = registers_off_priorities [OF m, unfolded off_priorities_def]
  from handleSmc_ctl [OF assms(1)] show ?thesis
  proof (elim disjE conjE)
    assume "smc_configure cpu (ctl s) (int_of_u64 (regs r ! 1)) (int_of_u64 (regs r ! 2)) = Some (ctl s')"
    from smc_configure_priorities [OF assms(3,2) this] show ?thesis unfolding off_priorities_def .
  next
    assume "disableInterrupt (ctl s) (int_of_u64 (regs r ! 1)) = Some (ctl s')"
    then have "ctl s' = gic_write (ctl s) (GICD_ICENABLERn (int n div 32)) (2 ^ nat (int n mod 32))"
      using n disableInterrupt_eq [of "int n" "ctl s"] by simp
    then show ?thesis using off by simp
  next
    assume "enableInterrupt (ctl s) (int_of_u64 (regs r ! 1)) = Some (ctl s')"
    then have "mm_log (gic_io (ctl s')) = mm_log (gic_io (ctl s)) @ [W32 (GICD_ICPENDRn (int n div 32)) (2 ^ nat (int n mod 32)),
        W32 (GICD_ICACTIVERn (int n div 32)) (2 ^ nat (int n mod 32)), W32 (GICD_ISENABLERn (int n div 32)) (2 ^ nat (int n mod 32))]"
      using n enableInterrupt_trace(1) [of "ctl s" n "ctl s'"] by simp
    with off show ?thesis by auto
  qed simp
qed

theorem payload_priorities_bounded_witness:
  "\<exists>s' acc. handleSmc 1 0xC idle_mon (smc_regs [SMC_ZYNQMP_GIC_IRQ_CONFIGURE, 121, 0x10]) = Resume s'
       (smc_regs [SMC_ZYNQMP_GIC_IRQ_CONFIGURE, 121, 0x10]) \<and> mm_log (gic_io (ctl s')) = acc \<and>
     W8 (GICD_IPRIORITYRn 121) 0x10 \<notin> set acc"
proof -
  let ?r = "smc_regs [SMC_ZYNQMP_GIC_IRQ_CONFIGURE, 121, 0x10]"
  have r: "regs ?r ! 1 = 121" "int_of_u64 (regs ?r ! 1) = 121" "mm_log (gic_io (ctl idle_mon)) = []"
    by (simp_all add: smc_regs_def int_of_u64_def idle_mon_def idle_ctl_def)
  have "handleSmc 1 0xC idle_mon ?r = Resume idle_mon ?r"
    by (simp add: handleSmc_def Let_def smc_regs_def smc_ids int_of_u64_def resume_ctl_def smc_configure_def
        payloadMinPriorityValue_def)
  with payload_priorities_bounded [OF this] r show ?thesis by auto
qed






end
