(* ===== verification/Protocol.thy ===== *)
theory Protocol
  imports Monitor
begin

text \<open>
  The command protocol between the manager (\<open>Domain::startPayloadAt\<close>, \<open>Domain::terminatePayload\<close> in
  \<open>src/manager/domain.cpp\<close>) and the monitor (\<open>main\<close> in \<open>src/executor/monitor/monitor.cpp\<close>), as a step relation
  in which the two sides interleave at every access to the shared IPC block. The relation has one
  parameter, \<open>timely\<close>: when it is set, the manager gives up waiting for a start command only after the
  monitor has answered it or has entered the dummy payload (which never answers).
\<close>

section \<open>State\<close>

record start_cmd =
  sc_entry :: u64
  sc_size :: u64
  sc_crc :: u32
  sc_argument :: u64

text \<open>
  Where the monitor is: \<open>Idle\<close> at the comparison of the sequence numbers, \<open>Dispatch\<close> at the \<open>switch\<close>,
  \<open>AckNoop\<close> before the acknowledgement of \<open>noop\<close>, \<open>Entry\<close> before the test for the dummy payload, \<open>Answer\<close>
  before the store of the response, \<open>AckStart\<close> before the acknowledgement, \<open>Enter\<close> before
  \<open>enterEL1Payload\<close>, \<open>Refuse\<close> before the return to \<open>monitor_ready\<close>, \<open>Booting\<close> before \<open>main\<close> reports
  \<open>monitor_ready\<close>.
\<close>

datatype mon_pc = Booting | Idle | Dispatch | AckNoop | Entry | Answer Response | AckStart Response | Enter | Refuse
  | InPayload u64 | InDummy

text \<open>
  Where the manager is: \<open>M_ready\<close> after it has seen \<open>monitor_ready\<close>, \<open>M_writing k\<close> with \<open>k\<close> command
  fields written, \<open>M_wait\<close> polling after a start command, \<open>M_kill\<close> after it has withdrawn the command,
  \<open>M_await\<close> polling after the inter-processor interrupt.
\<close>

datatype mgr_pc = M_idle | M_ready start_cmd | M_writing nat start_cmd | M_wait | M_kill | M_await

text \<open>\<open>pr_validated\<close> and \<open>pr_entered\<close> record the addresses that passed validation and that were entered.\<close>

record proto =
  pr_ipc :: IpcBlock
  pr_mem :: memory
  pr_pc :: mon_pc
  pr_mgr :: mgr_pc
  pr_ipi :: bool
  pr_validated :: "u64 list"
  pr_entered :: "u64 list"

definition put_m2e :: "(manager_to_executor \<Rightarrow> manager_to_executor) \<Rightarrow> proto \<Rightarrow> proto" where
  "put_m2e f s = s\<lparr>pr_ipc := (pr_ipc s)\<lparr>m2e := f (m2e (pr_ipc s))\<rparr>\<rparr>"

definition put_e2m :: "(executor_to_manager \<Rightarrow> executor_to_manager) \<Rightarrow> proto \<Rightarrow> proto" where
  "put_e2m f s = s\<lparr>pr_ipc := (pr_ipc s)\<lparr>e2m := f (e2m (pr_ipc s))\<rparr>\<rparr>"

abbreviation pr_seq :: "proto \<Rightarrow> u32" where "pr_seq s \<equiv> cmd_seq (m2e (pr_ipc s))"
abbreviation pr_ack :: "proto \<Rightarrow> u32" where "pr_ack s \<equiv> cmd_ack (e2m (pr_ipc s))"
abbreviation pr_cmd :: "proto \<Rightarrow> u32" where "pr_cmd s \<equiv> cmd (m2e (pr_ipc s))"
abbreviation pr_entry :: "proto \<Rightarrow> u64" where "pr_entry s \<equiv> payload_entry_address (m2e (pr_ipc s))"
abbreviation pr_state :: "proto \<Rightarrow> u32" where "pr_state s \<equiv> state (e2m (pr_ipc s))"

text \<open>The stores of \<open>startPayloadAt\<close> before the sequence number, in program order.\<close>

definition write_field :: "nat \<Rightarrow> start_cmd \<Rightarrow> manager_to_executor \<Rightarrow> manager_to_executor" where
  "write_field k c m =
     (if k = 0 then m\<lparr>payload_entry_address := sc_entry c\<rparr>
      else if k = 1 then m\<lparr>payload_size_ipc := sc_size c\<rparr>
      else if k = 2 then m\<lparr>payload_crc := sc_crc c\<rparr>
      else if k = 3 then m\<lparr>payload_argument := sc_argument c\<rparr>
      else m\<lparr>cmd := Command_start_payload\<rparr>)"

section \<open>Steps\<close>

inductive proto_step :: "bool \<Rightarrow> proto \<Rightarrow> proto \<Rightarrow> bool" for timely where
  m_check: "pr_mgr s = M_idle \<Longrightarrow> pr_state s = raw_state monitor_ready \<Longrightarrow> proto_step timely s (s\<lparr>pr_mgr := M_ready c\<rparr>)"
| m_load: "proto_step timely s (s\<lparr>pr_mem := mem\<rparr>)"
| m_refuse: "pr_mgr s = M_ready c \<Longrightarrow> pr_ack s \<noteq> pr_seq s \<Longrightarrow> proto_step timely s (s\<lparr>pr_mgr := M_idle\<rparr>)"
| m_go: "pr_mgr s = M_ready c \<Longrightarrow> pr_ack s = pr_seq s \<Longrightarrow>
    proto_step timely s (put_m2e (\<lambda>m. m\<lparr>stdout_rdpos := stdout_wrpos (e2m (pr_ipc s))\<rparr>) (s\<lparr>pr_mgr := M_writing 0 c\<rparr>))"
| m_write: "pr_mgr s = M_writing k c \<Longrightarrow> k < 5 \<Longrightarrow>
    proto_step timely s (put_m2e (write_field k c) (s\<lparr>pr_mgr := M_writing (Suc k) c\<rparr>))"
| m_issue: "pr_mgr s = M_writing 5 c \<Longrightarrow>
    proto_step timely s (put_m2e (\<lambda>m. m\<lparr>cmd_seq := cmd_seq m + 1\<rparr>) (s\<lparr>pr_mgr := M_wait\<rparr>))"
| m_return: "pr_mgr s = M_wait \<Longrightarrow> (timely \<Longrightarrow> pr_ack s = pr_seq s \<or> pr_pc s = InDummy) \<Longrightarrow>
    proto_step timely s (s\<lparr>pr_mgr := M_idle\<rparr>)"
| m_withdraw: "pr_mgr s = M_idle \<Longrightarrow>
    proto_step timely s (put_m2e (\<lambda>m. m\<lparr>cmd := Command_noop\<rparr>) (s\<lparr>pr_mgr := M_kill\<rparr>))"
| m_ipi: "pr_mgr s = M_kill \<Longrightarrow> proto_step timely s (s\<lparr>pr_mgr := M_await, pr_ipi := True\<rparr>)"
| m_awaited: "pr_mgr s = M_await \<Longrightarrow> proto_step timely s (s\<lparr>pr_mgr := M_idle\<rparr>)"
| e_boot: "pr_pc s = Booting \<Longrightarrow>
    proto_step timely s (put_e2m (\<lambda>e. e\<lparr>state := raw_state monitor_ready\<rparr>) (s\<lparr>pr_pc := Idle\<rparr>))"
| e_poll: "pr_pc s = Idle \<Longrightarrow> pr_seq s \<noteq> pr_ack s \<Longrightarrow> proto_step timely s (s\<lparr>pr_pc := Dispatch\<rparr>)"
| e_noop: "pr_pc s = Dispatch \<Longrightarrow> pr_cmd s = Command_noop \<Longrightarrow> proto_step timely s (s\<lparr>pr_pc := AckNoop\<rparr>)"
| e_ack_noop: "pr_pc s = AckNoop \<Longrightarrow>
    proto_step timely s (put_e2m (\<lambda>e. e\<lparr>cmd_ack := cmd_ack e + 1\<rparr>) (s\<lparr>pr_pc := Idle\<rparr>))"
| e_start: "pr_pc s = Dispatch \<Longrightarrow> pr_cmd s = Command_start_payload \<Longrightarrow>
    proto_step timely s (put_e2m (\<lambda>e. e\<lparr>state := raw_state starting_payload\<rparr>) (s\<lparr>pr_pc := Entry\<rparr>))"
| e_unknown: "pr_pc s = Dispatch \<Longrightarrow> pr_cmd s \<noteq> Command_noop \<Longrightarrow> pr_cmd s \<noteq> Command_start_payload \<Longrightarrow>
    proto_step timely s (s\<lparr>pr_pc := Idle\<rparr>)"
| e_dummy: "pr_pc s = Entry \<Longrightarrow> pr_entry s = DUMMY_PAYLOAD \<Longrightarrow> proto_step timely s (s\<lparr>pr_pc := InDummy\<rparr>)"
| e_validate: "pr_pc s = Entry \<Longrightarrow> pr_entry s \<noteq> DUMMY_PAYLOAD \<Longrightarrow>
    validatePayload (pr_mem s) (pr_entry s) (payload_size_ipc (m2e (pr_ipc s))) (payload_crc (m2e (pr_ipc s))) = rsp \<Longrightarrow>
    proto_step timely s (s\<lparr>pr_pc := Answer rsp,
      pr_validated := (if rsp = crc_ok then pr_entry s # pr_validated s else pr_validated s)\<rparr>)"
| e_answer: "pr_pc s = Answer rsp \<Longrightarrow>
    proto_step timely s (put_e2m (\<lambda>e. e\<lparr>cmd_resp := raw_Response rsp\<rparr>) (s\<lparr>pr_pc := AckStart rsp\<rparr>))"
| e_ack: "pr_pc s = AckStart rsp \<Longrightarrow>
    proto_step timely s (put_e2m (\<lambda>e. e\<lparr>cmd_ack := cmd_ack e + 1\<rparr>)
      (s\<lparr>pr_pc := (if rsp = crc_ok then Enter else Refuse)\<rparr>))"
| e_enter: "pr_pc s = Enter \<Longrightarrow>
    proto_step timely s (s\<lparr>pr_pc := InPayload (pr_entry s), pr_entered := pr_entry s # pr_entered s\<rparr>)"
| e_refuse: "pr_pc s = Refuse \<Longrightarrow>
    proto_step timely s (put_e2m (\<lambda>e. e\<lparr>state := raw_state monitor_ready\<rparr>) (s\<lparr>pr_pc := Idle\<rparr>))"
| e_payload: "pr_pc s = InPayload a \<Longrightarrow> st \<in> {running_payload, crashed_payload} \<Longrightarrow>
    proto_step timely s (put_e2m (\<lambda>e. e\<lparr>state := raw_state st\<rparr>) s)"
| e_kill: "pr_ipi s \<Longrightarrow> pr_pc s \<noteq> Booting \<Longrightarrow> proto_step timely s (s\<lparr>pr_ipi := False, pr_pc := Booting\<rparr>)"

definition proto_init :: "proto \<Rightarrow> bool" where
  "proto_init s \<longleftrightarrow> pr_seq s = 0 \<and> pr_ack s = 0 \<and> pr_pc s = Booting \<and> pr_mgr s = M_idle \<and> \<not> pr_ipi s \<and>
     pr_state s = raw_state invalid_state \<and> pr_validated s = [] \<and> pr_entered s = []"

inductive proto_reach :: "bool \<Rightarrow> proto \<Rightarrow> bool" for timely where
  r_init: "proto_init s \<Longrightarrow> proto_reach timely s"
| r_step: "proto_reach timely s \<Longrightarrow> proto_step timely s s' \<Longrightarrow> proto_reach timely s'"

section \<open>Invariant\<close>

lemma put_simps [simp]:
  "m2e (pr_ipc (put_m2e f s)) = f (m2e (pr_ipc s))" "e2m (pr_ipc (put_m2e f s)) = e2m (pr_ipc s)"
  "m2e (pr_ipc (put_e2m g s)) = m2e (pr_ipc s)" "e2m (pr_ipc (put_e2m g s)) = g (e2m (pr_ipc s))"
  "pr_pc (put_m2e f s) = pr_pc s" "pr_pc (put_e2m g s) = pr_pc s"
  "pr_mgr (put_m2e f s) = pr_mgr s" "pr_mgr (put_e2m g s) = pr_mgr s"
  "pr_ipi (put_m2e f s) = pr_ipi s" "pr_ipi (put_e2m g s) = pr_ipi s"
  "pr_mem (put_m2e f s) = pr_mem s" "pr_mem (put_e2m g s) = pr_mem s"
  "pr_validated (put_m2e f s) = pr_validated s" "pr_validated (put_e2m g s) = pr_validated s"
  "pr_entered (put_m2e f s) = pr_entered s" "pr_entered (put_e2m g s) = pr_entered s"
  by (simp_all add: put_m2e_def put_e2m_def)

lemma write_field_seq [simp]: "cmd_seq (write_field k c m) = cmd_seq m"
  by (simp add: write_field_def)

text \<open>The monitor is working on a command that is not acknowledged yet.\<close>

fun handling :: "mon_pc \<Rightarrow> bool" where
  "handling Dispatch = True"
| "handling AckNoop = True"
| "handling Entry = True"
| "handling (Answer r) = True"
| "handling (AckStart r) = True"
| "handling _ = False"

definition seq_inv :: "proto \<Rightarrow> bool" where
  "seq_inv s \<longleftrightarrow> (pr_seq s = pr_ack s \<or> pr_seq s = pr_ack s + 1) \<and>
     (handling (pr_pc s) \<longrightarrow> pr_seq s = pr_ack s + 1) \<and>
     (\<forall>k c. pr_mgr s = M_writing k c \<longrightarrow> pr_seq s = pr_ack s)"

lemma seq_inv_step: "proto_step timely s s' \<Longrightarrow> seq_inv s \<Longrightarrow> seq_inv s'"
  by (induction rule: proto_step.induct) (auto simp: seq_inv_def)

lemma seq_inv_reach: "proto_reach timely s \<Longrightarrow> seq_inv s"
  by (induction rule: proto_reach.induct) (auto simp: seq_inv_step, simp add: seq_inv_def proto_init_def)

text \<open>
  When the manager is timely, the command is stable from the moment the monitor reads it until the
  payload is entered.
\<close>

definition stable_inv :: "proto \<Rightarrow> bool" where
  "stable_inv s \<longleftrightarrow>
     (pr_mgr s \<noteq> M_wait \<longrightarrow> pr_seq s = pr_ack s \<or> pr_cmd s = Command_noop \<or> pr_entry s = DUMMY_PAYLOAD) \<and>
     (pr_pc s = Entry \<longrightarrow> (pr_mgr s = M_wait \<or> pr_entry s = DUMMY_PAYLOAD) \<and> pr_state s = raw_state starting_payload) \<and>
     (\<forall>r. pr_pc s = Answer r \<or> pr_pc s = AckStart r \<longrightarrow>
        pr_mgr s = M_wait \<and> pr_state s = raw_state starting_payload \<and> (r = crc_ok \<longrightarrow> pr_entry s \<in> set (pr_validated s))) \<and>
     (pr_pc s = Enter \<longrightarrow> pr_state s = raw_state starting_payload \<and> (\<forall>c. pr_mgr s \<noteq> M_ready c) \<and>
        (\<forall>k c. pr_mgr s \<noteq> M_writing k c) \<and> pr_entry s \<in> set (pr_validated s)) \<and>
     (pr_pc s = InDummy \<longrightarrow> pr_entry s = DUMMY_PAYLOAD \<and> pr_seq s = pr_ack s + 1) \<and>
     set (pr_entered s) \<subseteq> set (pr_validated s)"

lemma commands_differ [simp]: "Command_start_payload \<noteq> Command_noop" "Command_noop \<noteq> Command_start_payload"
  by (simp_all add: Command_start_payload_def Command_noop_def)

lemma stable_inv_step:
  "proto_step True s s' \<Longrightarrow> seq_inv s \<Longrightarrow> stable_inv s \<Longrightarrow> stable_inv s'"
proof (induction rule: proto_step.induct)
  case (m_write s k c)
  then have "pr_pc s \<notin> {Entry, Enter, InDummy}" "\<And>r. pr_pc s \<noteq> Answer r \<and> pr_pc s \<noteq> AckStart r" "pr_seq s = pr_ack s"
    by (auto simp: seq_inv_def stable_inv_def)
  with m_write show ?case by (auto simp: stable_inv_def)
qed (auto simp: seq_inv_def stable_inv_def)

lemma stable_inv_reach: "proto_reach True s \<Longrightarrow> stable_inv s"
proof (induction rule: proto_reach.induct)
  case (r_init s)
  then show ?case by (simp add: proto_init_def stable_inv_def)
next
  case (r_step s s')
  then show ?case using stable_inv_step seq_inv_reach by blast
qed

section \<open>Runs\<close>

lemma reach_run: "(proto_step t)\<^sup>*\<^sup>* s s' \<Longrightarrow> proto_reach t s \<Longrightarrow> proto_reach t s'"
  by (induction rule: rtranclp_induct) (auto intro: r_step)

lemma run_exI: "(proto_step t)\<^sup>*\<^sup>* s s' \<Longrightarrow> P s' \<Longrightarrow> \<exists>s'. (proto_step t)\<^sup>*\<^sup>* s s' \<and> P s'"
  by blast

text \<open>Stretches of a run: the manager issues a command, and the monitor takes a start command up to its acknowledgement.\<close>

lemma run_issue:
  assumes "pr_mgr s = M_ready c" and "pr_ack s = pr_seq s"
  shows "(proto_step t)\<^sup>*\<^sup>* s (s\<lparr>pr_mgr := M_wait, pr_ipc := (pr_ipc s)\<lparr>m2e := (m2e (pr_ipc s))
    \<lparr>stdout_rdpos := stdout_wrpos (e2m (pr_ipc s)), payload_entry_address := sc_entry c, payload_size_ipc := sc_size c,
     payload_crc := sc_crc c, payload_argument := sc_argument c, cmd := Command_start_payload, cmd_seq := pr_seq s + 1\<rparr>\<rparr>\<rparr>)"
proof -
  let ?s0 = "put_m2e (\<lambda>m. m\<lparr>stdout_rdpos := stdout_wrpos (e2m (pr_ipc s))\<rparr>) (s\<lparr>pr_mgr := M_writing 0 c\<rparr>)"
  let ?s1 = "put_m2e (write_field 0 c) (?s0\<lparr>pr_mgr := M_writing (Suc 0) c\<rparr>)"
  let ?s2 = "put_m2e (write_field 1 c) (?s1\<lparr>pr_mgr := M_writing (Suc 1) c\<rparr>)"
  let ?s3 = "put_m2e (write_field 2 c) (?s2\<lparr>pr_mgr := M_writing (Suc 2) c\<rparr>)"
  let ?s4 = "put_m2e (write_field 3 c) (?s3\<lparr>pr_mgr := M_writing (Suc 3) c\<rparr>)"
  let ?s5 = "put_m2e (write_field 4 c) (?s4\<lparr>pr_mgr := M_writing (Suc 4) c\<rparr>)"
  let ?s6 = "put_m2e (\<lambda>m. m\<lparr>cmd_seq := cmd_seq m + 1\<rparr>) (?s5\<lparr>pr_mgr := M_wait\<rparr>)"
  note more = rtranclp.rtrancl_into_rtrancl
  have "(proto_step t)\<^sup>*\<^sup>* s ?s0" using m_go [OF assms] by (rule r_into_rtranclp)
  then have "(proto_step t)\<^sup>*\<^sup>* s ?s1" by (rule more) (rule m_write, simp_all)
  then have "(proto_step t)\<^sup>*\<^sup>* s ?s2" by (rule more) (rule m_write, simp_all)
  then have "(proto_step t)\<^sup>*\<^sup>* s ?s3" by (rule more) (rule m_write, simp_all)
  then have "(proto_step t)\<^sup>*\<^sup>* s ?s4" by (rule more) (rule m_write, simp_all)
  then have "(proto_step t)\<^sup>*\<^sup>* s ?s5" by (rule more) (rule m_write, simp_all)
  then have "(proto_step t)\<^sup>*\<^sup>* s ?s6" by (rule more) (rule m_issue, simp)
  then show ?thesis by (simp add: put_m2e_def write_field_def)
qed

lemma run_start:
  assumes "pr_pc s = Idle" and "pr_seq s \<noteq> pr_ack s" and "pr_cmd s = Command_start_payload"
  shows "(proto_step t)\<^sup>*\<^sup>* s (put_e2m (\<lambda>e. e\<lparr>state := raw_state starting_payload\<rparr>) (s\<lparr>pr_pc := Entry\<rparr>))"
proof -
  let ?s1 = "s\<lparr>pr_pc := Dispatch\<rparr>"
  have "(proto_step t)\<^sup>*\<^sup>* s ?s1" using e_poll [OF assms(1,2)] by (rule r_into_rtranclp)
  moreover have "proto_step t ?s1 (put_e2m (\<lambda>e. e\<lparr>state := raw_state starting_payload\<rparr>) (?s1\<lparr>pr_pc := Entry\<rparr>))"
    by (rule e_start) (use assms(3) in simp_all)
  ultimately show ?thesis by (simp add: rtranclp.rtrancl_into_rtrancl)
qed

lemma run_answer:
  assumes "pr_pc s = Idle" and "pr_seq s \<noteq> pr_ack s" and "pr_cmd s = Command_start_payload" and "pr_entry s \<noteq> DUMMY_PAYLOAD"
    and "validatePayload (pr_mem s) (pr_entry s) (payload_size_ipc (m2e (pr_ipc s))) (payload_crc (m2e (pr_ipc s))) = rsp"
  shows "(proto_step t)\<^sup>*\<^sup>* s (put_e2m (\<lambda>e. e\<lparr>state := raw_state starting_payload, cmd_resp := raw_Response rsp, cmd_ack := pr_ack s + 1\<rparr>)
    (s\<lparr>pr_validated := (if rsp = crc_ok then pr_entry s # pr_validated s else pr_validated s),
       pr_pc := (if rsp = crc_ok then Enter else Refuse)\<rparr>))"
proof -
  let ?s2 = "put_e2m (\<lambda>e. e\<lparr>state := raw_state starting_payload\<rparr>) (s\<lparr>pr_pc := Entry\<rparr>)"
  let ?s3 = "?s2\<lparr>pr_pc := Answer rsp, pr_validated := (if rsp = crc_ok then pr_entry s # pr_validated s else pr_validated s)\<rparr>"
  let ?s4 = "put_e2m (\<lambda>e. e\<lparr>cmd_resp := raw_Response rsp\<rparr>) (?s3\<lparr>pr_pc := AckStart rsp\<rparr>)"
  let ?s5 = "put_e2m (\<lambda>e. e\<lparr>cmd_ack := cmd_ack e + 1\<rparr>) (?s4\<lparr>pr_pc := (if rsp = crc_ok then Enter else Refuse)\<rparr>)"
  note more = rtranclp.rtrancl_into_rtrancl
  have "(proto_step t)\<^sup>*\<^sup>* s ?s2" by (rule run_start [OF assms(1-3)])
  moreover have "proto_step t ?s2 ?s3" using e_validate [of ?s2 rsp t] assms(4,5) by (cases "rsp = crc_ok") simp_all
  ultimately have "(proto_step t)\<^sup>*\<^sup>* s ?s3" by (rule more)
  then have "(proto_step t)\<^sup>*\<^sup>* s ?s4" by (rule more) (rule e_answer, simp)
  moreover have "proto_step t ?s4 ?s5" using e_ack [of ?s4 rsp t] by simp
  ultimately have "(proto_step t)\<^sup>*\<^sup>* s ?s5" by (rule more)
  then show ?thesis by (cases "rsp = crc_ok") (simp_all add: put_e2m_def)
qed

lemma reach_issue:
  assumes "proto_reach t s" and "pr_mgr s = M_ready c" and "pr_ack s = pr_seq s"
  shows "\<exists>s'. proto_reach t s' \<and> pr_mgr s' = M_wait \<and> pr_pc s' = pr_pc s \<and> e2m (pr_ipc s') = e2m (pr_ipc s) \<and>
    pr_mem s' = pr_mem s \<and> pr_validated s' = pr_validated s \<and> pr_entered s' = pr_entered s \<and> pr_ipi s' = pr_ipi s \<and>
    pr_seq s' = pr_seq s + 1 \<and> pr_cmd s' = Command_start_payload \<and> pr_entry s' = sc_entry c \<and>
    payload_size_ipc (m2e (pr_ipc s')) = sc_size c \<and> payload_crc (m2e (pr_ipc s')) = sc_crc c"
  by (rule exI, rule conjI, rule reach_run [OF run_issue [OF assms(2,3)] assms(1)]) simp

lemma reach_validated:
  assumes "proto_reach t s" and "pr_pc s = Idle" and "pr_seq s \<noteq> pr_ack s" and "pr_cmd s = Command_start_payload"
    and "pr_entry s \<noteq> DUMMY_PAYLOAD"
    and "validatePayload (pr_mem s) (pr_entry s) (payload_size_ipc (m2e (pr_ipc s))) (payload_crc (m2e (pr_ipc s))) = crc_ok"
  shows "\<exists>s'. proto_reach t s' \<and> pr_pc s' = Enter \<and> pr_mgr s' = pr_mgr s \<and> m2e (pr_ipc s') = m2e (pr_ipc s) \<and>
    pr_ack s' = pr_ack s + 1 \<and> pr_validated s' = pr_entry s # pr_validated s \<and> pr_entered s' = pr_entered s"
  by (rule exI, rule conjI, rule reach_run [OF run_answer [OF assms(2-6)] assms(1)]) simp

section \<open>The monitor's loop as a run\<close>

text \<open>The monitor's state behind a protocol state.\<close>

definition mon_of :: "proto \<Rightarrow> gic_ctl \<Rightarrow> u64 \<Rightarrow> mon_state" where
  "mon_of s c freq = \<lparr>ipc = pr_ipc s, phys_mem = pr_mem s, ctl = c, CNTFRQ_EL0 = freq\<rparr>"

text \<open>Where the monitor stands after a pass, and which address it has entered.\<close>

fun pass_result :: "main_outcome \<Rightarrow> mon_pc \<times> mon_state \<times> u64 list" where
  "pass_result (Loop t) = (Idle, t, [])"
| "pass_result (EnterEL1 a t) = (InPayload a, t, [a])"
| "pass_result (EnterDummy t) = (InDummy, t, [])"

lemmas pass_defs = main_iteration_def mon_of_def Let_def set_state_def set_resp_def acknowledge_def put_e2m_def

lemma monitor_pass_run:
  assumes "pr_pc s = Idle" and "pass_result (main_iteration (mon_of s c freq)) = (pc', t, as)"
  shows "\<exists>s'. (proto_step timely)\<^sup>*\<^sup>* s s' \<and> pr_pc s' = pc' \<and> pr_ipc s' = ipc t \<and> pr_mem s' = phys_mem t \<and>
    pr_entered s' = as @ pr_entered s \<and> pr_mgr s' = pr_mgr s \<and> pr_ipi s' = pr_ipi s"
proof -
  note more = rtranclp.rtrancl_into_rtrancl
  consider (quiet) "pr_seq s = pr_ack s" | (noop) "pr_seq s \<noteq> pr_ack s" "pr_cmd s = Command_noop"
    | (unknown) "pr_seq s \<noteq> pr_ack s" "pr_cmd s \<noteq> Command_noop" "pr_cmd s \<noteq> Command_start_payload"
    | (dummy) "pr_seq s \<noteq> pr_ack s" "pr_cmd s = Command_start_payload" "pr_entry s = DUMMY_PAYLOAD"
    | (image) "pr_seq s \<noteq> pr_ack s" "pr_cmd s = Command_start_payload" "pr_entry s \<noteq> DUMMY_PAYLOAD"
    by blast
  then show ?thesis
  proof cases
    case quiet
    then show ?thesis using assms by (intro exI [of _ s]) (auto simp: main_iteration_def mon_of_def Let_def)
  next
    case noop
    have "(proto_step timely)\<^sup>*\<^sup>* s (s\<lparr>pr_pc := Dispatch\<rparr>)" using e_poll [OF assms(1) noop(1)] by (rule r_into_rtranclp)
    then have "(proto_step timely)\<^sup>*\<^sup>* s (s\<lparr>pr_pc := Dispatch\<rparr>\<lparr>pr_pc := AckNoop\<rparr>)"
      by (rule more) (rule e_noop, use noop in simp_all)
    then have "(proto_step timely)\<^sup>*\<^sup>* s (put_e2m (\<lambda>e. e\<lparr>cmd_ack := cmd_ack e + 1\<rparr>) (s\<lparr>pr_pc := Dispatch\<rparr>\<lparr>pr_pc := AckNoop\<rparr>\<lparr>pr_pc := Idle\<rparr>))"
      by (rule more) (rule e_ack_noop, simp)
    then show ?thesis
      by (rule run_exI) (use assms noop in \<open>auto simp: pass_defs\<close>)
  next
    case unknown
    have "(proto_step timely)\<^sup>*\<^sup>* s (s\<lparr>pr_pc := Dispatch\<rparr>)" using e_poll [OF assms(1) unknown(1)] by (rule r_into_rtranclp)
    then have "(proto_step timely)\<^sup>*\<^sup>* s (s\<lparr>pr_pc := Dispatch\<rparr>\<lparr>pr_pc := Idle\<rparr>)"
      by (rule more) (rule e_unknown, use unknown in simp_all)
    then show ?thesis
      by (rule run_exI) (use assms unknown in \<open>auto simp: pass_defs\<close>)
  next
    case dummy
    have "(proto_step timely)\<^sup>*\<^sup>* s (put_e2m (\<lambda>e. e\<lparr>state := raw_state starting_payload\<rparr>) (s\<lparr>pr_pc := Entry\<rparr>)\<lparr>pr_pc := InDummy\<rparr>)"
      by (rule more [OF run_start [OF assms(1) dummy(1,2)]]) (rule e_dummy, use dummy in simp_all)
    then show ?thesis
      by (rule run_exI) (use assms dummy in \<open>auto simp: pass_defs\<close>)
  next
    case image
    define rsp where "rsp = validatePayload (pr_mem s) (pr_entry s) (payload_size_ipc (m2e (pr_ipc s))) (payload_crc (m2e (pr_ipc s)))"
    note run = run_answer [OF assms(1) image rsp_def [symmetric], of timely]
    show ?thesis
    proof (cases "rsp = crc_ok")
      case True
      let ?u = "put_e2m (\<lambda>e. e\<lparr>state := raw_state starting_payload, cmd_resp := raw_Response crc_ok, cmd_ack := pr_ack s + 1\<rparr>)
          (s\<lparr>pr_validated := pr_entry s # pr_validated s, pr_pc := Enter\<rparr>)"
      have "(proto_step timely)\<^sup>*\<^sup>* s ?u" using run True by simp
      moreover have "proto_step timely ?u (?u\<lparr>pr_pc := InPayload (pr_entry ?u), pr_entered := pr_entry ?u # pr_entered ?u\<rparr>)"
        by (rule e_enter) simp
      ultimately have "(proto_step timely)\<^sup>*\<^sup>* s (?u\<lparr>pr_pc := InPayload (pr_entry ?u), pr_entered := pr_entry ?u # pr_entered ?u\<rparr>)"
        by (rule more)
      then show ?thesis
        by (rule run_exI) (use assms image True in \<open>auto simp: pass_defs rsp_def\<close>)
    next
      case False
      let ?u = "put_e2m (\<lambda>e. e\<lparr>state := raw_state starting_payload, cmd_resp := raw_Response rsp, cmd_ack := pr_ack s + 1\<rparr>)
          (s\<lparr>pr_pc := Refuse\<rparr>)"
      have "(proto_step timely)\<^sup>*\<^sup>* s ?u" using run False by simp
      moreover have "proto_step timely ?u (put_e2m (\<lambda>e. e\<lparr>state := raw_state monitor_ready\<rparr>) (?u\<lparr>pr_pc := Idle\<rparr>))"
        by (rule e_refuse) simp
      ultimately have "(proto_step timely)\<^sup>*\<^sup>* s (put_e2m (\<lambda>e. e\<lparr>state := raw_state monitor_ready\<rparr>) (?u\<lparr>pr_pc := Idle\<rparr>))"
        by (rule more)
      then show ?thesis
        by (rule run_exI) (use assms image False in \<open>auto simp: pass_defs rsp_def\<close>)
    qed
  qed
qed

section \<open>Properties\<close>


text \<open>
  C2: the monitor enters only what it has validated. If the manager does not give up on a start command
  before the monitor has dealt with it, then in every reachable state each payload address that was
  entered is one for which validation succeeded, although the monitor reads the address from
  shared memory again after its acknowledgement has allowed the manager to send the next command.
\<close>

theorem protocol_enters_validated:
  assumes "proto_reach True s"
  shows "set (pr_entered s) \<subseteq> set (pr_validated s)"
  using stable_inv_reach [OF assms] by (simp add: stable_inv_def)

text \<open>A first state for concrete runs, with a valid ELF payload in memory.\<close>

definition demo_proto :: proto where
  "demo_proto = \<lparr>pr_ipc = zero_IpcBlock\<lparr>e2m := (e2m zero_IpcBlock)\<lparr>state := raw_state invalid_state\<rparr>\<rparr>,
     pr_mem = mem_write (\<lambda>_. 0) 0x800100000 (encode_header elf_header), pr_pc = Booting, pr_mgr = M_idle, pr_ipi = False,
     pr_validated = [], pr_entered = []\<rparr>"

definition demo_cmd :: "u64 \<Rightarrow> start_cmd" where
  "demo_cmd a = \<lparr>sc_entry = a, sc_size = 0, sc_crc = 0, sc_argument = 0\<rparr>"

lemma reach_demo_ready:
  "\<exists>s. proto_reach t s \<and> pr_mgr s = M_ready (demo_cmd a) \<and> pr_pc s = Idle \<and> pr_seq s = 0 \<and> pr_ack s = 0 \<and>
     pr_state s = raw_state monitor_ready \<and> pr_validated s = [] \<and> pr_entered s = [] \<and>
     validatePayload (pr_mem s) 0x800100000 0 0 = crc_ok"
proof -
  let ?s1 = "put_e2m (\<lambda>e. e\<lparr>state := raw_state monitor_ready\<rparr>) (demo_proto\<lparr>pr_pc := Idle\<rparr>)"
  have "proto_reach t demo_proto"
    by (rule r_init) (simp add: proto_init_def demo_proto_def zero_IpcBlock_def)
  then have "proto_reach t ?s1" by (rule r_step) (rule e_boot, simp add: demo_proto_def)
  then have "proto_reach t (?s1\<lparr>pr_mgr := M_ready (demo_cmd a)\<rparr>)"
    by (rule r_step) (rule m_check, simp_all add: demo_proto_def)
  moreover have "header_ok elf_header"
    by (simp add: header_ok_def elf_header_def ABI_MAGIC_NUMBER_def ABI_MAJOR_def ABI_MINOR_def)
  ultimately show ?thesis
    by (intro exI [of _ "?s1\<lparr>pr_mgr := M_ready (demo_cmd a)\<rparr>"])
      (simp add: demo_proto_def zero_IpcBlock_def validatePayload_ok elf_header_in_memory)
qed

text \<open>A run that starts the payload: issued, validated and ready to enter.\<close>

lemma reach_demo_enter:
  "\<exists>s. proto_reach t s \<and> pr_pc s = Enter \<and> pr_mgr s = M_wait \<and> pr_entry s = 0x800100000 \<and>
     pr_validated s = [0x800100000] \<and> pr_entered s = [] \<and> pr_seq s = 1"
proof -
  obtain s where s: "proto_reach t s" "pr_mgr s = M_ready (demo_cmd 0x800100000)" "pr_pc s = Idle" "pr_seq s = 0" "pr_ack s = 0"
      "pr_validated s = []" "pr_entered s = []" "validatePayload (pr_mem s) 0x800100000 0 0 = crc_ok"
    using reach_demo_ready by blast
  obtain s1 where s1: "proto_reach t s1" "pr_mgr s1 = M_wait" "pr_pc s1 = Idle" "pr_seq s1 = 1" "pr_ack s1 = 0"
      "pr_validated s1 = []" "pr_entered s1 = []" "pr_cmd s1 = Command_start_payload" "pr_entry s1 = 0x800100000"
      "validatePayload (pr_mem s1) (pr_entry s1) (payload_size_ipc (m2e (pr_ipc s1))) (payload_crc (m2e (pr_ipc s1))) = crc_ok"
    using reach_issue [OF s(1,2)] s by (auto simp: demo_cmd_def)
  have "pr_seq s1 \<noteq> pr_ack s1" "pr_entry s1 \<noteq> DUMMY_PAYLOAD" using s1 by (simp_all add: DUMMY_PAYLOAD_def)
  from reach_validated [OF s1(1,3) this(1) s1(8) this(2) s1(10)] show ?thesis using s1 by auto
qed


theorem protocol_enters_validated_witness:
  "\<exists>s. proto_reach True s \<and> pr_entered s = [0x800100000] \<and> 0x800100000 \<in> set (pr_validated s)"
proof -
  obtain s where s: "proto_reach True s" "pr_pc s = Enter" "pr_entry s = 0x800100000" "pr_entered s = []"
    using reach_demo_enter by blast
  let ?s = "s\<lparr>pr_pc := InPayload (pr_entry s), pr_entered := pr_entry s # pr_entered s\<rparr>"
  have "proto_reach True ?s" using r_step [OF s(1) e_enter [OF s(2)]] .
  with protocol_enters_validated [OF this] s show ?thesis by (intro exI [of _ ?s]) simp
qed

text \<open>
  C37: the proviso of timeliness is needed: if the manager's one-second wait ends before the monitor has
  looked at the command and the manager starts the next payload at once, there is a run in which
  the monitor enters an address that was never validated. It validates the first image, and its
  acknowledgement lets the manager overwrite the entry address before the monitor reads it again
  for \<open>enterEL1Payload\<close>.
\<close>

theorem protocol_untimely_race:
  "\<exists>s. proto_reach False s \<and> pr_entered s = [0x804100000] \<and> pr_validated s = [0x800100000]"
proof -
  let ?c = "demo_cmd 0x804100000"
  obtain s where s: "proto_reach False s" "pr_mgr s = M_ready (demo_cmd 0x800100000)" "pr_pc s = Idle" "pr_seq s = 0" "pr_ack s = 0"
      "pr_state s = raw_state monitor_ready" "pr_validated s = []" "pr_entered s = []"
      "validatePayload (pr_mem s) 0x800100000 0 0 = crc_ok"
    using reach_demo_ready by blast
  obtain s1 where s1: "proto_reach False s1" "pr_mgr s1 = M_wait" "pr_pc s1 = Idle" "pr_seq s1 = 1" "pr_ack s1 = 0"
      "pr_state s1 = raw_state monitor_ready" "pr_validated s1 = []" "pr_entered s1 = []" "pr_cmd s1 = Command_start_payload"
      "pr_entry s1 = 0x800100000"
      "validatePayload (pr_mem s1) (pr_entry s1) (payload_size_ipc (m2e (pr_ipc s1))) (payload_crc (m2e (pr_ipc s1))) = crc_ok"
    using reach_issue [OF s(1,2)] s by (auto simp: demo_cmd_def)
  let ?s2 = "s1\<lparr>pr_mgr := M_idle\<rparr>" and ?s3 = "s1\<lparr>pr_mgr := M_ready ?c\<rparr>"
  have "proto_reach False ?s2" using r_step [OF s1(1) m_return [OF s1(2), of False]] by simp
  then have r3: "proto_reach False ?s3" using r_step m_check [of ?s2 False ?c] s1(6) by fastforce
  obtain s4 where s4: "proto_reach False s4" "pr_pc s4 = Enter" "pr_mgr s4 = M_ready ?c" "pr_ack s4 = pr_seq s4"
      "pr_validated s4 = [0x800100000]" "pr_entered s4 = []"
    using reach_validated [OF r3] s1 by (auto simp: DUMMY_PAYLOAD_def)
  let ?s5 = "put_m2e (\<lambda>m. m\<lparr>stdout_rdpos := stdout_wrpos (e2m (pr_ipc s4))\<rparr>) (s4\<lparr>pr_mgr := M_writing 0 ?c\<rparr>)"
  let ?s6 = "put_m2e (write_field 0 ?c) (?s5\<lparr>pr_mgr := M_writing (Suc 0) ?c\<rparr>)"
  let ?s7 = "?s6\<lparr>pr_pc := InPayload (pr_entry ?s6), pr_entered := pr_entry ?s6 # pr_entered ?s6\<rparr>"
  have "proto_reach False ?s5" using r_step [OF s4(1) m_go [OF s4(3,4)]] .
  then have "proto_reach False ?s6" by (rule r_step) (rule m_write, simp_all)
  then have "proto_reach False ?s7" by (rule r_step) (rule e_enter, use s4(2) in simp)
  with s4(5,6) show ?thesis
    by (intro exI [of _ ?s7]) (simp add: write_field_def demo_cmd_def)
qed

end
