(* ===== verification/Polling.thy ===== *)
theory Polling
  imports Bm_Prelude
begin

text \<open>
  Bounded polling: the waiting loops of the manager sleep, look at the shared state, and either return what they
  see there or go on, until their iterations are used up. The locale states the two equations such a loop has to
  satisfy; its lemmas say when and with what it returns.
\<close>

text \<open>The state after \<open>k\<close> sleeps, the first of which is number \<open>i\<close>.\<close>

fun after_sleeps :: "(nat \<Rightarrow> 'h \<Rightarrow> 'h) \<Rightarrow> nat \<Rightarrow> nat \<Rightarrow> 'h \<Rightarrow> 'h" where
  "after_sleeps sl i 0 h = h"
| "after_sleeps sl i (Suc k) h = after_sleeps sl (Suc i) k (sl i h)"

locale polling =
  fixes loop :: "nat \<Rightarrow> nat \<Rightarrow> 'h \<Rightarrow> 'h \<times> 'r"
    and sl :: "nat \<Rightarrow> 'h \<Rightarrow> 'h"
    and test :: "'h \<Rightarrow> 'r option"
    and timeout :: 'r
  assumes loop_0: "loop i 0 h = (h, timeout)"
    and loop_Suc: "loop i (Suc n) h = (case test (sl i h) of Some r \<Rightarrow> (sl i h, r) | None \<Rightarrow> loop (Suc i) n (sl i h))"
begin

text \<open>The loop returns at the first poll that yields an answer.\<close>

lemma first_answer:
  "k < n \<Longrightarrow> (\<And>j. j < k \<Longrightarrow> test (after_sleeps sl i (Suc j) h) = None) \<Longrightarrow>
   test (after_sleeps sl i (Suc k) h) = Some r \<Longrightarrow> loop i n h = (after_sleeps sl i (Suc k) h, r)"
proof (induction n arbitrary: i k h)
  case (Suc n)
  show ?case
  proof (cases k)
    case 0
    with Suc.prems(3) show ?thesis by (simp add: loop_Suc)
  next
    case (Suc k')
    have "test (sl i h) = None" using Suc.prems(2) [of 0] Suc by simp
    moreover have "test (after_sleeps sl (Suc i) (Suc j) (sl i h)) = None" if "j < k'" for j
      using Suc.prems(2) [of "Suc j"] that Suc by simp
    ultimately show ?thesis using Suc.IH [of k' "Suc i" "sl i h"] Suc.prems(1,3) Suc by (simp add: loop_Suc)
  qed
qed simp

text \<open>Without any answer it returns the time-out after all its sleeps.\<close>

lemma no_answer:
  "(\<And>j. j < n \<Longrightarrow> test (after_sleeps sl i (Suc j) h) = None) \<Longrightarrow> loop i n h = (after_sleeps sl i n h, timeout)"
proof (induction n arbitrary: i h)
  case (Suc n)
  have "test (sl i h) = None" using Suc.prems [of 0] by simp
  moreover have "test (after_sleeps sl (Suc i) (Suc j) (sl i h)) = None" if "j < n" for j
    using Suc.prems [of "Suc j"] that by simp
  ultimately show ?case using Suc.IH [of "Suc i" "sl i h"] by (simp add: loop_Suc)
qed (simp add: loop_0)

text \<open>Every result is one of the two.\<close>

lemma loop_result: "loop i n h = (h', r) \<Longrightarrow> test h' = Some r \<or> r = timeout"
proof (induction n arbitrary: i h)
  case (Suc n)
  then show ?case by (auto simp: loop_Suc split: option.splits)
qed (simp add: loop_0)

lemma answer_now: "test (sl i h) = Some r \<Longrightarrow> 0 < n \<Longrightarrow> loop i n h = (sl i h, r)"
  by (cases n) (simp_all add: loop_Suc)

end

end
