(* ===== verification/Configuration.thy ===== *)
theory Configuration
  imports Bm_Types
begin

text \<open>
  The configuration file of the manager, \<open>/etc/bmboot.conf\<close> (\<open>src/manager/configuration.cpp\<close>): a single number in
  decimal. The main result is the round trip with its bounds.
\<close>

section \<open>Reading the file\<close>

text \<open>
  \<open>f >> config.cntfrq\<close>: white space is skipped, then an optional sign and decimal digits are read;
  no digits, or a value that does not fit 32 bits, is a failure. A minus sign negates modulo 2^32.
\<close>

definition is_space :: "char \<Rightarrow> bool" where
  "is_space c \<longleftrightarrow> of_char c \<in> {9, 10, 11, 12, 13, 32 :: nat}"

definition is_digit :: "char \<Rightarrow> bool" where
  "is_digit c \<longleftrightarrow> 48 \<le> (of_char c :: nat) \<and> of_char c \<le> (57 :: nat)"

definition decimal :: "string \<Rightarrow> nat" where
  "decimal s = foldl (\<lambda>n c. 10 * n + (of_char c - 48)) 0 s"

definition read_u32 :: "string \<Rightarrow> u32 option" where
  "read_u32 s =
     (let t = dropWhile is_space s;
          neg = (t \<noteq> [] \<and> hd t = CHR ''-'');
          u = (if t \<noteq> [] \<and> (hd t = CHR ''-'' \<or> hd t = CHR ''+'') then tl t else t);
          digits = takeWhile is_digit u in
      if digits = [] \<or> 2 ^ 32 \<le> decimal digits then None
      else Some (if neg then - of_nat (decimal digits) else of_nat (decimal digits)))"

text \<open>\<open>ManagerConfiguration\<close> has this one member, the frequency of the generic timer. \<open>None\<close>: the file does not exist.\<close>

definition loadConfigurationFromDefaultFile :: "string option \<Rightarrow> u32 option" where
  "loadConfigurationFromDefaultFile f = (case f of None \<Rightarrow> None | Some s \<Rightarrow> read_u32 s)"

section \<open>Decimal numbers\<close>

lemma digit_char_code: "d < 10 \<Longrightarrow> (of_char (digit_char d) :: nat) = 48 + d"
  by (simp add: digit_char_def)

lemma to_string_digits: "list_all is_digit (to_string n)"
proof (induction n rule: to_string.induct)
  case (1 n)
  have "is_digit (digit_char d)" if "d < 10" for d using that by (simp add: is_digit_def digit_char_code)
  with 1 show ?case by (simp add: to_string.simps [of n])
qed

lemma to_string_not_empty: "to_string n \<noteq> []"
  by (simp add: to_string.simps [of n])

lemma decimal_to_string: "decimal (to_string n) = n"
proof (induction n rule: to_string.induct)
  case (1 n)
  then show ?case by (simp add: to_string.simps [of n] decimal_def digit_char_code)
qed

lemma takeWhile_digits:
  "list_all P xs \<Longrightarrow> rest = [] \<or> \<not> P (hd rest) \<Longrightarrow> takeWhile P (xs @ rest) = xs"
  by (induction xs) (auto simp: takeWhile_eq_Nil_iff)

lemma digit_not_other: "is_digit c \<Longrightarrow> \<not> is_space c \<and> c \<noteq> CHR ''-'' \<and> c \<noteq> CHR ''+''"
  by (auto simp: is_digit_def is_space_def)

lemma read_u32_number:
  assumes "list_all is_space ws" and "rest = [] \<or> \<not> is_digit (hd rest)"
  shows "read_u32 (ws @ to_string n @ rest) = (if n < 2 ^ 32 then Some (of_nat n) else None)"
proof -
  let ?t = "to_string n @ rest"
  obtain c cs where c: "to_string n = c # cs" "is_digit c"
    using to_string_not_empty [of n] to_string_digits [of n] by (cases "to_string n") auto
  have "dropWhile is_space (ws @ ?t) = dropWhile is_space ?t"
    using assms(1) by (induction ws) auto
  also have "\<dots> = ?t" using c digit_not_other [OF c(2)] by simp
  finally have t: "dropWhile is_space (ws @ ?t) = ?t" .
  have "takeWhile is_digit ?t = to_string n"
    using takeWhile_digits [OF to_string_digits assms(2)] .
  with t show ?thesis
    using c digit_not_other [OF c(2)] decimal_to_string [of n] by (auto simp: read_u32_def Let_def)
qed

section \<open>Properties\<close>

text \<open>
  C27: a frequency that was written to the configuration file in decimal, possibly after white space and followed
  by anything but a digit, is read back exactly if it fits 32 bits; a larger number, like a missing file, is
  reported as a failure and never truncated.
\<close>

theorem configuration_roundtrip:
  assumes "list_all is_space ws" and "rest = [] \<or> \<not> is_digit (hd rest)"
  shows "loadConfigurationFromDefaultFile (Some (ws @ to_string n @ rest)) =
      (if n < 2 ^ 32 then Some (of_nat n) else None) \<and>
    loadConfigurationFromDefaultFile None = None"
  using read_u32_number [OF assms] by (simp add: loadConfigurationFromDefaultFile_def)

theorem configuration_roundtrip_witness:
  "loadConfigurationFromDefaultFile (Some ('' '' @ to_string 99990005 @ [CHR 0x0A])) = Some 99990005 \<and>
   loadConfigurationFromDefaultFile (Some (to_string 4294967296)) = None"
proof -
  have "list_all is_space '' ''" "\<not> is_digit (CHR 0x0A)" by (simp_all add: is_space_def is_digit_def)
  then show ?thesis
    using configuration_roundtrip [of "'' ''" "[CHR 0x0A]" 99990005] configuration_roundtrip [of "[]" "[]" 4294967296]
    by simp
qed

end
