(* ===== verification/Domain.thy ===== *)
theory Domain
  imports Polling Zynqmp Stdout_Channel Configuration
begin

text \<open>
  The manager's view of a domain: \<open>src/manager/domain.cpp\<close>. The
  state is the manager's static data, physical memory, the IPC blocks and the device registers. What
  the code gets from outside is collected in \<open>manager_env\<close>: results of the operating system, the
  embedded monitor images (generated at build time), and what the other cores do to the shared state
  while the manager sleeps and once they are released. Every operation returns the new state and its result; \<open>None\<close> stands for
  \<open>std::terminate\<close> or an access through a null pointer.
\<close>

section \<open>State\<close>

datatype DomainGeneralState = inReset | gs_unavailable | monitorStarted

record host =
  s_devmem_handle :: int
  domain_general_state :: "DomainIndex \<Rightarrow> DomainGeneralState"
  h_mem :: memory
  h_ipc :: "DomainIndex \<Rightarrow> IpcBlock"
  h_io :: mmio

text \<open>
  \<open>os_sleep i h\<close> is the state after the \<open>i\<close>-th \<open>usleep\<close> of a waiting loop that starts it in \<open>h\<close>;
  \<open>os_release d h\<close> is the state once the core of \<open>d\<close> has been let out of reset in \<open>h\<close>: from there on the core runs, on what
  it finds in memory, at the same time as the manager;
  \<open>os_conf\<close> is the content of \<open>/etc/bmboot.conf\<close>, if the file can be read.
\<close>

record manager_env =
  os_open :: int
  os_map :: os_mmap
  os_stack :: bytes
  os_sleep :: "nat \<Rightarrow> host \<Rightarrow> host"
  os_release :: "DomainIndex \<Rightarrow> host \<Rightarrow> host"
  os_conf :: "string option"
  monitor_image :: "DomainIndex \<Rightarrow> bytes"

abbreviation inbox :: "host \<Rightarrow> DomainIndex \<Rightarrow> executor_to_manager" where
  "inbox h d \<equiv> e2m (h_ipc h d)"

abbreviation outbox :: "host \<Rightarrow> DomainIndex \<Rightarrow> manager_to_executor" where
  "outbox h d \<equiv> m2e (h_ipc h d)"

definition set_ipc :: "DomainIndex \<Rightarrow> IpcBlock \<Rightarrow> host \<Rightarrow> host" where
  "set_ipc d b h = h\<lparr>h_ipc := (h_ipc h)(d := b)\<rparr>"

definition set_outbox :: "DomainIndex \<Rightarrow> manager_to_executor \<Rightarrow> host \<Rightarrow> host" where
  "set_outbox d o' h = set_ipc d ((h_ipc h d)\<lparr>m2e := o'\<rparr>) h"

definition set_general_state :: "DomainIndex \<Rightarrow> DomainGeneralState \<Rightarrow> host \<Rightarrow> host" where
  "set_general_state d g h = h\<lparr>domain_general_state := (domain_general_state h)(d := g)\<rparr>"

section \<open>Operating system resources\<close>

definition get_devmem_handle :: "manager_env \<Rightarrow> host \<Rightarrow> host \<times> (ErrorCode + int)" where
  "get_devmem_handle env h =
     (if s_devmem_handle h < 0
      then let h1 = h\<lparr>s_devmem_handle := os_open env\<rparr> in
           if s_devmem_handle h1 < 0 then (h1, Inl dev_mem_access_failed) else (h1, Inr (s_devmem_handle h1))
      else (h, Inr (s_devmem_handle h)))"

text \<open>The length of the mapping: the size of the binary rounded up to pages of 4096 bytes.\<close>

definition size_aligned :: "nat \<Rightarrow> u64" where
  "size_aligned n = (let alignment = 4096 in (of_nat n + alignment - 1) AND NOT (alignment - 1))"

definition load_to_physical_memory :: "manager_env \<Rightarrow> u64 \<Rightarrow> bytes \<Rightarrow> host \<Rightarrow> host \<times> MaybeError" where
  "load_to_physical_memory env address binary h =
     (case get_devmem_handle env h of
        (h1, Inl e) \<Rightarrow> (h1, Some e)
      | (h1, Inr fd) \<Rightarrow>
          let code_area = Mmap_new (os_map env) (size_aligned (length binary)) address in
          (case Mmap_data code_area of
             None \<Rightarrow> (h1, Some mmap_failed)
           | Some p \<Rightarrow> (h1\<lparr>h_mem := mem_write (h_mem h1) p binary\<rparr>, None)))"

section \<open>Domain state\<close>

definition getState :: "host \<Rightarrow> DomainIndex \<Rightarrow> DomainState" where
  "getState h d =
     (if domain_general_state h d = inReset then in_reset
      else if domain_general_state h d = gs_unavailable then unavailable
      else decode_state (state (inbox h d)))"

text \<open>The polling loop of \<open>awaitMonitorStartup\<close>: iteration \<open>i\<close>, with \<open>n\<close> iterations left.\<close>

fun await_loop :: "manager_env \<Rightarrow> DomainIndex \<Rightarrow> nat \<Rightarrow> nat \<Rightarrow> host \<Rightarrow> host \<times> MaybeError" where
  "await_loop env d i 0 h = (h, Some monitor_start_timed_out)"
| "await_loop env d i (Suc n) h =
     (let h1 = os_sleep env i h in
      if getState h1 d = monitor_ready then (h1, None) else await_loop env d (Suc i) n h1)"

definition awaitMonitorStartup :: "manager_env \<Rightarrow> DomainIndex \<Rightarrow> host \<Rightarrow> host \<times> MaybeError" where
  "awaitMonitorStartup env d h = await_loop env d 0 (500 div 10) h"

section \<open>Opening a domain\<close>

definition sizeof_cookie :: u64 where "sizeof_cookie = 4"

definition cookie_address :: "PhysicalMemoryRanges \<Rightarrow> u64" where
  "cookie_address ranges = monitor_address ranges + monitor_size ranges - sizeof_cookie"

definition open_domain :: "manager_env \<Rightarrow> DomainIndex \<Rightarrow> host \<Rightarrow> (host \<times> (ErrorCode + DomainIndex)) option" where
  "open_domain env d h =
     (case get_devmem_handle env h of
        (h1, Inl e) \<Rightarrow> Some (h1, Inl e)
      | (h1, Inr fd) \<Rightarrow>
          (case getPhysicalMemoryRanges d of
             None \<Rightarrow> None
           | Some ranges \<Rightarrow>
               if \<not> os_map env (monitor_ipc_address ranges) (monitor_ipc_size ranges) then Some (h1, Inl mmap_failed)
               else if \<not> os_map env (monitor_address ranges) (monitor_size ranges) then Some (h1, Inl mmap_failed)
               else
                 (case isCoreInReset (os_map env) (h_io h1) d of
                    None \<Rightarrow> None
                  | Some True \<Rightarrow> Some (set_general_state d inReset h1, Inr d)
                  | Some False \<Rightarrow>
                      let cookie = le_word (mem_read (h_mem h1) (cookie_address ranges) (unat sizeof_cookie)) in
                      if cookie = MONITOR_CODE_COOKIE then Some (set_general_state d monitorStarted h1, Inr d)
                      else Some (set_general_state d gs_unavailable h1, Inr d))))"

section \<open>Starting the monitor\<close>

definition init_ipc :: "u32 \<Rightarrow> IpcBlock" where
  "init_ipc freq = zero_IpcBlock
     \<lparr>e2m := (e2m zero_IpcBlock)\<lparr>state := raw_state invalid_state\<rparr>,
      m2e := (m2e zero_IpcBlock)\<lparr>cntfrq := freq\<rparr>\<rparr>"

text \<open>The call of \<open>bootCore\<close>. When it succeeds the core is running, and may have changed the shared state by the time the call returns.\<close>

definition release_core :: "manager_env \<Rightarrow> DomainIndex \<Rightarrow> u64 \<Rightarrow> host \<Rightarrow> (host \<times> MaybeError) option" where
  "release_core env d addr h =
     (case bootCore (os_map env) (h_io h) d addr of
        None \<Rightarrow> None
      | Some (io, Some e) \<Rightarrow> Some (h\<lparr>h_io := io\<rparr>, Some e)
      | Some (io, None) \<Rightarrow> Some (os_release env d (h\<lparr>h_io := io\<rparr>), None))"

definition startup_with :: "manager_env \<Rightarrow> DomainIndex \<Rightarrow> bytes \<Rightarrow> host \<Rightarrow> (host \<times> MaybeError) option" where
  "startup_with env d monitor_binary h =
     (case loadConfigurationFromDefaultFile (os_conf env) of
        None \<Rightarrow> Some (h, Some configuration_file_error)
      | Some freq \<Rightarrow>
        if domain_general_state h d \<noteq> inReset then Some (h, Some bad_domain_state)
        else (case get_devmem_handle env h of
          (h1, Inl e) \<Rightarrow> Some (h1, Some e)
        | (h1, Inr fd) \<Rightarrow>
          (case getPhysicalMemoryRanges d of
            None \<Rightarrow> None
          | Some ranges \<Rightarrow>
            if \<not> os_map env (monitor_address ranges) (monitor_size ranges) then Some (h1, Some mmap_failed)
            else if length monitor_binary > unat (monitor_size ranges - sizeof_cookie) then Some (h1, Some program_too_large)
            else
              let mem1 = mem_write (h_mem h1) (monitor_address ranges) monitor_binary;
                  mem2 = mem_write mem1 (cookie_address ranges) (le_bytes (unat sizeof_cookie) MONITOR_CODE_COOKIE);
                  h2 = set_ipc d (init_ipc freq) (h1\<lparr>h_mem := mem2\<rparr>) in
              (case release_core env d (monitor_address ranges) h2 of
                 None \<Rightarrow> None
               | Some (h3, Some e) \<Rightarrow> Some (h3, Some e)
               | Some (h3, None) \<Rightarrow> Some (awaitMonitorStartup env d (set_general_state d monitorStarted h3))))))"

definition startup :: "manager_env \<Rightarrow> DomainIndex \<Rightarrow> host \<Rightarrow> (host \<times> MaybeError) option" where
  "startup env d h =
     (if d = max_domain then Some (h, Some hw_resource_unavailable) else startup_with env d (monitor_image env d) h)"

section \<open>Starting a payload\<close>

text \<open>The stores of \<open>startPayloadAt\<close> up to the new sequence number.\<close>

definition issue_start :: "DomainIndex \<Rightarrow> u64 \<Rightarrow> u64 \<Rightarrow> u32 \<Rightarrow> u64 \<Rightarrow> host \<Rightarrow> host" where
  "issue_start d entry_address sz crc argument h =
     set_outbox d ((outbox h d)
       \<lparr>stdout_rdpos := stdout_wrpos (inbox h d), payload_entry_address := entry_address,
        payload_size_ipc := sz, payload_crc := crc, payload_argument := argument,
        cmd := Command_start_payload, cmd_seq := cmd_seq (outbox h d) + 1\<rparr>) h"

text \<open>What one poll concludes from the answer and the state; \<open>None\<close>: keep waiting.\<close>

definition poll_start :: "host \<Rightarrow> DomainIndex \<Rightarrow> MaybeError option" where
  "poll_start h d =
     (let by_state =
            (if getState h d = running_payload then Some None
             else if getState h d = crashed_payload then Some (Some payload_crashed_during_startup)
             else None) in
      if cmd_ack (inbox h d) = cmd_seq (outbox h d)
      then (if cmd_resp (inbox h d) = raw_Response crc_ok then by_state
            else if cmd_resp (inbox h d) = raw_Response crc_mismatched then Some (Some payload_checksum_mismatch)
            else if cmd_resp (inbox h d) = raw_Response image_malformed then Some (Some payload_image_malformed)
            else if cmd_resp (inbox h d) = raw_Response abi_incompatible then Some (Some payload_abi_incompatible)
            else Some (Some unknown_error))
      else by_state)"

fun start_loop :: "manager_env \<Rightarrow> DomainIndex \<Rightarrow> nat \<Rightarrow> nat \<Rightarrow> host \<Rightarrow> host \<times> MaybeError" where
  "start_loop env d i 0 h = (h, Some payload_start_timed_out)"
| "start_loop env d i (Suc n) h =
     (let h1 = os_sleep env i h in
      case poll_start h1 d of Some r \<Rightarrow> (h1, r) | None \<Rightarrow> start_loop env d (Suc i) n h1)"

definition startPayloadAt ::
    "manager_env \<Rightarrow> DomainIndex \<Rightarrow> u64 \<Rightarrow> u64 \<Rightarrow> u32 \<Rightarrow> u64 \<Rightarrow> host \<Rightarrow> host \<times> MaybeError" where
  "startPayloadAt env d entry_address sz crc argument h =
     (if getState h d \<noteq> monitor_ready then (h, Some bad_domain_state)
      else if cmd_ack (inbox h d) \<noteq> cmd_seq (outbox h d) then (h, Some bad_domain_state)
      else start_loop env d 0 (1000 div 10) (issue_start d entry_address sz crc argument h))"

definition startDummyPayload :: "manager_env \<Rightarrow> DomainIndex \<Rightarrow> host \<Rightarrow> host" where
  "startDummyPayload env d h = fst (startPayloadAt env d 0xbaadf00d 0 0 0 h)"

definition loadAndStartPayload ::
    "manager_env \<Rightarrow> DomainIndex \<Rightarrow> bytes \<Rightarrow> u32 \<Rightarrow> u64 \<Rightarrow> host \<Rightarrow> (host \<times> MaybeError) option" where
  "loadAndStartPayload env d payload_binary payload_crc32 argument h =
     (if getState h d \<noteq> monitor_ready then Some (h, Some bad_domain_state)
      else (case getPhysicalMemoryRanges d of
        None \<Rightarrow> None
      | Some ranges \<Rightarrow>
        if length payload_binary > unat (payload_size ranges) then Some (h, Some program_too_large)
        else (case load_to_physical_memory env (payload_address ranges) payload_binary h of
          (h1, Some e) \<Rightarrow> Some (h1, Some e)
        | (h1, None) \<Rightarrow>
            Some (startPayloadAt env d (payload_address ranges) (of_nat (length payload_binary)) payload_crc32 argument h1))))"

section \<open>ELF payloads\<close>

text \<open>
  The ELF loader is a library outside the repository, a parameter: given the two call-backs it
  yields the stores it performs (at the physical addresses behind the pointers that \<open>alloc\<close>
  returned), whether it reports an error, and two fields of the header it parsed.
\<close>

datatype pread_result = PreadOk bytes | PreadFailed | PreadOutOfBounds

text \<open>\<open>ctx.pread\<close>: the bound is computed in \<open>size_t\<close> and may wrap around.\<close>

definition elf_pread :: "bytes \<Rightarrow> u64 \<Rightarrow> u64 \<Rightarrow> pread_result" where
  "elf_pread payload_binary nb offset =
     (if offset + nb < of_nat (length payload_binary)
      then (if unat offset + unat nb \<le> length payload_binary
            then PreadOk (take (unat nb) (drop (unat offset) payload_binary)) else PreadOutOfBounds)
      else PreadFailed)"

text \<open>The allocation call-back; the result is the physical address behind the returned pointer.\<close>

definition elf_alloc :: "PhysicalMemoryRanges \<Rightarrow> u64 \<Rightarrow> u64 \<Rightarrow> u64 \<Rightarrow> u64 option" where
  "elf_alloc ranges phys virt sz =
     (if phys < payload_address ranges \<or> phys + sz > payload_address ranges + payload_size ranges then None
      else Some phys)"

record elf_result =
  elf_stores :: "(u64 \<times> bytes) list"
  elf_err :: bool
  e_entry :: u64
  base_load_paddr :: u64

type_synonym elf_loader =
  "(u64 \<Rightarrow> u64 \<Rightarrow> pread_result) \<Rightarrow> (u64 \<Rightarrow> u64 \<Rightarrow> u64 \<Rightarrow> u64 option) \<Rightarrow> elf_result"

definition loadElfPayload ::
    "manager_env \<Rightarrow> elf_loader \<Rightarrow> DomainIndex \<Rightarrow> bytes \<Rightarrow> u64 \<Rightarrow> host \<Rightarrow> (host \<times> MaybeError) option" where
  "loadElfPayload env el_load d payload_binary argument h =
     (if getState h d \<noteq> monitor_ready then Some (h, Some bad_domain_state)
      else (case getPhysicalMemoryRanges d of
        None \<Rightarrow> None
      | Some ranges \<Rightarrow>
        (case get_devmem_handle env h of
          (h1, Inl e) \<Rightarrow> Some (h1, Some e)
        | (h1, Inr fd) \<Rightarrow>
            if \<not> Mmap_bool (Mmap_new (os_map env) (payload_size ranges) (payload_address ranges))
            then Some (h1, Some mmap_failed)
            else
              let r = el_load (elf_pread payload_binary) (elf_alloc ranges);
                  h2 = h1\<lparr>h_mem := fold (\<lambda>(a, bs) m. mem_write m a bs) (elf_stores r) (h_mem h1)\<rparr> in
              if elf_err r then Some (h2, Some program_too_large)
              else Some (startPayloadAt env d (e_entry r + base_load_paddr r) 0 0 argument h2))))"

section \<open>Stopping and inspecting\<close>

definition kill_message :: bytes where
  "kill_message = map of_nat [1..<21]"

definition terminatePayload :: "manager_env \<Rightarrow> DomainIndex \<Rightarrow> host \<Rightarrow> (host \<times> MaybeError) option" where
  "terminatePayload env d h =
     (if domain_general_state h d \<noteq> monitorStarted then Some (h, Some bad_domain_state)
      else (case get_devmem_handle env h of
        (h1, Inl e) \<Rightarrow> Some (h1, Some e)
      | (h1, Inr fd) \<Rightarrow>
          let h2 = set_outbox d ((outbox h1 d)\<lparr>cmd := Command_noop\<rparr>) h1 in
          (case sendIpiMessage (os_map env) (os_stack env) (h_io h2) d kill_message of
             None \<Rightarrow> None
           | Some (io, _) \<Rightarrow> Some (awaitMonitorStartup env d (h2\<lparr>h_io := io\<rparr>)))))"

definition ensureReadyToLoadPayload :: "manager_env \<Rightarrow> DomainIndex \<Rightarrow> host \<Rightarrow> (host \<times> MaybeError) option" where
  "ensureReadyToLoadPayload env d h =
     (let st = getState h d in
      if st = in_reset then startup env d h
      else if st = monitor_ready then Some (h, None)
      else if st = crashed_payload \<or> st = running_payload \<or> st = starting_payload then terminatePayload env d h
      else Some (h, Some bad_domain_state))"

record CrashInfo =
  crash_pc :: u64
  crash_desc :: bytes

definition getCrashInfo :: "host \<Rightarrow> DomainIndex \<Rightarrow> CrashInfo" where
  "getCrashInfo h d = \<lparr>crash_pc = fault_pc (inbox h d), crash_desc = take sizeof_fault_desc (fault_desc (inbox h d))\<rparr>"

text \<open>The line \<open>dumpDebugInfo\<close> prints: both positions, at least three characters wide.\<close>

definition pad3 :: "string \<Rightarrow> string" where
  "pad3 s = replicate (3 - length s) (CHR '' '') @ s"

definition dumpDebugInfo :: "host \<Rightarrow> DomainIndex \<Rightarrow> string" where
  "dumpDebugInfo h d = ''debug: rdpos='' @ pad3 (to_string (unat (stdout_rdpos (outbox h d)))) @
     '' wrpos='' @ pad3 (to_string (unat (stdout_wrpos (inbox h d)))) @ [CHR 0x0A]"

section \<open>Lemmas\<close>

lemma set_ipc_simps [simp]:
  "h_ipc (set_ipc d b h) = (h_ipc h)(d := b)" "domain_general_state (set_ipc d b h) = domain_general_state h"
  "h_mem (set_ipc d b h) = h_mem h" "h_io (set_ipc d b h) = h_io h" "s_devmem_handle (set_ipc d b h) = s_devmem_handle h"
  by (simp_all add: set_ipc_def)

lemma set_general_state_simps [simp]:
  "domain_general_state (set_general_state d g h) = (domain_general_state h)(d := g)"
  "h_ipc (set_general_state d g h) = h_ipc h" "h_mem (set_general_state d g h) = h_mem h"
  "h_io (set_general_state d g h) = h_io h" "s_devmem_handle (set_general_state d g h) = s_devmem_handle h"
  by (simp_all add: set_general_state_def)

lemma set_outbox_simps [simp]:
  "h_ipc (set_outbox d ob h) = (h_ipc h)(d := (h_ipc h d)\<lparr>m2e := ob\<rparr>)"
  "domain_general_state (set_outbox d ob h) = domain_general_state h"
  "h_mem (set_outbox d ob h) = h_mem h" "h_io (set_outbox d ob h) = h_io h"
  "s_devmem_handle (set_outbox d ob h) = s_devmem_handle h"
  by (simp_all add: set_outbox_def)

lemma issue_start_simps [simp]:
  "h_mem (issue_start d a sz crc arg h) = h_mem h" "h_io (issue_start d a sz crc arg h) = h_io h"
  "domain_general_state (issue_start d a sz crc arg h) = domain_general_state h"
  "e2m (h_ipc (issue_start d a sz crc arg h) d) = e2m (h_ipc h d)"
  "d' \<noteq> d \<Longrightarrow> h_ipc (issue_start d a sz crc arg h) d' = h_ipc h d'"
  by (simp_all add: issue_start_def)

text \<open>Both waiting loops are bounded polling.\<close>

interpretation await_polling: polling "await_loop env d" "os_sleep env"
    "\<lambda>h. if getState h d = monitor_ready then Some None else None" "Some monitor_start_timed_out" for env d
  by unfold_locales (simp_all add: Let_def)

interpretation start_polling: polling "start_loop env d" "os_sleep env" "\<lambda>h. poll_start h d" "Some payload_start_timed_out" for env d
  by unfold_locales (simp_all add: Let_def)

lemma await_success:
  "await_loop env d i n h = (h', None) \<Longrightarrow> getState h' d = monitor_ready"
  using await_polling.loop_result [of env d i n h h' None] by (auto split: if_splits)

lemma poll_start_ok:
  "poll_start h d = Some None \<longleftrightarrow>
     getState h d = running_payload \<and>
     (cmd_ack (inbox h d) = cmd_seq (outbox h d) \<longrightarrow> cmd_resp (inbox h d) = raw_Response crc_ok)"
  by (auto simp: poll_start_def Let_def)

text \<open>What success of the operations means for the domain's state.\<close>

lemma startup_success:
  "startup env d h = Some (h', None) \<Longrightarrow> getState h' d = monitor_ready"
  by (auto simp: startup_def startup_with_def release_core_def Let_def awaitMonitorStartup_def
      split: if_splits option.splits prod.splits sum.splits dest: await_success)

lemma terminate_success:
  "terminatePayload env d h = Some (h', None) \<Longrightarrow> getState h' d = monitor_ready"
  by (auto simp: terminatePayload_def Let_def awaitMonitorStartup_def
      split: if_splits option.splits prod.splits sum.splits dest: await_success)

lemma start_success:
  assumes "startPayloadAt env d a sz crc arg h = (h', None)"
  shows "getState h d = monitor_ready \<and> cmd_ack (inbox h d) = cmd_seq (outbox h d) \<and>
    getState h' d = running_payload \<and>
    (cmd_ack (inbox h' d) = cmd_seq (outbox h' d) \<longrightarrow> cmd_resp (inbox h' d) = raw_Response crc_ok)"
proof -
  have st: "getState h d = monitor_ready" "cmd_ack (inbox h d) = cmd_seq (outbox h d)"
    using assms by (auto simp: startPayloadAt_def split: if_splits)
  then have "start_loop env d 0 100 (issue_start d a sz crc arg h) = (h', None)"
    using assms by (simp add: startPayloadAt_def)
  from start_polling.loop_result [OF this] have "poll_start h' d = Some None" by auto
  with st show ?thesis by (simp add: poll_start_ok)
qed

lemma load_success:
  "loadAndStartPayload env d img crc arg h = Some (h', None) \<Longrightarrow> getState h' d = running_payload"
  "loadElfPayload env el d img arg h = Some (h', None) \<Longrightarrow> getState h' d = running_payload"
  by (auto simp: loadAndStartPayload_def loadElfPayload_def Let_def dest: start_success
      split: if_splits option.splits prod.splits sum.splits)

text \<open>Addresses of a region that does not wrap around.\<close>

lemma unat_offset:
  "unat p0 + i < 2 ^ 64 \<Longrightarrow> unat ((p0 :: u64) + of_nat i) = unat p0 + i"
  by (simp add: unat_word_ariths unat_of_nat take_bit_eq_mod)

lemma region_offset:
  assumes "unat p0 + unat sz < 2 ^ 64" and "i < unat sz"
  shows "in_region (p0 + of_nat i) (p0, sz)"
  using assms unat_offset [of p0 i] unat_offset [of p0 "unat sz"]
  by (simp add: in_region_def word_le_nat_alt word_less_nat_alt)

lemma mem_write_in_region:
  assumes "unat p0 + unat sz < 2 ^ 64" and "n + length bs \<le> unat sz" and "\<not> in_region x (p0, sz)"
  shows "mem_write m (p0 + of_nat n) bs x = m x"
proof (rule mem_write_other)
  fix i
  assume "i < length bs"
  then have "in_region (p0 + of_nat (n + i)) (p0, sz)"
    using assms by (intro region_offset) simp_all
  with assms(3) show "x \<noteq> p0 + of_nat n + of_nat i"
    by (auto simp: add.assoc)
qed

lemma ranges_bounds:
  assumes "getPhysicalMemoryRanges d = Some r"
  shows "unat (payload_address r) + unat (payload_size r) < 2 ^ 64"
    and "unat (monitor_address r) + unat (monitor_size r) < 2 ^ 64"
    and "payload_size r = 0x2000000" and "monitor_size r = 0x10000"
  using assms by (cases d; auto simp: memmap_defs)+

text \<open>The memory after loading a payload: the image in place, everything outside the region untouched.\<close>

lemma load_to_physical_memory_eq:
  assumes "get_devmem_handle env h = (h1, Inr fd)"
    and "os_map env address (size_aligned (length binary))"
  shows "load_to_physical_memory env address binary h = (h1\<lparr>h_mem := mem_write (h_mem h1) address binary\<rparr>, None)"
  using assms by (simp add: load_to_physical_memory_def Let_def Mmap_data_def)

text \<open>The handle is opened once and then kept.\<close>

lemma devmem_stays_open:
  assumes "get_devmem_handle env h = (h1, Inr fd)" and "s_devmem_handle h2 = s_devmem_handle h1"
  shows "get_devmem_handle env h2 = (h2, Inr fd)"
  using assms by (auto simp: get_devmem_handle_def Let_def split: if_splits)

lemma get_devmem_handle_frame:
  "get_devmem_handle env h = (h1, r) \<Longrightarrow> h_mem h1 = h_mem h \<and> h_ipc h1 = h_ipc h \<and> h_io h1 = h_io h \<and>
     domain_general_state h1 = domain_general_state h"
  by (auto simp: get_devmem_handle_def Let_def split: if_splits)

lemma getState_cong:
  "domain_general_state h1 d = domain_general_state h d \<Longrightarrow> state (inbox h1 d) = state (inbox h d) \<Longrightarrow>
   getState h1 d = getState h d"
  by (simp add: getState_def)

lemma load_prepares:
  assumes "getState h d = monitor_ready" and "cmd_ack (inbox h d) = cmd_seq (outbox h d)"
    and "getPhysicalMemoryRanges d = Some r" and "length img \<le> unat (payload_size r)"
    and "get_devmem_handle env h = (h1, Inr fd)"
    and "os_map env (payload_address r) (size_aligned (length img))"
  shows "\<exists>h2. loadAndStartPayload env d img crc arg h = Some (start_loop env d 0 100 h2) \<and>
    mem_read (h_mem h2) (payload_address r) (length img) = img \<and>
    (\<forall>x. \<not> in_region x (payload_address r, payload_size r) \<longrightarrow> h_mem h2 x = h_mem h x) \<and>
    payload_entry_address (outbox h2 d) = payload_address r \<and> unat (payload_size_ipc (outbox h2 d)) = length img \<and>
    payload_crc (outbox h2 d) = crc \<and> payload_argument (outbox h2 d) = arg \<and>
    cmd (outbox h2 d) = Command_start_payload \<and> cmd_seq (outbox h2 d) = cmd_ack (inbox h2 d) + 1 \<and>
    stdout_rdpos (outbox h2 d) = stdout_wrpos (inbox h2 d) \<and>
    inbox h2 d = inbox h d \<and> (\<forall>d'. d' \<noteq> d \<longrightarrow> h_ipc h2 d' = h_ipc h d') \<and> h_io h2 = h_io h \<and>
    domain_general_state h2 = domain_general_state h"
proof -
  note fr = get_devmem_handle_frame [OF assms(5)]
  let ?h = "h1\<lparr>h_mem := mem_write (h_mem h1) (payload_address r) img\<rparr>"
  let ?h2 = "issue_start d (payload_address r) (of_nat (length img)) crc arg ?h"
  have len: "length img < 2 ^ 64"
    using assms(4) ranges_bounds(3) [OF assms(3)] by simp
  have "load_to_physical_memory env (payload_address r) img h = (?h, None)"
    using load_to_physical_memory_eq [OF assms(5,6)] .
  moreover have "getState ?h d = monitor_ready" "cmd_ack (inbox ?h d) = cmd_seq (outbox ?h d)"
    using assms(1,2) fr getState_cong [of ?h d h] by simp_all
  ultimately have "loadAndStartPayload env d img crc arg h = Some (start_loop env d 0 100 ?h2)"
    using assms(1,3,4) by (simp add: loadAndStartPayload_def startPayloadAt_def)
  moreover have "mem_read (h_mem ?h2) (payload_address r) (length img) = img"
    using len by (simp add: mem_read_write)
  moreover have "h_mem ?h2 x = h_mem h x" if "\<not> in_region x (payload_address r, payload_size r)" for x
    using mem_write_in_region [OF ranges_bounds(1) [OF assms(3)] _ that, of 0 img "h_mem h"] assms(4) fr by simp
  moreover have "unat (payload_size_ipc (outbox ?h2 d)) = length img"
    using len by (simp add: issue_start_def unat_of_nat take_bit_eq_mod)
  ultimately show ?thesis
    using fr assms(2) by (intro exI [of _ ?h2]) (simp add: issue_start_def)
qed

text \<open>The image and the cookie behind it, as \<open>startup\<close> places them.\<close>

lemma startup_memory:
  fixes r img m
  defines "m' \<equiv> mem_write (mem_write m (monitor_address r) img) (cookie_address r) (le_bytes 4 MONITOR_CODE_COOKIE)"
  assumes "getPhysicalMemoryRanges d = Some r" and "length img \<le> 0xFFFC"
  shows "mem_read m' (monitor_address r) (length img) = img"
    and "\<not> in_region x (monitor_address r, monitor_size r) \<Longrightarrow> m' x = m x"
proof -
  note ms = ranges_bounds(4) [OF assms(2)] and mb = ranges_bounds(2) [OF assms(2)]
  let ?m1 = "mem_write m (monitor_address r) img"
  let ?ck = "le_bytes 4 MONITOR_CODE_COOKIE"
  have ca: "cookie_address r = monitor_address r + of_nat 0xFFFC"
    using ms by (simp add: cookie_address_def sizeof_cookie_def)
  have "mem_read m' (monitor_address r) (length img) = mem_read ?m1 (monitor_address r) (length img)"
    unfolding m'_def
  proof (intro mem_read_cong mem_write_other)
    fix i j
    assume "i < length img" and "j < length ?ck"
    then have ij: "i < 0xFFFC" "j < 4" using assms(3) by simp_all
    then have u: "unat (monitor_address r + of_nat i) = unat (monitor_address r) + i"
      "unat (monitor_address r + of_nat (0xFFFC + j)) = unat (monitor_address r) + (0xFFFC + j)"
      using mb ms ij by (rule_tac [!] unat_offset) simp_all
    have "cookie_address r + of_nat j = monitor_address r + of_nat (0xFFFC + j)" by (simp add: ca)
    then show "monitor_address r + of_nat i \<noteq> cookie_address r + of_nat j"
      using u ij(1) by (metis add_less_cancel_left less_irrefl trans_less_add1)
  qed
  then show "mem_read m' (monitor_address r) (length img) = img"
    using mem_read_write [of img m "monitor_address r"] assms(3) by simp
  show "m' x = m x" if "\<not> in_region x (monitor_address r, monitor_size r)"
    using mem_write_in_region [OF mb _ that, of "0xFFFC" ?ck ?m1] mem_write_in_region [OF mb _ that, of 0 img m] assms(3) ms
    by (simp add: m'_def ca)
qed

section \<open>Properties\<close>

text \<open>
  What the interface promises of \<open>ensureReadyToLoadPayload\<close>: if it returns with success, the domain
  is in the state \<open>monitor_ready\<close>, whatever the domain's state was before and whatever the other cores
  did while the manager waited.
\<close>

lemma ensureReady_gives_ready:
  assumes "ensureReadyToLoadPayload env d h = Some (h', None)"
  shows "getState h' d = monitor_ready"
  using assms startup_success terminate_success
  by (auto simp: ensureReadyToLoadPayload_def Let_def split: if_splits)

text \<open>
  A concrete manager for the instances below: everything can be mapped, and while the manager sleeps
  the monitor of core 1 comes to report the given state.
\<close>

definition demo_env :: "DomainState \<Rightarrow> manager_env" where
  "demo_env st = \<lparr>os_open = 3, os_map = (\<lambda>_ _. True), os_stack = replicate 32 0,
     os_sleep = (\<lambda>i h. set_ipc cpu1 ((h_ipc h cpu1)\<lparr>e2m := (inbox h cpu1)\<lparr>state := raw_state st\<rparr>\<rparr>) h), os_release = (\<lambda>d h. h),
     os_conf = Some ''100000000'', monitor_image = (\<lambda>_. [1, 2, 3])\<rparr>"

definition demo_host :: "DomainGeneralState \<Rightarrow> DomainState \<Rightarrow> host" where
  "demo_host g st = \<lparr>s_devmem_handle = -1, domain_general_state = (\<lambda>_. g), h_mem = (\<lambda>_. 0),
     h_ipc = (\<lambda>_. zero_IpcBlock\<lparr>e2m := (e2m zero_IpcBlock)\<lparr>state := raw_state st\<rparr>\<rparr>),
     h_io = \<lparr>mm_regs = (\<lambda>_. 0x3C0F), mm_log = []\<rparr>\<rparr>"

lemma demo_devmem [simp]:
  "get_devmem_handle (demo_env st) (demo_host g st') = ((demo_host g st')\<lparr>s_devmem_handle := 3\<rparr>, Inr 3)"
  by (simp add: get_devmem_handle_def demo_env_def demo_host_def)

lemma demo_release [simp]: "os_release (demo_env st) d h = h"
  by (simp add: demo_env_def)

lemma demo_map [simp]: "os_map (demo_env st) a n"
  by (simp add: demo_env_def)

lemma demo_state [simp]: "getState (demo_host monitorStarted st) d = st"
  by (simp add: getState_def demo_host_def)

lemma demo_config [simp]: "loadConfigurationFromDefaultFile (os_conf (demo_env st)) = Some 100000000"
  by (simp add: demo_env_def loadConfigurationFromDefaultFile_def read_u32_def is_space_def is_digit_def decimal_def Let_def)

lemma demo_terminate:
  assumes "domain_general_state h cpu1 = monitorStarted"
  shows "\<exists>h'. terminatePayload (demo_env monitor_ready) cpu1 h = Some (h', None)"
proof -
  obtain h1 fd where h1: "get_devmem_handle (demo_env monitor_ready) h = (h1, Inr fd)"
    by (cases "s_devmem_handle h < 0") (auto simp: get_devmem_handle_def demo_env_def)
  let ?h = "set_outbox cpu1 ((outbox h1 cpu1)\<lparr>cmd := Command_noop\<rparr>) h1"
  obtain io where io: "sendIpiMessage (os_map (demo_env monitor_ready)) (os_stack (demo_env monitor_ready)) (h_io ?h) cpu1
      kill_message = Some (io, None)"
    using sendIpiMessage_ok [of "os_map (demo_env monitor_ready)" cpu1 1 ch0 "os_stack (demo_env monitor_ready)" "h_io ?h"
        kill_message] by (auto simp: getIpiChannelForCpu_def)
  have "getState (os_sleep (demo_env monitor_ready) 0 (?h\<lparr>h_io := io\<rparr>)) cpu1 = monitor_ready"
    using assms get_devmem_handle_frame [OF h1] by (simp add: demo_env_def getState_def)
  with await_polling.answer_now [of "demo_env monitor_ready" 0 "?h\<lparr>h_io := io\<rparr>" cpu1 None 50] show ?thesis
    using h1 io assms by (simp add: terminatePayload_def Let_def awaitMonitorStartup_def)
qed

text \<open>
  C19: the manager's waits end, and end with the first answer. After issuing the command \<open>startPayloadAt\<close> returns at
  the first of its at most 100 polls that is conclusive, with what this poll concludes, and with a time-out
  exactly when none of the 100 is; likewise \<open>awaitMonitorStartup\<close> returns at the first of its at most 50 polls that sees
  \<open>monitor_ready\<close>. This holds whatever the other cores do to the shared state meanwhile.
\<close>

theorem waits_end_at_first_answer:
  assumes "getState h d = monitor_ready" and "cmd_ack (inbox h d) = cmd_seq (outbox h d)"
  shows "(let poll = (\<lambda>j. after_sleeps (os_sleep env) 0 (Suc j) (issue_start d a sz crc arg h)) in
      (\<forall>k < 100. \<forall>r. (\<forall>j < k. poll_start (poll j) d = None) \<and> poll_start (poll k) d = Some r \<longrightarrow>
         startPayloadAt env d a sz crc arg h = (poll k, r)) \<and>
      ((\<forall>j < 100. poll_start (poll j) d = None) \<longrightarrow>
         startPayloadAt env d a sz crc arg h = (poll 99, Some payload_start_timed_out))) \<and>
    (let poll = (\<lambda>j. after_sleeps (os_sleep env) 0 (Suc j) h') in
      (\<forall>k < 50. (\<forall>j < k. getState (poll j) d \<noteq> monitor_ready) \<and> getState (poll k) d = monitor_ready \<longrightarrow>
         awaitMonitorStartup env d h' = (poll k, None)) \<and>
      ((\<forall>j < 50. getState (poll j) d \<noteq> monitor_ready) \<longrightarrow>
         awaitMonitorStartup env d h' = (poll 49, Some monitor_start_timed_out)))"
proof -
  let ?h = "issue_start d a sz crc arg h"
  have st: "startPayloadAt env d a sz crc arg h = start_loop env d 0 100 ?h"
    using assms by (simp add: startPayloadAt_def)
  have aw: "awaitMonitorStartup env d h' = await_loop env d 0 50 h'"
    by (simp add: awaitMonitorStartup_def)
  show ?thesis unfolding Let_def st aw
    using start_polling.first_answer [of _ 100 env 0 ?h d] start_polling.no_answer [of 100 env 0 ?h d]
      await_polling.first_answer [of _ 50 env 0 h' d None] await_polling.no_answer [of 50 env 0 h' d]
    by (simp del: after_sleeps.simps)
qed

theorem waits_end_at_first_answer_witness:
  "startPayloadAt (demo_env running_payload) cpu1 0x800100000 0 0 0 (demo_host monitorStarted monitor_ready) =
     (os_sleep (demo_env running_payload) 0 (issue_start cpu1 0x800100000 0 0 0 (demo_host monitorStarted monitor_ready)), None)"
proof -
  let ?h = "demo_host monitorStarted monitor_ready"
  have "cmd_ack (inbox ?h cpu1) = cmd_seq (outbox ?h cpu1)" by (simp add: demo_host_def zero_IpcBlock_def)
  moreover have "poll_start (os_sleep (demo_env running_payload) 0 (issue_start cpu1 0x800100000 0 0 0 ?h)) cpu1 = Some None"
    by (simp add: poll_start_def demo_env_def getState_def demo_host_def issue_start_def zero_IpcBlock_def)
  ultimately show ?thesis
    using waits_end_at_first_answer [of ?h cpu1 "demo_env running_payload" "0x800100000" 0 0 0 ?h] by (force simp: Let_def)
qed

text \<open>
  C18: starting the monitor on a core that is held in reset. When the core is released, at the monitor's address, the
  state \<open>h2\<close> it finds is this: the monitor image and, in the last four bytes of its region, the cookie are in memory,
  nothing outside the region has changed, and the IPC block is zero except for the state \<open>invalid_state\<close> and the timer
  frequency of the configuration file. All that happens later, by the core (whatever it does) and by the manager, which
  records \<open>monitorStarted\<close> and waits, starts from there: the manager does not store to memory or to the block
  after the release. If a manager is started afresh at this point, it recognises the domain as one with a monitor.
\<close>

theorem startup_prepares_core:
  assumes "loadConfigurationFromDefaultFile (os_conf env) = Some freq" and "domain_general_state h d = inReset"
    and "getPhysicalMemoryRanges d = Some r" and "getCpuIndex_manager d = Some k"
    and "length (monitor_image env d) \<le> 0xFFFC" and "get_devmem_handle env h = (h1, Inr fd)" and "\<And>a n. os_map env a n"
    and "core_in_reset (mm_read32 (h_io h) RST_FPD_APU) k"
  shows "\<exists>h2. startup env d h = Some (awaitMonitorStartup env d (set_general_state d monitorStarted (os_release env d h2))) \<and>
    mem_read (h_mem h2) (monitor_address r) (length (monitor_image env d)) = monitor_image env d \<and>
    mem_read (h_mem h2) (cookie_address r) 4 = le_bytes 4 MONITOR_CODE_COOKIE \<and>
    (\<forall>x. \<not> in_region x (monitor_address r, monitor_size r) \<longrightarrow> h_mem h2 x = h_mem h x) \<and>
    h_ipc h2 = (h_ipc h)(d := init_ipc freq) \<and>
    bootCore (os_map env) (h_io h) d (monitor_address r) = Some (h_io h2, None) \<and>
    (\<exists>h3. open_domain env d h2 = Some (h3, Inr d) \<and> domain_general_state h3 d = monitorStarted)"
proof -
  note fr = get_devmem_handle_frame [OF assms(6)]
  note ms = ranges_bounds(4) [OF assms(3)]
  let ?m1 = "mem_write (h_mem h) (monitor_address r) (monitor_image env d)"
  let ?ck = "le_bytes 4 MONITOR_CODE_COOKIE"
  let ?m2 = "mem_write ?m1 (cookie_address r) ?ck"
  obtain io where io: "bootCore (os_map env) (h_io h) d (monitor_address r) = Some (io, None)"
      "isCoreInReset (os_map env) io d = Some False"
    using bootCore_outcome [of "os_map env" d k "h_io h" "monitor_address r"] assms(4,7,8) by auto
  let ?h2 = "(set_ipc d (init_ipc freq) (h1\<lparr>h_mem := ?m2\<rparr>))\<lparr>h_io := io\<rparr>"
  have "d \<noteq> max_domain" using assms(4) by auto
  then have "startup env d h = Some (awaitMonitorStartup env d (set_general_state d monitorStarted (os_release env d ?h2)))"
    using assms(1-3,5-7) fr io(1) ms
    by (simp add: startup_def startup_with_def release_core_def Let_def sizeof_cookie_def)
  moreover note startup_memory [OF assms(3,5), where m = "h_mem h"]
  moreover have cookie: "mem_read ?m2 (cookie_address r) 4 = ?ck"
    using mem_read_write [of ?ck ?m1 "cookie_address r"] by simp
  moreover have "\<exists>h3. open_domain env d ?h2 = Some (h3, Inr d) \<and> domain_general_state h3 d = monitorStarted"
  proof -
    have "s_devmem_handle h1 \<ge> 0"
      using assms(6) by (auto simp: get_devmem_handle_def Let_def split: if_splits)
    then show ?thesis
      using assms(3,7) io(2) cookie by (simp add: open_domain_def get_devmem_handle_def Let_def sizeof_cookie_def)
  qed
  ultimately show ?thesis
    using io(1) fr by (intro exI [of _ ?h2]) simp
qed

theorem startup_prepares_core_witness:
  "\<exists>h2. startup (demo_env monitor_ready) cpu1 (demo_host inReset in_reset) =
       Some (awaitMonitorStartup (demo_env monitor_ready) cpu1 (set_general_state cpu1 monitorStarted h2)) \<and>
     mem_read (h_mem h2) 0x800000000 3 = [1, 2, 3] \<and> h_ipc h2 cpu1 = init_ipc 100000000 \<and>
     (\<exists>h3. open_domain (demo_env monitor_ready) cpu1 h2 = Some (h3, Inr cpu1) \<and> domain_general_state h3 cpu1 = monitorStarted)"
proof -
  obtain r where r: "getPhysicalMemoryRanges cpu1 = Some r" "monitor_address r = 0x800000000"
    by (simp add: memmap_defs)
  have img: "monitor_image (demo_env monitor_ready) cpu1 = [1, 2, 3]" "\<And>a n. os_map (demo_env monitor_ready) a n"
    "domain_general_state (demo_host inReset in_reset) cpu1 = inReset"
    by (simp_all add: demo_env_def demo_host_def)
  have "core_in_reset (mm_read32 (h_io (demo_host inReset in_reset)) RST_FPD_APU) 1"
    by (simp add: core_in_reset_def mm_read32_def demo_host_def)
  from startup_prepares_core [OF demo_config img(3) r(1) getCpuIndex_manager.simps(1) _ demo_devmem demo_map this, of monitor_ready]
  show ?thesis using r(2) img(1) by (auto simp: numeral_3_eq_3)
qed

text \<open>
  C38: the call-backs of the ELF loader. \<open>alloc\<close> grants only memory inside the domain's payload region,
  provided address plus size does not exceed 64 bits; without that proviso it does not (the sum wraps
  around and a request for almost the whole address space is granted). \<open>pread\<close> delivers exactly the
  requested bytes of the file when the range ends before its last byte, and refuses a range that ends
  exactly at the end of the file.
\<close>

theorem elf_call_backs:
  assumes "getPhysicalMemoryRanges d = Some r" and "length bin < 2 ^ 64"
  shows "(\<forall>phys virt sz p i. elf_alloc r phys virt sz = Some p \<and> unat phys + unat sz < 2 ^ 64 \<and> i < unat sz \<longrightarrow>
      in_region (p + of_nat i) (payload_address r, payload_size r)) \<and>
    (\<exists>sz. elf_alloc r (payload_address r) 0 sz = Some (payload_address r) \<and> unat (payload_size r) < unat sz) \<and>
    (\<forall>nb off. unat off + unat nb < length bin \<longrightarrow> elf_pread bin nb off = PreadOk (take (unat nb) (drop (unat off) bin))) \<and>
    (\<forall>nb off. unat off + unat nb = length bin \<longrightarrow> elf_pread bin nb off = PreadFailed)"
proof (intro conjI allI impI)
  fix phys virt sz p i
  assume a: "elf_alloc r phys virt sz = Some p \<and> unat phys + unat sz < 2 ^ 64 \<and> i < unat sz"
  then have p: "p = phys" "payload_address r \<le> phys" "phys + sz \<le> payload_address r + payload_size r"
    by (auto simp: elf_alloc_def not_less split: if_splits)
  have "unat (phys + of_nat i) = unat phys + i" "unat (phys + sz) = unat phys + unat sz"
    using a unat_offset [of phys i] unat_offset [of phys "unat sz"] by simp_all
  moreover have "phys + of_nat i < phys + sz"
    using a calculation by (simp add: word_less_nat_alt)
  ultimately show "in_region (p + of_nat i) (payload_address r, payload_size r)"
    using p by (auto simp: in_region_def word_le_nat_alt word_less_nat_alt)
next
  show "\<exists>sz. elf_alloc r (payload_address r) 0 sz = Some (payload_address r) \<and> unat (payload_size r) < unat sz"
    by (rule exI [of _ "0xFFFFFFFFFFFFFFFF"], use assms(1) in \<open>cases d; auto simp: elf_alloc_def memmap_defs\<close>)
next
  fix nb off :: u64
  assume "unat off + unat nb < length bin"
  then show "elf_pread bin nb off = PreadOk (take (unat nb) (drop (unat off) bin))"
    using assms(2) by (simp add: elf_pread_def word_less_nat_alt unat_word_ariths unat_of_nat take_bit_eq_mod)
next
  fix nb off :: u64
  assume "unat off + unat nb = length bin"
  then show "elf_pread bin nb off = PreadFailed"
    using assms(2) by (simp add: elf_pread_def word_less_nat_alt unat_word_ariths unat_of_nat take_bit_eq_mod)
qed

theorem elf_call_backs_witness:
  "elf_pread [1, 2, 3] 2 0 = PreadOk [1, 2] \<and> elf_pread [1, 2, 3] 2 1 = PreadFailed"
proof -
  obtain r where "getPhysicalMemoryRanges cpu1 = Some r" by simp
  from elf_call_backs [OF this, of "[1, 2, 3]"] show ?thesis by force
qed

end
