(* ===== verification/Coredump.thy ===== *)
theory Coredump
  imports Domain
begin

text \<open>
  The core dump writer, \<open>src/manager/coredump_linux.cpp\<close>, and its caller \<open>Domain::dumpCore\<close>
  (\<open>src/manager/domain.cpp\<close>). A file is the bytes written so far and the number of bytes the medium still
  accepts; every \<open>fwrite\<close> that comes back short makes the writer return at once, leaving the file open.
  The images of Linux's \<open>elf_prpsinfo\<close> and \<open>elf_prstatus\<close> structures are arguments. Offsets and sizes are
  computed as natural numbers and stored as 64-bit fields.
\<close>

section \<open>Files\<close>

record cfile =
  f_bytes :: bytes
  f_room :: nat
  f_closed :: bool

definition fwrite :: "bytes \<Rightarrow> cfile \<Rightarrow> cfile \<times> nat" where
  "fwrite bs f =
     (let n = min (length bs) (f_room f) in
      (f\<lparr>f_bytes := f_bytes f @ take n bs, f_room := f_room f - n\<rparr>, n))"

text \<open>A sequence of \<open>fwrite\<close>s that stops at the first short one; the flag says whether all were complete.\<close>

fun fwrite_seq :: "bytes list \<Rightarrow> cfile \<Rightarrow> cfile \<times> bool" where
  "fwrite_seq [] f = (f, True)"
| "fwrite_seq (bs # rest) f =
     (case fwrite bs f of (f1, n) \<Rightarrow> if n \<noteq> length bs then (f1, False) else fwrite_seq rest f1)"

section \<open>ELF structures\<close>

definition sizeof_Ehdr :: nat where "sizeof_Ehdr = 64"
definition sizeof_Phdr :: nat where "sizeof_Phdr = 56"
definition sizeof_Shdr :: nat where "sizeof_Shdr = 64"
definition sizeof_Nhdr :: nat where "sizeof_Nhdr = 12"

record Elf64_Phdr =
  p_type :: u32
  p_flags :: u32
  p_offset :: u64
  p_vaddr :: u64
  p_paddr :: u64
  p_filesz :: u64
  p_memsz :: u64
  p_align :: u64

definition PT_LOAD :: u32 where "PT_LOAD = 1"
definition PT_NOTE :: u32 where "PT_NOTE = 4"

definition phdr_bytes :: "Elf64_Phdr \<Rightarrow> bytes" where
  "phdr_bytes p = le_bytes 4 (p_type p) @ le_bytes 4 (p_flags p) @ le_bytes 8 (p_offset p) @ le_bytes 8 (p_vaddr p) @
     le_bytes 8 (p_paddr p) @ le_bytes 8 (p_filesz p) @ le_bytes 8 (p_memsz p) @ le_bytes 8 (p_align p)"

text \<open>The ELF header for \<open>n\<close> program headers.\<close>

definition ehdr_bytes :: "16 word \<Rightarrow> bytes" where
  "ehdr_bytes n =
     [0x7f, 0x45, 0x4c, 0x46, 2, 1, 1, 0, 0, 0, 0, 0, 0, 0, 0, 0] @
     le_bytes 2 (4 :: 16 word) @ le_bytes 2 (183 :: 16 word) @ le_bytes 4 (1 :: u32) @ le_bytes 8 (0 :: u64) @
     le_bytes 8 (of_nat sizeof_Ehdr :: u64) @ le_bytes 8 (0 :: u64) @ le_bytes 4 (0 :: u32) @
     le_bytes 2 (of_nat sizeof_Ehdr :: 16 word) @ le_bytes 2 (of_nat sizeof_Phdr :: 16 word) @ le_bytes 2 n @
     le_bytes 2 (of_nat sizeof_Shdr :: 16 word) @ le_bytes 2 (0 :: 16 word) @ le_bytes 2 (0 :: 16 word)"

section \<open>Notes\<close>

definition make_padding_span :: "nat \<Rightarrow> nat \<Rightarrow> bytes" where
  "make_padding_span alignment n = replicate (if n mod alignment = 0 then 0 else alignment - n mod alignment) 0"

text \<open>The four \<open>fwrite\<close>s of \<open>write_note\<close>; the name includes its terminator.\<close>

definition write_note :: "bytes \<Rightarrow> u32 \<Rightarrow> bytes \<Rightarrow> bytes list" where
  "write_note name type desc =
     (let terminated_name_len = length name + 1 in
      [le_bytes 4 (of_nat terminated_name_len :: u32) @ le_bytes 4 (of_nat (length desc) :: u32) @ le_bytes 4 type,
       name @ [0], make_padding_span 4 terminated_name_len, desc])"

definition NT_PRSTATUS :: u32 where "NT_PRSTATUS = 1"
definition NT_FPREGSET :: u32 where "NT_FPREGSET = 2"
definition NT_PRPSINFO :: u32 where "NT_PRPSINFO = 3"

section \<open>Register images\<close>

definition regs_bytes :: "Aarch64_Regs \<Rightarrow> bytes" where
  "regs_bytes r = concat (map (le_bytes 8) (regs r)) @ le_bytes 8 (sp r) @ le_bytes 8 (pc r) @ le_bytes 8 (pstate r)"

text \<open>The last eight bytes of the structure are padding, which the dump copies as it finds it.\<close>

definition fpregs_bytes :: "bytes \<Rightarrow> Aarch64_FpRegs \<Rightarrow> bytes" where
  "fpregs_bytes pad r = concat (map (le_bytes 16) (vregs r)) @ le_bytes 4 (fpsr r) @ le_bytes 4 (fpcr r) @ pad"

section \<open>\<open>writeCoreDump\<close>\<close>

text \<open>\<open>MemorySegment\<close>: start address and the bytes its pointer and size denote.\<close>

record MemorySegment =
  start_address :: u64
  seg_data :: bytes

definition PAGESIZE :: nat where "PAGESIZE = 4096"

text \<open>
  The program header of the notes, and the loop over the segments: \<open>offset\<close> and \<open>filesz\<close> are the values
  of the previous entry.
\<close>

definition note_phdr :: "nat \<Rightarrow> nat \<Rightarrow> Elf64_Phdr" where
  "note_phdr offset filesz = \<lparr>p_type = PT_NOTE, p_flags = 0, p_offset = of_nat offset, p_vaddr = 0, p_paddr = 0,
     p_filesz = of_nat filesz, p_memsz = 0, p_align = 0\<rparr>"

fun load_phdrs :: "nat \<Rightarrow> nat \<Rightarrow> MemorySegment list \<Rightarrow> Elf64_Phdr list" where
  "load_phdrs offset filesz [] = []"
| "load_phdrs offset filesz (seg # segs) =
     \<lparr>p_type = PT_LOAD, p_flags = 7, p_offset = of_nat (offset + filesz), p_vaddr = start_address seg, p_paddr = 0,
      p_filesz = of_nat (length (seg_data seg)), p_memsz = of_nat (length (seg_data seg)), p_align = of_nat PAGESIZE\<rparr>
     # load_phdrs (offset + filesz) (length (seg_data seg)) segs"

definition phnum :: "MemorySegment list \<Rightarrow> 16 word" where
  "phnum segs = of_nat (length segs + 1)"

definition note_offset :: "MemorySegment list \<Rightarrow> nat" where
  "note_offset segs = sizeof_Ehdr + unat (phnum segs) * sizeof_Phdr"

definition note_filesz :: "nat \<Rightarrow> nat \<Rightarrow> nat \<Rightarrow> nat" where
  "note_filesz prpsinfo_size prstatus_size fpregs_size =
     sizeof_Nhdr + 8 + prpsinfo_size + 1 * (sizeof_Nhdr + 8 + prstatus_size + sizeof_Nhdr + 8 + fpregs_size)"

definition note_align :: "nat \<Rightarrow> nat" where
  "note_align end' = (let a = PAGESIZE - end' mod PAGESIZE in if a = PAGESIZE then 0 else a)"

text \<open>
  All \<open>fwrite\<close>s in program order. \<open>prpsinfo\<close> and \<open>prstatus\<close> are the images of the two structures, the second
  one with the integer registers copied into it.
\<close>

definition dump_chunks :: "bytes \<Rightarrow> (bytes \<Rightarrow> bytes) \<Rightarrow> bytes \<Rightarrow> MemorySegment list \<Rightarrow> Aarch64_Regs \<Rightarrow> Aarch64_FpRegs \<Rightarrow> bytes list" where
  "dump_chunks prpsinfo prstatus pad segs the_regs fpregs =
     (let offset = note_offset segs;
          fp = fpregs_bytes pad fpregs;
          ps = prstatus (regs_bytes the_regs);
          filesz = note_filesz (length prpsinfo) (length ps) (length fp);
          align = note_align (offset + filesz) in
      [ehdr_bytes (phnum segs), phdr_bytes (note_phdr offset filesz)] @
      map phdr_bytes (load_phdrs (offset + align) filesz segs) @
      write_note (ascii ''CORE'') NT_PRPSINFO prpsinfo @
      write_note (ascii ''CORE'') NT_PRSTATUS ps @
      write_note (ascii ''CORE'') NT_FPREGSET fp @
      (if align \<noteq> 0 then [replicate align 0] else []) @
      map seg_data segs)"

text \<open>
  \<open>room\<close> is \<open>None\<close> when \<open>fopen\<close> fails; the null pointer is then passed to \<open>fwrite\<close>, a fault.
\<close>

definition writeCoreDump ::
    "bytes \<Rightarrow> (bytes \<Rightarrow> bytes) \<Rightarrow> bytes \<Rightarrow> nat option \<Rightarrow> MemorySegment list \<Rightarrow> Aarch64_Regs \<Rightarrow> Aarch64_FpRegs \<Rightarrow> cfile option" where
  "writeCoreDump prpsinfo prstatus pad room segs the_regs fpregs =
     (case room of
        None \<Rightarrow> None
      | Some n \<Rightarrow>
          (case fwrite_seq (dump_chunks prpsinfo prstatus pad segs the_regs fpregs) \<lparr>f_bytes = [], f_room = n, f_closed = False\<rparr> of
             (f, ok) \<Rightarrow> Some (if ok then f\<lparr>f_closed := True\<rparr> else f)))"

section \<open>\<open>Domain::dumpCore\<close>\<close>

text \<open>
  The \<open>static\<close> segment table is initialised by the first call that gets there and keeps its contents:
  \<open>saved\<close> is the domain for which it was filled, if any. The region it describes is read through the
  mapping of that call, which has been released since; this use of a dangling pointer is \<open>DumpFault\<close>.
\<close>

datatype dump_result = DumpError ErrorCode | Dumped cfile | DumpFault

definition dumpCore ::
    "manager_env \<Rightarrow> bytes \<Rightarrow> (bytes \<Rightarrow> bytes) \<Rightarrow> bytes \<Rightarrow> nat option \<Rightarrow> DomainIndex \<Rightarrow> DomainIndex option \<Rightarrow> host \<Rightarrow>
     (host \<times> DomainIndex option \<times> dump_result) option" where
  "dumpCore env prpsinfo prstatus pad room d saved h =
     (if getState h d \<noteq> crashed_payload \<and> getState h d \<noteq> crashed_monitor then Some (h, saved, DumpError bad_domain_state)
      else (case get_devmem_handle env h of
        (h1, Inl e) \<Rightarrow> Some (h1, saved, DumpError e)
      | (h1, Inr fd) \<Rightarrow>
        (case getPhysicalMemoryRanges d of
          None \<Rightarrow> None
        | Some ranges \<Rightarrow>
            if \<not> Mmap_bool (Mmap_new (os_map env) (payload_size ranges) (payload_address ranges))
            then Some (h1, saved, DumpError mmap_failed)
            else (case saved of
              Some d0 \<Rightarrow> Some (h1, saved, DumpFault)
            | None \<Rightarrow>
                let seg = \<lparr>start_address = payload_address ranges,
                           seg_data = mem_read (h_mem h1) (payload_address ranges) (unat (payload_size ranges))\<rparr> in
                (case writeCoreDump prpsinfo prstatus pad room [seg] (saved_cpu (inbox h1 d)) (saved_fpu (inbox h1 d)) of
                   None \<Rightarrow> Some (h1, Some d, DumpFault)
                 | Some f \<Rightarrow> Some (h1, Some d, Dumped f))))))"

section \<open>Lemmas\<close>

lemma fwrite_seq_bytes:
  "fwrite_seq cs f = (f\<lparr>f_bytes := f_bytes f @ take (f_room f) (concat cs), f_room := f_room f - length (concat cs)\<rparr>,
     length (concat cs) \<le> f_room f)"
proof (induction cs arbitrary: f)
  case Nil
  then show ?case by simp
next
  case (Cons c cs)
  show ?case
  proof (cases "length c \<le> f_room f")
    case True
    then show ?thesis by (auto simp: fwrite_def Let_def Cons.IH min_def)
  next
    case False
    then show ?thesis by (auto simp: fwrite_def Let_def min_def)
  qed
qed

lemma dump_lengths [simp]:
  "length (ehdr_bytes n) = sizeof_Ehdr" "length (phdr_bytes p) = sizeof_Phdr"
  by (simp_all add: ehdr_bytes_def phdr_bytes_def sizeof_Ehdr_def sizeof_Phdr_def)

lemma note_bytes_length [simp]:
  "length (concat (write_note (ascii ''CORE'') t desc)) = sizeof_Nhdr + 8 + length desc"
  by (simp add: write_note_def make_padding_span_def ascii_def sizeof_Nhdr_def)

lemma length_load_phdrs [simp]: "length (load_phdrs off fsz segs) = length segs"
  by (induction segs arbitrary: off fsz) simp_all

lemma concat_const_at:
  "(\<And>x. x \<in> set xs \<Longrightarrow> length (g x) = n) \<Longrightarrow> i < length xs \<Longrightarrow>
     take n (drop (i * n) (concat (map g xs))) = g (xs ! i)"
proof (induction xs arbitrary: i)
  case Nil
  then show ?case by simp
next
  case (Cons x xs)
  then show ?case by (cases i) simp_all
qed

lemma note_align_page: "(e + note_align e) mod PAGESIZE = 0"
proof (cases "e mod PAGESIZE = 0")
  case True
  then show ?thesis by (simp add: note_align_def)
next
  case False
  have "PAGESIZE * (e div PAGESIZE) + e mod PAGESIZE = e" by (rule mult_div_mod_eq)
  moreover have "e mod PAGESIZE < PAGESIZE" by (simp add: PAGESIZE_def)
  ultimately have "e + (PAGESIZE - e mod PAGESIZE) = PAGESIZE * (e div PAGESIZE) + PAGESIZE" by linarith
  moreover have "note_align e = PAGESIZE - e mod PAGESIZE"
    using False by (auto simp: note_align_def Let_def PAGESIZE_def)
  ultimately show ?thesis by simp
qed

section \<open>The complete dump\<close>

text \<open>The complete dump: header, program headers, notes, filling, data.\<close>

lemma concat_dump_chunks:
  fixes prstatus :: "bytes \<Rightarrow> bytes" and prpsinfo pad :: bytes and r :: Aarch64_Regs and fr :: Aarch64_FpRegs
    and segs :: "MemorySegment list"
  assumes "length segs + 1 < 2 ^ 16"
  defines "fsz \<equiv> note_filesz (length prpsinfo) (length (prstatus (regs_bytes r))) (length (fpregs_bytes pad fr))"
  defines "al \<equiv> note_align (note_offset segs + fsz)"
  shows "\<exists>nts. length nts = fsz \<and> note_offset segs = 64 + 56 * (length segs + 1) \<and>
    concat (dump_chunks prpsinfo prstatus pad segs r fr) =
      ehdr_bytes (phnum segs) @
      concat (map phdr_bytes (note_phdr (note_offset segs) fsz # load_phdrs (note_offset segs + al) fsz segs)) @
      nts @ replicate al 0 @ concat (map seg_data segs)"
proof -
  let ?nts = "concat (write_note (ascii ''CORE'') NT_PRPSINFO prpsinfo @
      write_note (ascii ''CORE'') NT_PRSTATUS (prstatus (regs_bytes r)) @
      write_note (ascii ''CORE'') NT_FPREGSET (fpregs_bytes pad fr))"
  have "length ?nts = fsz"
    by (simp only: concat_append length_append note_bytes_length) (simp add: fsz_def note_filesz_def)
  moreover have "note_offset segs = 64 + 56 * (length segs + 1)"
  proof -
    have "unat (phnum segs) = length segs + 1"
      using assms(1) by (simp add: phnum_def unat_of_nat take_bit_eq_mod del: of_nat_add of_nat_Suc)
    then show ?thesis by (simp add: note_offset_def sizeof_Ehdr_def sizeof_Phdr_def)
  qed
  moreover have "concat (dump_chunks prpsinfo prstatus pad segs r fr) =
      ehdr_bytes (phnum segs) @
      concat (map phdr_bytes (note_phdr (note_offset segs) fsz # load_phdrs (note_offset segs + al) fsz segs)) @
      ?nts @ replicate al 0 @ concat (map seg_data segs)"
    by (simp add: dump_chunks_def Let_def fsz_def al_def)
  ultimately show ?thesis by blast
qed

lemma dump_length:
  assumes "length segs + 1 < 2 ^ 16"
  shows "length (concat (dump_chunks prpsinfo prstatus pad segs r fr)) \<le>
    64 + 56 * (length segs + 1) + (60 + length prpsinfo + length (prstatus (regs_bytes r)) + length (fpregs_bytes pad fr)) + 4096 +
    length (concat (map seg_data segs))"
proof -
  let ?fsz = "note_filesz (length prpsinfo) (length (prstatus (regs_bytes r))) (length (fpregs_bytes pad fr))"
  let ?al = "note_align (note_offset segs + ?fsz)"
  let ?ph = "note_phdr (note_offset segs) ?fsz # load_phdrs (note_offset segs + ?al) ?fsz segs"
  obtain nts where nts: "length nts = ?fsz"
      "concat (dump_chunks prpsinfo prstatus pad segs r fr) =
        ehdr_bytes (phnum segs) @ concat (map phdr_bytes ?ph) @ nts @ replicate ?al 0 @ concat (map seg_data segs)"
    using concat_dump_chunks [OF assms, of prpsinfo prstatus r pad fr] by auto
  have "length (concat (map phdr_bytes ?ph)) = 56 * (length segs + 1)"
    by (subst concat_length_const [where n = 56]) (simp_all add: sizeof_Phdr_def)
  moreover have "?al \<le> 4096" by (simp add: note_align_def Let_def PAGESIZE_def)
  moreover have "?fsz = 60 + length prpsinfo + length (prstatus (regs_bytes r)) + length (fpregs_bytes pad fr)"
    by (simp add: note_filesz_def sizeof_Nhdr_def)
  ultimately show ?thesis
    unfolding nts(2) length_append nts(1) dump_lengths sizeof_Ehdr_def length_replicate by linarith
qed

text \<open>The size of a small dump.\<close>

lemma zero_image_lengths:
  "length (fpregs_bytes (replicate 8 0) zero_fpregs) = 528" "length (regs_bytes zero_regs) = 272"
proof -
  have "length (concat (map (le_bytes 16) (vregs zero_fpregs))) = 16 * length (vregs zero_fpregs)"
    by (rule concat_length_const) simp
  then show "length (fpregs_bytes (replicate 8 0) zero_fpregs) = 528" by (simp add: fpregs_bytes_def zero_fpregs_def)
  have "length (concat (map (le_bytes 8) (regs zero_regs))) = 8 * length (regs zero_regs)"
    by (rule concat_length_const) simp
  then show "length (regs_bytes zero_regs) = 272" by (simp add: regs_bytes_def zero_regs_def)
qed

lemma demo_dump_fits:
  "length (concat (dump_chunks (replicate 136 0) (\<lambda>rs. replicate 112 0 @ rs @ replicate 8 0) (replicate 8 0)
     [\<lparr>start_address = 0x800100000, seg_data = [1, 2, 3]\<rparr>] zero_regs zero_fpregs)) \<le> 1000000"
proof -
  let ?segs = "[\<lparr>start_address = 0x800100000, seg_data = [1, 2, 3]\<rparr>] :: MemorySegment list"
  show ?thesis
    using dump_length [of ?segs "replicate 136 0" "\<lambda>rs. replicate 112 0 @ rs @ replicate 8 0" "replicate 8 0" zero_regs zero_fpregs]
      zero_image_lengths by simp
qed

end
