(* ===== verification/Isolation.thy ===== *)
theory Isolation
  imports Coredump
begin

text \<open>
  The interface \<open>IDomain\<close> (\<open>include/bmboot/domain.hpp\<close>) as one type of operations, and what it means that an operation on
  one domain leaves another alone: its IPC block, its memory regions, the manager's record of it, the reset state
  and reset vector of its core, and no interrupt is sent to it.
\<close>

section \<open>The operations of a domain\<close>

text \<open>
  \<open>getIndex\<close>, \<open>getState\<close>, \<open>dumpDebugInfo\<close> and \<open>getCrashInfo\<close> do not change the state. The arguments of \<open>op_dumpCore\<close> are those of
  \<open>dumpCore\<close>, the arguments of \<open>op_loadElfPayload\<close> include the loader of the library.
\<close>

datatype domain_op =
    op_open
  | op_startup
  | op_terminatePayload
  | op_ensureReadyToLoadPayload
  | op_loadAndStartPayload bytes u32 u64
  | op_loadElfPayload elf_loader bytes u64
  | op_getchar
  | op_dumpCore bytes "bytes \<Rightarrow> bytes" bytes "nat option" "DomainIndex option"
  | op_startDummyPayload

fun domain_op_run :: "manager_env \<Rightarrow> DomainIndex \<Rightarrow> domain_op \<Rightarrow> host \<Rightarrow> host option" where
  "domain_op_run env d op_open h = map_option fst (open_domain env d h)"
| "domain_op_run env d op_startup h = map_option fst (startup env d h)"
| "domain_op_run env d op_terminatePayload h = map_option fst (terminatePayload env d h)"
| "domain_op_run env d op_ensureReadyToLoadPayload h = map_option fst (ensureReadyToLoadPayload env d h)"
| "domain_op_run env d (op_loadAndStartPayload img crc arg) h = map_option fst (loadAndStartPayload env d img crc arg h)"
| "domain_op_run env d (op_loadElfPayload el img arg) h = map_option fst (loadElfPayload env el d img arg h)"
| "domain_op_run env d op_getchar h = map_option (\<lambda>(b, c). set_ipc d b h) (getchar (h_ipc h d))"
| "domain_op_run env d (op_dumpCore prpsinfo prstatus pad room saved) h =
     map_option fst (dumpCore env prpsinfo prstatus pad room d saved h)"
| "domain_op_run env d op_startDummyPayload h = Some (startDummyPayload env d h)"

text \<open>A client that uses several domains.\<close>

fun domain_ops_run :: "manager_env \<Rightarrow> (DomainIndex \<times> domain_op) list \<Rightarrow> host \<Rightarrow> host option" where
  "domain_ops_run env [] h = Some h"
| "domain_ops_run env ((d, x) # xs) h = Option.bind (domain_op_run env d x h) (domain_ops_run env xs)"

section \<open>Leaving a domain alone\<close>

definition memory_kept :: "DomainIndex \<Rightarrow> memory \<Rightarrow> memory \<Rightarrow> bool" where
  "memory_kept e m m' \<longleftrightarrow> (\<forall>r \<in> set (regions_of e). \<forall>x. in_region x r \<longrightarrow> m' x = m x)"

definition core_kept :: "DomainIndex \<Rightarrow> mmio \<Rightarrow> mmio \<Rightarrow> bool" where
  "core_kept e io io' \<longleftrightarrow>
     (\<forall>k. getCpuIndex_manager e = Some k \<longrightarrow>
        core_in_reset (mm_read32 io' RST_FPD_APU) k = core_in_reset (mm_read32 io RST_FPD_APU) k \<and>
        mm_read32 io' (RVBARADDRL k) = mm_read32 io (RVBARADDRL k) \<and> mm_read32 io' (RVBARADDRH k) = mm_read32 io (RVBARADDRH k) \<and>
        (\<exists>acc. mm_log io' = mm_log io @ acc \<and>
           (\<forall>ch v. getIpiChannelForCpu k = Some ch \<and> W32 (IPI_TRIG IPI_SRC_BMBOOT_MANAGER) v \<in> set acc \<longrightarrow> v AND getIpiPeerMask ch = 0)))"

definition domain_kept :: "DomainIndex \<Rightarrow> host \<Rightarrow> host \<Rightarrow> bool" where
  "domain_kept e h h' \<longleftrightarrow>
     h_ipc h' e = h_ipc h e \<and> domain_general_state h' e = domain_general_state h e \<and>
     memory_kept e (h_mem h) (h_mem h') \<and> core_kept e (h_io h) (h_io h')"

section \<open>A preorder\<close>

lemma memory_kept_refl [simp]: "memory_kept e m m"
  by (simp add: memory_kept_def)

lemma memory_kept_trans: "memory_kept e m m1 \<Longrightarrow> memory_kept e m1 m2 \<Longrightarrow> memory_kept e m m2"
  by (simp add: memory_kept_def)

lemma core_kept_refl [simp]: "core_kept e io io"
  by (simp add: core_kept_def)

lemma core_kept_trans:
  assumes "core_kept e io io1" and "core_kept e io1 io2"
  shows "core_kept e io io2"
  unfolding core_kept_def
proof (intro allI impI)
  fix k
  assume k: "getCpuIndex_manager e = Some k"
  let ?P = "\<lambda>acc. \<forall>ch v. getIpiChannelForCpu k = Some ch \<and> W32 (IPI_TRIG IPI_SRC_BMBOOT_MANAGER) v \<in> set acc \<longrightarrow> v AND getIpiPeerMask ch = 0"
  obtain acc1 acc2 where "mm_log io1 = mm_log io @ acc1" "mm_log io2 = mm_log io1 @ acc2" "?P acc1" "?P acc2"
    using assms k unfolding core_kept_def by blast
  then have "\<exists>acc. mm_log io2 = mm_log io @ acc \<and> ?P acc" by (intro exI [of _ "acc1 @ acc2"]) auto
  then show "core_in_reset (mm_read32 io2 RST_FPD_APU) k = core_in_reset (mm_read32 io RST_FPD_APU) k \<and>
      mm_read32 io2 (RVBARADDRL k) = mm_read32 io (RVBARADDRL k) \<and> mm_read32 io2 (RVBARADDRH k) = mm_read32 io (RVBARADDRH k) \<and>
      (\<exists>acc. mm_log io2 = mm_log io @ acc \<and> ?P acc)"
    using assms k by (simp add: core_kept_def)
qed

lemma domain_kept_refl [simp]: "domain_kept e h h"
  by (simp add: domain_kept_def)

lemma domain_kept_trans: "domain_kept e h h1 \<Longrightarrow> domain_kept e h1 h2 \<Longrightarrow> domain_kept e h h2"
  by (auto simp: domain_kept_def intro: memory_kept_trans core_kept_trans)

text \<open>The simple changes of the state.\<close>

lemma kept_updates:
  "d \<noteq> e \<Longrightarrow> domain_kept e h (set_ipc d b h)" "d \<noteq> e \<Longrightarrow> domain_kept e h (set_general_state d g h)"
  "memory_kept e (h_mem h) m \<Longrightarrow> domain_kept e h (h\<lparr>h_mem := m\<rparr>)"
  "core_kept e (h_io h) io \<Longrightarrow> domain_kept e h (h\<lparr>h_io := io\<rparr>)"
  by (simp_all add: domain_kept_def)

lemma kept_devmem: "get_devmem_handle env h = (h1, r) \<Longrightarrow> domain_kept e h h1"
  using get_devmem_handle_frame [of env h h1 r] by (simp add: domain_kept_def)

section \<open>Memory\<close>

text \<open>Regions of different domains have no address in common.\<close>

lemma regions_apart:
  assumes "d \<noteq> e" and "r \<in> set (regions_of d)" and "s \<in> set (regions_of e)" and "in_region x r"
  shows "\<not> in_region x s"
proof -
  have m: "d \<noteq> max_domain" "e \<noteq> max_domain" using assms(2,3) by (auto simp: regions_of_def)
  let ?n = "\<lambda>d. if d = cpu1 then 0 else if d = cpu2 then 3 else 6 :: nat"
  have at: "\<exists>i < 3. r = all_regions ! (?n d + i)" if "d \<noteq> max_domain" "r \<in> set (regions_of d)" for d r
  proof -
    have "length (regions_of d) = 3" "\<forall>i < 3. all_regions ! (?n d + i) = regions_of d ! i"
      using that(1) by (cases d; auto simp: all_regions_eq regions_of_def memmap_defs less_Suc_eq numeral_3_eq_3)+
    then show ?thesis using that(2) by (metis in_set_conv_nth)
  qed
  obtain i j where ij: "i < 3" "r = all_regions ! (?n d + i)" "j < 3" "s = all_regions ! (?n e + j)"
    using at [OF m(1) assms(2)] at [OF m(2) assms(3)] by blast
  have "?n d + i \<noteq> ?n e + j" "?n d + i < length all_regions" "?n e + j < length all_regions"
    using assms(1) m ij(1,3) by (cases d; cases e; simp add: all_regions_eq)+
  then show ?thesis using memory_regions_disjoint [of "?n d + i" "?n e + j" x] assms(4) ij(2,4) by simp
qed

lemma region_write_kept:
  assumes "d \<noteq> e" and "(p0, sz) \<in> set (regions_of d)" and "unat p0 + unat sz < 2 ^ 64" and "n + length bs \<le> unat sz"
  shows "memory_kept e m (mem_write m (p0 + of_nat n) bs)"
  unfolding memory_kept_def
proof (intro ballI allI impI)
  fix s x
  assume "s \<in> set (regions_of e)" and "in_region x s"
  then have "\<not> in_region x (p0, sz)" using regions_apart [OF assms(1,2)] by blast
  from mem_write_in_region [OF assms(3,4) this] show "mem_write m (p0 + of_nat n) bs x = m x" .
qed

lemma payload_region: "getPhysicalMemoryRanges d = Some r \<Longrightarrow> (payload_address r, payload_size r) \<in> set (regions_of d)"
  and monitor_region: "getPhysicalMemoryRanges d = Some r \<Longrightarrow> (monitor_address r, monitor_size r) \<in> set (regions_of d)"
  by (simp_all add: regions_of_def)

section \<open>Registers\<close>

lemma cpu_numbers: "getCpuIndex_manager d = Some k \<Longrightarrow> k \<in> {1, 2, 3}"
  by (cases d) auto

lemma register_addresses:
  "RVBARADDRL (Suc 0) = 0xFD5C0048" "RVBARADDRH (Suc 0) = 0xFD5C004C" "RVBARADDRL 2 = 0xFD5C0050" "RVBARADDRH 2 = 0xFD5C0054"
  "RVBARADDRL 3 = 0xFD5C0058" "RVBARADDRH 3 = 0xFD5C005C" "RST_FPD_APU = 0xFD1A0104"
  "IPI_TRIG IPI_SRC_BMBOOT_MANAGER = 0xFF300000"
  by (simp_all add: RVBARADDRL_def RVBARADDRH_def RST_FPD_APU_def IPI_TRIG_def getIpi_member_def IPI_SRC_BMBOOT_MANAGER_def
      IPIPSU_layout_def layout_defs)

lemma bootCore_kept:
  assumes "d \<noteq> e" and "bootCore mmap io d addr = Some (io', err)"
  shows "core_kept e io io'"
proof -
  obtain k where k: "io' = io \<or> getCpuIndex_manager d = Some k"
    using assms(2) by (auto simp: bootCore_def Let_def split: if_splits option.splits)
  show ?thesis
  proof (cases "io' = io")
    case False
    with k have kd: "getCpuIndex_manager d = Some k" by simp
    have m: "mmap 0xFD1A0000 0x1000" "mmap 0xFD5C0000 0x1000"
      using assms(2) False by (auto simp: bootCore_def Let_def split: if_splits)
    have r: "core_in_reset (mm_read32 io RST_FPD_APU) k"
      using bootCore_running [of mmap d k io addr, OF m kd] assms(2) False by auto
    have io': "io' = mm_write32 (mm_write32 (mm_write32 io (RVBARADDRL k) (ucast addr)) (RVBARADDRH k) (ucast (drop_bit 32 addr)))
       RST_FPD_APU (mm_read32 io RST_FPD_APU AND NOT (push_bit k 0x401))"
      using bootCore_ok [of mmap d k io addr, OF m kd r] assms(2) by simp
    show ?thesis unfolding core_kept_def
    proof (intro allI impI)
      fix j
      assume j: "getCpuIndex_manager e = Some j"
      have k10: "k < 10" "j < 10" using cpu_numbers [OF kd] cpu_numbers [OF j] by auto
      have jk: "j \<noteq> k" using assms(1) j kd by (cases d; cases e) auto
      have "core_in_reset (mm_read32 io' RST_FPD_APU) j = core_in_reset (mm_read32 io RST_FPD_APU) j"
        using jk k10 by (simp add: io' core_in_reset_clear)
      moreover have "mm_read32 io' (RVBARADDRL j) = mm_read32 io (RVBARADDRL j) \<and> mm_read32 io' (RVBARADDRH j) = mm_read32 io (RVBARADDRH j)"
        using jk cpu_numbers [OF j] cpu_numbers [OF kd] unfolding io' insert_iff empty_iff
        by (elim disjE FalseE) (simp_all add: register_addresses)
      moreover have "\<exists>acc. mm_log io' = mm_log io @ acc \<and> (\<forall>v. W32 (IPI_TRIG IPI_SRC_BMBOOT_MANAGER) v \<notin> set acc)"
        using cpu_numbers [OF kd] by (auto simp: io' register_addresses)
      ultimately show "core_in_reset (mm_read32 io' RST_FPD_APU) j = core_in_reset (mm_read32 io RST_FPD_APU) j \<and>
          mm_read32 io' (RVBARADDRL j) = mm_read32 io (RVBARADDRL j) \<and> mm_read32 io' (RVBARADDRH j) = mm_read32 io (RVBARADDRH j) \<and>
          (\<exists>acc. mm_log io' = mm_log io @ acc \<and>
             (\<forall>ch v. getIpiChannelForCpu j = Some ch \<and> W32 (IPI_TRIG IPI_SRC_BMBOOT_MANAGER) v \<in> set acc \<longrightarrow> v AND getIpiPeerMask ch = 0))"
        by blast
    qed
  qed simp
qed

text \<open>A message is sent with eight words to a buffer and one trigger.\<close>

lemma sendIpi_shape:
  assumes "sendIpiMessage mmap stack io d message = Some (io', err)"
  obtains k ch where "getCpuIndex_manager d = Some k" "getIpiChannelForCpu k = Some ch"
    "io' = mm_write32 (foldl (\<lambda>io i. mm_write32 io (message_buffer_base ch + of_nat i * 4) (mirror_word (message_mirror stack message) i)) io [0..<8])
       (IPI_TRIG IPI_SRC_BMBOOT_MANAGER) (getIpiPeerMask ch)"
proof -
  obtain k ch where k: "getCpuIndex_manager d = Some k" "getIpiChannelForCpu k = Some ch"
    using assms by (auto simp: sendIpiMessage_def bind_eq_Some_conv split: option.splits)
  have m: "mmap 0xFF990000 0x1000" using sendIpiMessage_unchecked_mmap [of mmap] assms by (metis option.distinct(1))
  have "mmap 0xFF300000 0x1000"
    using assms k m by (cases "mmap 0xFF300000 0x1000")
      (simp_all add: sendIpiMessage_def Let_def IPI_SRC_BMBOOT_MANAGER_def write_mirror_mapped)
  then show ?thesis
    using that [OF k] assms k m
    by (simp add: sendIpiMessage_def Let_def IPI_SRC_BMBOOT_MANAGER_def [symmetric] write_mirror_mapped BUF_SIZE_def register_addresses)
      (simp add: IPI_SRC_BMBOOT_MANAGER_def)
qed

lemma mm_read_foldl:
  "(\<And>i. i \<in> set is \<Longrightarrow> f i \<noteq> a) \<Longrightarrow> mm_read32 (foldl (\<lambda>io i. mm_write32 io (f i) (g i)) io is) a = mm_read32 io a"
  by (induction "is" arbitrary: io) auto

lemma buffer_elsewhere:
  assumes "i < 8"
  shows "message_buffer_base ch + of_nat i * 4 \<notin> {0xFD5C0048, 0xFD5C004C, 0xFD5C0050, 0xFD5C0054, 0xFD5C0058, 0xFD5C005C, 0xFD1A0104, 0xFF300000}"
proof -
  have "0xFF990000 \<le> unat (message_buffer_base ch + of_nat i * 4)"
  proof -
    have "unat (of_nat i * 4 :: u64) = i * 4" using assms by (simp add: unat_word_ariths unat_of_nat take_bit_eq_mod)
    then show ?thesis using assms by (cases ch; subst unat_add_lem [THEN iffD1]; simp)
  qed
  then show ?thesis by auto
qed

lemma sendIpi_kept:
  assumes "d \<noteq> e" and "sendIpiMessage mmap stack io d message = Some (io', err)"
  shows "core_kept e io io'"
  unfolding core_kept_def
proof (intro allI impI)
  fix j
  assume j: "getCpuIndex_manager e = Some j"
  obtain k ch where k: "getCpuIndex_manager d = Some k" "getIpiChannelForCpu k = Some ch"
    and io': "io' = mm_write32 (foldl (\<lambda>io i. mm_write32 io (message_buffer_base ch + of_nat i * 4) (mirror_word (message_mirror stack message) i)) io [0..<8])
       (IPI_TRIG IPI_SRC_BMBOOT_MANAGER) (getIpiPeerMask ch)"
    using sendIpi_shape [OF assms(2)] by blast
  let ?R = "{0xFD5C0048, 0xFD5C004C, 0xFD5C0050, 0xFD5C0054, 0xFD5C0058, 0xFD5C005C, 0xFD1A0104} :: u64 set"
  have "mm_read32 io' a = mm_read32 io a" if "a \<in> ?R" for a
  proof -
    have "message_buffer_base ch + of_nat i * 4 \<noteq> a" if "i \<in> set [0..<8]" for i
      using that buffer_elsewhere [of i ch] \<open>a \<in> ?R\<close> by auto
    moreover have "a \<noteq> 0xFF300000" using that by auto
    ultimately show ?thesis unfolding io' by (simp add: register_addresses del: upt_rec_numeral mirror_word.simps) (rule mm_read_foldl, simp)
  qed
  moreover have "RST_FPD_APU \<in> ?R" "RVBARADDRL j \<in> ?R" "RVBARADDRH j \<in> ?R"
    using cpu_numbers [OF j] by (auto simp: register_addresses)
  ultimately have r: "mm_read32 io' RST_FPD_APU = mm_read32 io RST_FPD_APU" "mm_read32 io' (RVBARADDRL j) = mm_read32 io (RVBARADDRL j)"
      "mm_read32 io' (RVBARADDRH j) = mm_read32 io (RVBARADDRH j)" by blast+
  define acc where "acc = map (\<lambda>i. W32 (message_buffer_base ch + of_nat i * 4) (mirror_word (message_mirror stack message) i)) [0..<8] @
      [W32 (IPI_TRIG IPI_SRC_BMBOOT_MANAGER) (getIpiPeerMask ch)]"
  have l: "mm_log io' = mm_log io @ acc" unfolding io' acc_def by (simp add: mm_log_foldl del: upt_rec_numeral)
  have t: "v AND getIpiPeerMask c' = 0" if "getIpiChannelForCpu j = Some c'" "W32 (IPI_TRIG IPI_SRC_BMBOOT_MANAGER) v \<in> set acc" for c' v
  proof -
    have "IPI_TRIG IPI_SRC_BMBOOT_MANAGER \<noteq> message_buffer_base ch + of_nat i * 4" if "i < 8" for i
      using buffer_elsewhere [OF that, of ch] unfolding register_addresses by force
    moreover have "(\<exists>i < 8. IPI_TRIG IPI_SRC_BMBOOT_MANAGER = message_buffer_base ch + of_nat i * 4) \<or> v = getIpiPeerMask ch"
      using that(2) by (auto simp: acc_def simp del: upt_rec_numeral mirror_word.simps)
    ultimately have "v = getIpiPeerMask ch" by blast
    moreover have "c' \<noteq> ch" using that(1) k(2) j k(1) assms(1) by (cases d; cases e) (auto simp: getIpiChannelForCpu_def split: if_splits)
    ultimately show ?thesis by (cases ch; cases c') simp_all
  qed
  show "core_in_reset (mm_read32 io' RST_FPD_APU) j = core_in_reset (mm_read32 io RST_FPD_APU) j \<and>
      mm_read32 io' (RVBARADDRL j) = mm_read32 io (RVBARADDRL j) \<and> mm_read32 io' (RVBARADDRH j) = mm_read32 io (RVBARADDRH j) \<and>
      (\<exists>acc. mm_log io' = mm_log io @ acc \<and>
         (\<forall>ch v. getIpiChannelForCpu j = Some ch \<and> W32 (IPI_TRIG IPI_SRC_BMBOOT_MANAGER) v \<in> set acc \<longrightarrow> v AND getIpiPeerMask ch = 0))"
    using r l t by auto
qed

section \<open>Operations\<close>

text \<open>
  What the operations do to the state, as the laws of a relation that is to hold between the states before and after.
  \<open>foreign\<close> are the domains that may be operated on, \<open>quiet\<close> says that what the other cores do, while the manager sleeps and
  once one of them is released, does not break the relation.
\<close>

locale host_frame =
  fixes kept :: "host \<Rightarrow> host \<Rightarrow> bool" and foreign :: "DomainIndex \<Rightarrow> bool" and quiet :: "manager_env \<Rightarrow> bool"
  assumes kept_refl: "kept h h"
    and kept_trans: "kept h h1 \<Longrightarrow> kept h1 h2 \<Longrightarrow> kept h h2"
    and sleep_kept: "quiet env \<Longrightarrow> kept h (os_sleep env i h)"
    and release_kept: "quiet env \<Longrightarrow> foreign d \<Longrightarrow> kept h (os_release env d h)"
    and handle_kept: "get_devmem_handle env h = (h1, x) \<Longrightarrow> kept h h1"
    and ipc_kept: "foreign d \<Longrightarrow> kept h (set_ipc d b h)"
    and general_state_kept: "foreign d \<Longrightarrow> kept h (set_general_state d g h)"
    and payload_write_kept: "foreign d \<Longrightarrow> getPhysicalMemoryRanges d = Some r \<Longrightarrow> n + length bs \<le> unat (payload_size r) \<Longrightarrow>
      kept h (h\<lparr>h_mem := mem_write (h_mem h) (payload_address r + of_nat n) bs\<rparr>)"
    and monitor_write_kept: "foreign d \<Longrightarrow> getPhysicalMemoryRanges d = Some r \<Longrightarrow> n + length bs \<le> unat (monitor_size r) \<Longrightarrow>
      kept h (h\<lparr>h_mem := mem_write (h_mem h) (monitor_address r + of_nat n) bs\<rparr>)"
    and boot_kept: "foreign d \<Longrightarrow> bootCore mmap (h_io h) d addr = Some (io, err) \<Longrightarrow> kept h (h\<lparr>h_io := io\<rparr>)"
    and ipi_kept: "foreign d \<Longrightarrow> sendIpiMessage mmap stack (h_io h) d message = Some (io, err) \<Longrightarrow> kept h (h\<lparr>h_io := io\<rparr>)"
begin

lemma outbox_kept: "foreign d \<Longrightarrow> kept h (set_outbox d ob h)"
  by (simp add: set_outbox_def ipc_kept)

lemma await_kept: "quiet env \<Longrightarrow> kept h (fst (await_loop env d i n h))"
  by (induction n arbitrary: i h) (auto simp: Let_def kept_refl intro: sleep_kept kept_trans [OF sleep_kept])

lemma start_loop_kept: "quiet env \<Longrightarrow> kept h (fst (start_loop env d i n h))"
  by (induction n arbitrary: i h) (auto simp: Let_def kept_refl intro: sleep_kept kept_trans [OF sleep_kept] split: option.split)

lemma startPayloadAt_kept: "quiet env \<Longrightarrow> foreign d \<Longrightarrow> kept h (fst (startPayloadAt env d a sz crc arg h))"
  using kept_trans [OF outbox_kept start_loop_kept] by (simp add: startPayloadAt_def issue_start_def kept_refl)

lemma open_kept: "foreign d \<Longrightarrow> open_domain env d h = Some (h', x) \<Longrightarrow> kept h h'"
  using kept_trans [OF handle_kept general_state_kept]
  by (auto simp: open_domain_def Let_def intro: handle_kept split: if_splits option.splits prod.splits sum.splits bool.splits)

lemma dump_kept: "dumpCore env prpsinfo prstatus pad room d saved h = Some (h', x) \<Longrightarrow> kept h h'"
  by (auto simp: dumpCore_def Let_def kept_refl intro: handle_kept split: if_splits option.splits prod.splits sum.splits)

lemma load_kept:
  assumes "quiet env" and "foreign d" and "loadAndStartPayload env d img crc arg h = Some (h', x)"
  shows "kept h h'"
proof -
  consider "h' = h"
    | r where "getPhysicalMemoryRanges d = Some r" "load_to_physical_memory env (payload_address r) img h = (h', x)" "x \<noteq> None"
    | r h1 where "getPhysicalMemoryRanges d = Some r" "length img \<le> unat (payload_size r)"
        "load_to_physical_memory env (payload_address r) img h = (h1, None)"
        "startPayloadAt env d (payload_address r) (of_nat (length img)) crc arg h1 = (h', x)"
    using assms(3) by (auto simp: loadAndStartPayload_def not_less split: if_splits option.splits prod.splits)
  then show ?thesis
  proof cases
    case 2
    then show ?thesis
      by (auto simp: load_to_physical_memory_def Let_def intro: handle_kept split: prod.splits sum.splits option.splits)
  next
    case (3 r h1)
    obtain h0 fd where h0: "get_devmem_handle env h = (h0, Inr fd)" "h1 = h0\<lparr>h_mem := mem_write (h_mem h0) (payload_address r) img\<rparr>"
      using 3(3) by (auto simp: load_to_physical_memory_def Let_def Mmap_data_def Mmap_new_def split: prod.splits sum.splits option.splits if_splits)
    have "kept h0 h1" unfolding h0(2) using payload_write_kept [OF assms(2) 3(1), of 0 img h0] 3(2) by simp
    with kept_trans [OF handle_kept [OF h0(1)]] have "kept h h1" .
    from kept_trans [OF this startPayloadAt_kept [OF assms(1,2)]] show ?thesis using 3(4) by (metis fst_conv)
  qed (simp add: kept_refl)
qed

lemma terminate_kept:
  assumes "quiet env" and "foreign d" and "terminatePayload env d h = Some (h', x)"
  shows "kept h h'"
proof -
  consider "h' = h" | y where "get_devmem_handle env h = (h', y)"
    | h1 y io z where "get_devmem_handle env h = (h1, y)"
        "sendIpiMessage (os_map env) (os_stack env) (h_io (set_outbox d ((outbox h1 d)\<lparr>cmd := Command_noop\<rparr>) h1)) d kill_message = Some (io, z)"
        "await_loop env d 0 50 ((set_outbox d ((outbox h1 d)\<lparr>cmd := Command_noop\<rparr>) h1)\<lparr>h_io := io\<rparr>) = (h', x)"
    using assms(3) by (auto simp: terminatePayload_def Let_def awaitMonitorStartup_def split: if_splits option.splits prod.splits sum.splits)
  then show ?thesis
  proof cases
    case (3 h1 y io z)
    from kept_trans [OF kept_trans [OF kept_trans [OF handle_kept [OF 3(1)] outbox_kept [OF assms(2)]] ipi_kept [OF assms(2) 3(2)]]
        await_kept [OF assms(1), of _ d 0 50]]
    show ?thesis unfolding 3(3) fst_conv .
  qed (auto simp: kept_refl intro: handle_kept)
qed

lemma release_core_kept:
  assumes "quiet env" and "foreign d" and "release_core env d addr h = Some (h', x)"
  shows "kept h h'"
proof -
  obtain io where io: "bootCore (os_map env) (h_io h) d addr = Some (io, x)" "h' = h\<lparr>h_io := io\<rparr> \<or> h' = os_release env d (h\<lparr>h_io := io\<rparr>)"
    using assms(3) by (auto simp: release_core_def split: option.splits prod.splits)
  have "kept h (h\<lparr>h_io := io\<rparr>)" by (rule boot_kept [OF assms(2) io(1)])
  with kept_trans [OF this release_kept [OF assms(1,2)]] io(2) show ?thesis by blast
qed

lemma startup_kept:
  assumes "quiet env" and "foreign d" and "startup env d h = Some (h', x)"
  shows "kept h h'"
proof -
  let ?m1 = "\<lambda>h1 r. h1\<lparr>h_mem := mem_write (h_mem h1) (monitor_address r) (monitor_image env d)\<rparr>"
  let ?m2 = "\<lambda>h1 r. (?m1 h1 r)\<lparr>h_mem := mem_write (h_mem (?m1 h1 r)) (cookie_address r) (le_bytes 4 MONITOR_CODE_COOKIE)\<rparr>"
  let ?h2 = "\<lambda>h1 r freq. set_ipc d (init_ipc freq) (?m2 h1 r)"
  consider "h' = h" | y where "get_devmem_handle env h = (h', y)"
    | r h1 y freq g z where "getPhysicalMemoryRanges d = Some r" "get_devmem_handle env h = (h1, y)"
        "length (monitor_image env d) \<le> unat (monitor_size r - sizeof_cookie)"
        "release_core env d (monitor_address r) (?h2 h1 r freq) = Some (g, z)"
        "h' = g \<or> await_loop env d 0 50 (set_general_state d monitorStarted g) = (h', x)"
    using assms(3)
    by (auto simp: startup_def startup_with_def Let_def awaitMonitorStartup_def sizeof_cookie_def not_less
        split: if_splits option.splits prod.splits sum.splits)
  then show ?thesis
  proof cases
    case (3 r h1 y freq g z)
    note w = monitor_write_kept [OF assms(2) 3(1)] and ms = ranges_bounds(4) [OF 3(1)]
    have "cookie_address r = monitor_address r + of_nat 0xFFFC" using ms by (simp add: cookie_address_def sizeof_cookie_def)
    then have "kept (?m1 h1 r) (?m2 h1 r)" using w [of "0xFFFC" "le_bytes 4 MONITOR_CODE_COOKIE" "?m1 h1 r"] ms by simp
    moreover have "kept h1 (?m1 h1 r)" using w [of 0 "monitor_image env d" h1] 3(3) ms by (simp add: sizeof_cookie_def)
    ultimately have "kept h (?h2 h1 r freq)"
      using kept_trans [OF handle_kept [OF 3(2)]] ipc_kept [OF assms(2)] kept_trans by blast
    from kept_trans [OF this release_core_kept [OF assms(1,2) 3(4)]] have g: "kept h g" .
    from 3(5) show ?thesis
    proof
      assume "await_loop env d 0 50 (set_general_state d monitorStarted g) = (h', x)"
      with kept_trans [OF kept_trans [OF g general_state_kept [OF assms(2)]] await_kept [OF assms(1), of _ d 0 50]] show ?thesis
        by (metis fst_conv)
    qed (use g in simp)
  qed (auto simp: kept_refl intro: handle_kept)
qed

lemma ensure_kept: "quiet env \<Longrightarrow> foreign d \<Longrightarrow> ensureReadyToLoadPayload env d h = Some (h', x) \<Longrightarrow> kept h h'"
  using startup_kept terminate_kept by (auto simp: ensureReadyToLoadPayload_def Let_def kept_refl split: if_splits)

lemma op_kept:
  assumes "quiet env" and "foreign d" and "domain_op_run env d x h = Some h'"
    and "\<And>el img arg. x \<noteq> op_loadElfPayload el img arg"
  shows "kept h h'"
  using assms(3,4)
  by (cases x) (auto intro: open_kept [OF assms(2)] startup_kept [OF assms(1,2)] terminate_kept [OF assms(1,2)] ensure_kept [OF assms(1,2)]
      load_kept [OF assms(1,2)] dump_kept ipc_kept [OF assms(2)]
      simp: startDummyPayload_def startPayloadAt_kept [OF assms(1,2)])

lemma ops_kept:
  assumes "quiet env" and "domain_ops_run env xs h = Some h'" and "\<And>d x. (d, x) \<in> set xs \<Longrightarrow> foreign d"
    and "\<And>d el img arg. (d, op_loadElfPayload el img arg) \<notin> set xs"
  shows "kept h h'"
  using assms(2-4)
proof (induction xs arbitrary: h)
  case (Cons y xs)
  obtain d x where y: "y = (d, x)" by fastforce
  then obtain h1 where h1: "domain_op_run env d x h = Some h1" "domain_ops_run env xs h1 = Some h'"
    using Cons.prems(1) by (auto simp: bind_eq_Some_conv)
  have "foreign d" using Cons.prems(2) [of d x] y by simp
  moreover have "x \<noteq> op_loadElfPayload el img arg" for el img arg
    using Cons.prems(3) [of d el img arg] y by auto
  ultimately have "kept h h1" by (rule op_kept [OF assms(1) _ h1(1)])
  moreover have "kept h1 h'" by (rule Cons.IH [OF h1(2)]) (meson Cons.prems(2,3) list.set_intros(2))+
  ultimately show ?case by (rule kept_trans)
qed (simp add: kept_refl)

end

text \<open>Leaving a domain alone satisfies the laws when the operations are on other domains.\<close>

interpretation other_domain: host_frame "domain_kept e" "\<lambda>d. d \<noteq> e" "\<lambda>env. (\<forall>i h. domain_kept e h (os_sleep env i h)) \<and> (\<forall>d h. d \<noteq> e \<longrightarrow> domain_kept e h (os_release env d h))" for e
proof unfold_locales
  fix d r n bs h
  assume d: "d \<noteq> e" and r: "getPhysicalMemoryRanges d = Some r"
  show "domain_kept e h (h\<lparr>h_mem := mem_write (h_mem h) (payload_address r + of_nat n) bs\<rparr>)" if "n + length bs \<le> unat (payload_size r)"
    using region_write_kept [OF d payload_region [OF r] ranges_bounds(1) [OF r] that] by (rule kept_updates(3))
  show "domain_kept e h (h\<lparr>h_mem := mem_write (h_mem h) (monitor_address r + of_nat n) bs\<rparr>)" if "n + length bs \<le> unat (monitor_size r)"
    using region_write_kept [OF d monitor_region [OF r] ranges_bounds(2) [OF r] that] by (rule kept_updates(3))
qed (auto simp: kept_updates intro: domain_kept_trans kept_devmem kept_updates(4) [OF bootCore_kept] kept_updates(4) [OF sendIpi_kept])

section \<open>Isolation\<close>

text \<open>
  C11: domains are isolated from each other in the manager. Whatever sequence of operations other than \<open>loadElfPayload\<close> a
  client performs on other domains, with whatever results, the domain \<open>e\<close> is left alone: its IPC block, its monitor and
  payload memory, the manager's record of its state, the reset state and reset vector of its core are unchanged, and no
  inter-processor interrupt is sent to it; so its state as \<open>getState\<close> shows it is the same. This supposes that the other
  cores leave the domain alone while the manager sleeps and after the manager has released them.
  \<open>loadElfPayload\<close> is excluded because where it stores is up to the ELF library, and the allocation call-back
  grants it any memory if it asks for a size that wraps around (see the property of the call-backs in theory Domain).
\<close>

theorem domains_isolated:
  assumes "\<And>i h. domain_kept e h (os_sleep env i h)" and "\<And>d h. d \<noteq> e \<Longrightarrow> domain_kept e h (os_release env d h)"
    and "domain_ops_run env xs h = Some h'" and "\<And>d x. (d, x) \<in> set xs \<Longrightarrow> d \<noteq> e"
    and "\<And>d el img arg. (d, op_loadElfPayload el img arg) \<notin> set xs"
  shows "h_ipc h' e = h_ipc h e \<and> getState h' e = getState h e \<and>
    (\<forall>r \<in> set (regions_of e). \<forall>x. in_region x r \<longrightarrow> h_mem h' x = h_mem h x) \<and> core_kept e (h_io h) (h_io h')"
  using other_domain.ops_kept [of e env xs h h'] assms by (auto simp: domain_kept_def memory_kept_def intro: getState_cong)

theorem domains_isolated_witness:
  "\<exists>h'. domain_ops_run (demo_env running_payload) [(cpu1, op_loadAndStartPayload [1, 2, 3, 4] 0 0), (cpu1, op_getchar)]
       (demo_host monitorStarted monitor_ready) = Some h' \<and>
     h_ipc h' cpu2 = h_ipc (demo_host monitorStarted monitor_ready) cpu2 \<and> getState h' cpu2 = monitor_ready \<and>
     h_mem h' 0x802100000 = 0 \<and> h_mem h' 0x800100000 = 1"
proof -
  let ?env = "demo_env running_payload" and ?h = "demo_host monitorStarted monitor_ready"
  let ?ops = "[(cpu1, op_loadAndStartPayload [1, 2, 3, 4] 0 0), (cpu1, op_getchar)]"
  have q: "domain_kept cpu2 h (os_sleep ?env i h)" "domain_kept cpu2 h (os_release ?env d h)" for i d h
    by (simp_all add: demo_env_def kept_updates)
  obtain h' where h': "domain_ops_run ?env ?ops ?h = Some h'" "h_mem h' 0x800100000 = 1"
  proof -
    let ?m = "?h\<lparr>s_devmem_handle := 3, h_mem := mem_write (\<lambda>_. 0) 0x800100000 [1, 2, 3, 4]\<rparr>"
    let ?g = "issue_start cpu1 0x800100000 4 0 0 ?m"
    have ready: "getState ?m cpu1 = monitor_ready" "cmd_ack (inbox ?h cpu1) = cmd_seq (outbox ?h cpu1)" "h_mem ?h = (\<lambda>_. 0)"
      by (simp_all add: getState_def demo_host_def zero_IpcBlock_def)
    have "poll_start (os_sleep ?env 0 ?g) cpu1 = Some None"
      by (simp add: poll_start_def demo_env_def getState_def demo_host_def issue_start_def zero_IpcBlock_def)
    then have "start_loop ?env cpu1 0 100 ?g = (os_sleep ?env 0 ?g, None)"
      using start_polling.answer_now [of ?env 0 ?g cpu1 None 100] by simp
    then have "loadAndStartPayload ?env cpu1 [1, 2, 3, 4] 0 0 ?h = Some (os_sleep ?env 0 ?g, None)"
      using ready
      by (simp add: loadAndStartPayload_def load_to_physical_memory_def Mmap_data_def Mmap_new_def memmap_defs startPayloadAt_def Let_def)
    moreover have "\<exists>b. getchar (h_ipc (os_sleep ?env 0 ?g) cpu1) = Some (b, -1)"
      by (simp add: getchar_def demo_env_def issue_start_def demo_host_def zero_IpcBlock_def Let_def)
    moreover have "h_mem (os_sleep ?env 0 ?g) 0x800100000 = 1" by (simp add: demo_env_def)
    ultimately show ?thesis using that by auto
  qed
  have "(0x802100000, 0x2000000) \<in> set (regions_of cpu2)" "in_region 0x802100000 (0x802100000, 0x2000000)"
    by (simp_all add: regions_of_def memmap_defs in_region_def)
  moreover have "h_ipc h' cpu2 = h_ipc ?h cpu2 \<and> getState h' cpu2 = getState ?h cpu2 \<and>
      (\<forall>r \<in> set (regions_of cpu2). \<forall>x. in_region x r \<longrightarrow> h_mem h' x = h_mem ?h x) \<and> core_kept cpu2 (h_io ?h) (h_io h')"
    by (rule domains_isolated [OF q h'(1)]) auto
  moreover have "h_mem ?h 0x802100000 = 0" by (simp add: demo_host_def)
  ultimately show ?thesis using h' by (metis demo_state)
qed

end
