(* ===== verification/Console.thy ===== *)
theory Console
  imports Domain
begin

text \<open>
  The console of a domain: \<open>runConsole\<close> of \<open>src/manager/domain_helpers.cpp\<close>, on the manager's state and
  \<open>Domain::getchar\<close>. What the other cores do between two iterations of the loop is an argument, as is
  the number of iterations after which the signal handler interrupts it. A printed line is represented by its
  text, without the domain name and the time in front of it.
\<close>

section \<open>Lines\<close>

text \<open>\<open>printf("%s")\<close> shows the accumulated text up to its first zero byte.\<close>

definition c_str :: "bytes \<Rightarrow> bytes" where
  "c_str s = takeWhile (\<lambda>b. b \<noteq> 0) s"

definition MAX_LINE_LENGTH :: nat where "MAX_LINE_LENGTH = 160"

text \<open>The body of the loop on one result of \<open>getchar\<close>: the new content of the string stream, and what \<open>flush\<close> prints.\<close>

definition console_char :: "bytes \<Rightarrow> int \<Rightarrow> bytes \<times> bytes list" where
  "console_char accum c =
     (if c \<ge> 0
      then if c = 10 then ([], [c_str accum])
           else let accum' = accum @ [word_of_int c] in
                if length accum' \<ge> MAX_LINE_LENGTH then ([], [c_str accum']) else (accum', [])
      else (accum, []))"

text \<open>Iteration \<open>i\<close> of the loop with \<open>n\<close> iterations left.\<close>

fun runConsole :: "(nat \<Rightarrow> host \<Rightarrow> host) \<Rightarrow> DomainIndex \<Rightarrow> nat \<Rightarrow> nat \<Rightarrow> bytes \<Rightarrow> host \<Rightarrow> (host \<times> bytes list) option" where
  "runConsole others d i 0 accum h = Some (h, if length accum > 0 then [c_str accum] else [])"
| "runConsole others d i (Suc n) accum h =
     (let h0 = others i h in
      case getchar (h_ipc h0 d) of
        None \<Rightarrow> None
      | Some (b, c) \<Rightarrow>
          (case console_char accum c of
             (accum', out) \<Rightarrow>
               (case runConsole others d (Suc i) n accum' (set_ipc d b h0) of
                  None \<Rightarrow> None
                | Some (h', rest) \<Rightarrow> Some (h', out @ rest))))"

section \<open>Console threads\<close>

text \<open>
  The flags and threads of \<open>domain_helpers.cpp\<close>: which consoles have been told to stop, and which have a thread that
  was not joined yet. A thread makes as many iterations as pass before its flag is set, none if it is set already.
\<close>

record consoles =
  console_interrupted :: "DomainIndex \<Rightarrow> bool"
  console_threads :: "DomainIndex \<Rightarrow> bool"

definition on_sigint :: "consoles \<Rightarrow> consoles" where
  "on_sigint c = c\<lparr>console_interrupted := (\<lambda>_. True)\<rparr>"

text \<open>The second component says whether a thread was started.\<close>

definition startConsoleThread :: "DomainIndex \<Rightarrow> consoles \<Rightarrow> consoles \<times> bool" where
  "startConsoleThread d c =
     (if \<not> console_threads c d then (c\<lparr>console_threads := (console_threads c)(d := True)\<rparr>, True) else (c, False))"

definition console_thread_run ::
    "consoles \<Rightarrow> (nat \<Rightarrow> host \<Rightarrow> host) \<Rightarrow> DomainIndex \<Rightarrow> nat \<Rightarrow> host \<Rightarrow> (host \<times> bytes list) option" where
  "console_thread_run c others d interrupted_at h =
     runConsole others d 0 (if console_interrupted c d then 0 else interrupted_at) [] h"

text \<open>\<open>runConsoleUntilInterrupted\<close> as far as flags and threads are concerned: the flag is reset, the thread started if needed, the signal arrives, the thread is joined.\<close>

definition console_session :: "DomainIndex \<Rightarrow> consoles \<Rightarrow> consoles" where
  "console_session d c =
     (let c1 = c\<lparr>console_interrupted := (console_interrupted c)(d := False)\<rparr>;
          c2 = on_sigint (fst (startConsoleThread d c1))
      in c2\<lparr>console_threads := (console_threads c2)(d := False)\<rparr>)"

text \<open>
  A session resets the flag of its own domain only, and \<open>startConsoleThread\<close> resets none: after a session every
  thread started on its own ends without reading a character, whichever domain it is for.
\<close>

lemma console_thread_after_session:
  "\<not> console_threads c d' \<Longrightarrow> \<exists>c'. startConsoleThread d' (console_session d c) = (c', True) \<and>
     console_thread_run c' others d' n h = Some (h, [])"
  by (simp add: console_session_def startConsoleThread_def on_sigint_def console_thread_run_def Let_def)

section \<open>The lines as a function of the characters\<close>

fun console_lines :: "int list \<Rightarrow> bytes \<Rightarrow> bytes list" where
  "console_lines [] accum = (if length accum > 0 then [c_str accum] else [])"
| "console_lines (c # cs) accum = (case console_char accum c of (accum', out) \<Rightarrow> out @ console_lines cs accum')"

definition console_text :: "int list \<Rightarrow> bytes" where
  "console_text cs = map word_of_int (filter (\<lambda>c. c \<ge> 0 \<and> c \<noteq> 10) cs)"

lemma c_str_id: "0 \<notin> set xs \<Longrightarrow> c_str xs = xs"
  by (auto simp: c_str_def takeWhile_eq_all_conv)

lemma length_c_str: "length (c_str xs) \<le> length xs"
  by (simp add: c_str_def length_takeWhile_le)

lemma console_char_text:
  assumes "0 \<notin> set accum" and "c \<ge> 0 \<Longrightarrow> (word_of_int c :: u8) \<noteq> 0" and "console_char accum c = (accum', out)"
  shows "concat out @ accum' = accum @ console_text [c]" and "0 \<notin> set accum'"
proof -
  have nz: "0 \<notin> set (accum @ [word_of_int c])" if "c \<ge> 0" using assms(1,2) that by auto
  show "concat out @ accum' = accum @ console_text [c]" "0 \<notin> set accum'"
    using assms nz by (auto simp: console_char_def console_text_def c_str_id Let_def split: if_splits)
qed

lemma console_text_Cons: "console_text (c # cs) = console_text [c] @ console_text cs"
  by (simp add: console_text_def)

lemma console_lines_text:
  assumes "0 \<notin> set accum" and "\<And>c. c \<in> set cs \<Longrightarrow> c \<ge> 0 \<Longrightarrow> (word_of_int c :: u8) \<noteq> 0"
  shows "concat (console_lines cs accum) = accum @ console_text cs"
  using assms
proof (induction cs arbitrary: accum)
  case Nil
  then show ?case by (simp add: c_str_id console_text_def)
next
  case (Cons c cs)
  obtain accum' out where cc: "console_char accum c = (accum', out)" by fastforce
  have t: "concat out @ accum' = accum @ console_text [c]" "0 \<notin> set accum'"
    using console_char_text [OF Cons.prems(1) _ cc] Cons.prems(2) by auto
  then have "concat (console_lines cs accum') = accum' @ console_text cs"
    using Cons by simp
  then show ?case
    using t(1) by (metis append.assoc case_prod_conv cc concat_append console_lines.simps(2) console_text_Cons)
qed

lemma console_char_length:
  assumes "length accum < MAX_LINE_LENGTH" and "console_char accum c = (accum', out)"
  shows "length accum' < MAX_LINE_LENGTH" and "\<forall>l \<in> set out. length l \<le> MAX_LINE_LENGTH"
  using assms length_c_str [of accum] length_c_str [of "accum @ [word_of_int c]"]
  by (auto simp: console_char_def Let_def MAX_LINE_LENGTH_def split: if_splits)

lemma console_lines_length:
  "length accum < MAX_LINE_LENGTH \<Longrightarrow> l \<in> set (console_lines cs accum) \<Longrightarrow> length l \<le> MAX_LINE_LENGTH"
proof (induction cs arbitrary: accum)
  case Nil
  then show ?case using length_c_str [of accum] by (auto split: if_splits)
next
  case (Cons c cs)
  obtain accum' out where cc: "console_char accum c = (accum', out)" by fastforce
  with Cons show ?case using console_char_length [OF Cons.prems(1) cc] by auto
qed

section \<open>The loop on the stdout channel\<close>

text \<open>
  When the only thing the other cores do to the domain's IPC block is to print the bytes \<open>w i\<close> before
  iteration \<open>i\<close>, the loop is a run of the channel: a write and a poll in turn.
\<close>

definition printing :: "DomainIndex \<Rightarrow> (nat \<Rightarrow> bytes) \<Rightarrow> nat \<Rightarrow> host \<Rightarrow> host" where
  "printing d w i h = (case writeToStdout (h_ipc h d) (w i) of None \<Rightarrow> h | Some (b, _) \<Rightarrow> set_ipc d b h)"

fun console_ops :: "(nat \<Rightarrow> bytes) \<Rightarrow> nat \<Rightarrow> nat \<Rightarrow> chan_op list" where
  "console_ops w i 0 = []"
| "console_ops w i (Suc n) = Put (w i) # Get # console_ops w (Suc i) n"

lemma puts_console_ops: "puts (console_ops w i n) = concat (map w [i..<i + n])"
  by (induction n arbitrary: i) (simp_all add: upt_conv_Cons del: upt_Suc)

lemma runConsole_is_channel_run:
  "chan_run writeToStdout getchar (h_ipc h d) (console_ops w i n) = Some (r, b) \<Longrightarrow>
     runConsole (printing d w) d i n accum h = Some (set_ipc d b h, console_lines r accum)"
proof (induction n arbitrary: i accum h r)
  case 0
  then show ?case by (auto simp: set_ipc_def)
next
  case (Suc n)
  then obtain b1 k b2 c r' where
    "writeToStdout (h_ipc h d) (w i) = Some (b1, k)" "getchar b1 = Some (b2, c)"
    "chan_run writeToStdout getchar b2 (console_ops w (Suc i) n) = Some (r', b)" "r = c # r'"
    by (auto split: option.splits)
  with Suc.IH [of "set_ipc d b2 h" "Suc i" r'] show ?case
    by (auto simp: printing_def set_ipc_def split: prod.splits)
qed

text \<open>The characters the channel delivers, as bytes.\<close>

lemma console_text_delivered: "console_text r = console_text (delivered r)"
  by (induction r) (auto simp: console_text_def delivered_def)

lemma console_text_bytes: "console_text (map uint bs) = filter (\<lambda>b. b \<noteq> 10) (bs :: bytes)"
proof (induction bs)
  case Nil
  then show ?case by (simp add: console_text_def)
next
  case (Cons b bs)
  have "uint b = 10 \<longleftrightarrow> b = 10" by (simp add: word_uint_eq_iff)
  with Cons show ?case by (simp add: console_text_def)
qed

lemma console_lines_delivered: "console_lines (delivered r) accum = console_lines r accum"
  by (induction r arbitrary: accum) (auto simp: delivered_def console_char_def split: prod.splits)

text \<open>The specification: the text cut at its line feeds, the last line without one included.\<close>

fun split_lines :: "bytes \<Rightarrow> bytes \<Rightarrow> bytes list" where
  "split_lines [] accum = (if accum = [] then [] else [accum])"
| "split_lines (b # bs) accum = (if b = 10 then accum # split_lines bs [] else split_lines bs (accum @ [b]))"

lemma split_lines_mono: "accum \<noteq> [] \<Longrightarrow> \<exists>l \<in> set (split_lines bs accum). length accum \<le> length l"
proof (induction bs arbitrary: accum)
  case (Cons b bs)
  then show ?case using Cons.IH [of "accum @ [b]"] by (auto simp: Suc_le_eq intro: less_imp_le)
qed simp

lemma uint_u8_eq_10: "uint (b :: u8) = 10 \<longleftrightarrow> b = 10"
  by (simp add: word_uint_eq_iff)

lemma console_lines_split:
  assumes "\<forall>l \<in> set (split_lines bs accum). length l < MAX_LINE_LENGTH" and "0 \<notin> set accum" and "0 \<notin> set bs"
  shows "console_lines (map uint bs) accum = split_lines bs accum"
  using assms
proof (induction bs arbitrary: accum)
  case Nil
  then show ?case by (simp add: c_str_id)
next
  case (Cons b bs)
  show ?case
  proof (cases "b = 10")
    case True
    with Cons show ?thesis by (simp add: console_char_def c_str_id)
  next
    case False
    then have "length (accum @ [b]) < MAX_LINE_LENGTH"
      using Cons.prems(1) split_lines_mono [of "accum @ [b]" bs] by force
    with False Cons show ?thesis by (simp add: console_char_def uint_u8_eq_10 Let_def)
  qed
qed

lemma append_map_uint:
  "xs @ map uint ys = map uint (zs :: bytes) \<Longrightarrow> \<exists>us. xs = map uint us \<and> us @ ys = zs"
  by (auto simp: append_eq_map_conv map_injective inj_def word_uint_eq_iff [symmetric])

section \<open>Properties\<close>

text \<open>
  C23: the console shows what the payload writes: while the output in flight fits the ring, the printed
  lines put together are exactly the bytes delivered so far without their line feeds, in order;
  what was delivered and what is still in the ring is everything pending at the start and written
  since; no line is longer than 160 characters; and as long as the text has no line of 160 characters or
  more, the lines printed are the lines of the text. (Output with zero bytes is cut by the C string
  conversion.)
\<close>

theorem console_shows_output:
  assumes "stdout_invar (h_ipc h d)" and "fits 1023 (length (stdout_pending (h_ipc h d))) (console_ops w 0 n)"
    and "0 \<notin> set (stdout_pending (h_ipc h d) @ concat (map w [0..<n]))"
  shows "\<exists>b shown ls. runConsole (printing d w) d 0 n [] h = Some (set_ipc d b h, ls) \<and>
    shown @ stdout_pending b = stdout_pending (h_ipc h d) @ concat (map w [0..<n]) \<and>
    concat ls = filter (\<lambda>c. c \<noteq> 10) shown \<and> (\<forall>l \<in> set ls. length l \<le> 160) \<and>
    ((\<forall>l \<in> set (split_lines shown []). length l < 160) \<longrightarrow> ls = split_lines shown [])"
proof -
  let ?all = "stdout_pending (h_ipc h d) @ concat (map w [0..<n])"
  from assms(2) have "fits stdout_capacity (length (stdout_pending (h_ipc h d))) (console_ops w 0 n)"
    by (simp add: stdout_capacity_def sizeof_stdout_buf_def)
  from stdout.chan_run_lossless [OF assms(1) this] obtain r b where
    run: "chan_run writeToStdout getchar (h_ipc h d) (console_ops w 0 n) = Some (r, b)"
      "delivered r @ map uint (stdout_pending b) = map uint ?all"
    by (auto simp: puts_console_ops)
  then obtain shown where shown: "delivered r = map uint shown" "shown @ stdout_pending b = ?all"
    using append_map_uint by metis
  have nz: "0 \<notin> set shown" using assms(3) shown(2) by (metis Un_iff set_append)
  have "concat (console_lines (map uint shown) []) = filter (\<lambda>c. c \<noteq> 10) shown"
  proof -
    have "(word_of_int c :: u8) \<noteq> 0" if "c \<in> set (map uint shown)" for c using that nz by auto
    then show ?thesis using console_lines_text [of "[]" "map uint shown"] by (simp add: console_text_bytes)
  qed
  moreover have "\<forall>l \<in> set (console_lines (map uint shown) []). length l \<le> 160"
    using console_lines_length [of "[]" _ "map uint shown"] by (simp add: MAX_LINE_LENGTH_def)
  moreover have "(\<forall>l \<in> set (split_lines shown []). length l < 160) \<longrightarrow> console_lines (map uint shown) [] = split_lines shown []"
    using console_lines_split [of shown "[]"] nz by (simp add: MAX_LINE_LENGTH_def)
  moreover have "runConsole (printing d w) d 0 n [] h = Some (set_ipc d b h, console_lines (map uint shown) [])"
    using runConsole_is_channel_run [OF run(1), of "[]"] console_lines_delivered [of r "[]"] shown(1) by simp
  ultimately show ?thesis using shown(2) by blast
qed

definition quiet_host :: host where
  "quiet_host = \<lparr>s_devmem_handle = 3, domain_general_state = (\<lambda>_. monitorStarted), h_mem = (\<lambda>_. 0),
     h_ipc = (\<lambda>_. zero_IpcBlock), h_io = \<lparr>mm_regs = (\<lambda>_. 0), mm_log = []\<rparr>\<rparr>"

theorem console_shows_output_witness:
  "\<exists>b shown ls. runConsole (printing cpu1 (\<lambda>i. if i = 0 then [72, 105, 10] else [])) cpu1 0 3 [] quiet_host =
      Some (set_ipc cpu1 b quiet_host, ls) \<and> shown @ stdout_pending b = [72, 105, 10] \<and>
    concat ls = filter (\<lambda>c. c \<noteq> 10) shown"
proof -
  let ?w = "\<lambda>i :: nat. if i = 0 then [72, 105, 10 :: u8] else []"
  have q: "h_ipc quiet_host cpu1 = zero_IpcBlock" by (simp add: quiet_host_def)
  have "fits 1023 (length (stdout_pending (h_ipc quiet_host cpu1))) (console_ops ?w 0 3)"
    by (simp add: q numeral_3_eq_3)
  moreover have w: "concat (map ?w [0..<3]) = [72, 105, 10]" by (simp add: numeral_3_eq_3)
  ultimately show ?thesis
    using console_shows_output [of quiet_host cpu1 ?w 3] unfolding q w by auto
qed

end
