(* ===== verification/Tools.thy ===== *)
theory Tools
  imports Console Coredump Crc32
begin

text \<open>
  The helpers and command line tools on top of the manager: \<open>src/manager/domain_helpers.cpp\<close> (loading from a
  file, exceptions), \<open>src/tools/bmctl.cpp\<close> and \<open>src/tools/console.cpp\<close>. The outcome of a tool is its exit status,
  the lines it has printed and the final state, or the exception that leaves \<open>main\<close>.
\<close>

section \<open>Outcomes and output\<close>

datatype line = Out string | Err string

datatype tool_outcome = Exit int "line list" host | Throw string "line list" host | Fault

text \<open>Lines printed before what follows.\<close>

fun say :: "line list \<Rightarrow> tool_outcome \<Rightarrow> tool_outcome" where
  "say ls (Exit c out h) = Exit c (ls @ out) h"
| "say ls (Throw e out h) = Throw e (ls @ out) h"
| "say ls Fault = Fault"

definition text_of :: "bytes \<Rightarrow> string" where
  "text_of bs = map (\<lambda>b. char_of (unat b)) bs"

definition quoted :: "string \<Rightarrow> string" where
  "quoted s = CHR 0x27 # s @ [CHR 0x27]"

definition state_text :: "DomainState \<Rightarrow> string" where
  "state_text s = toString_DomainState (int_of_DomainState s)"

section \<open>Loading from a file\<close>

text \<open>\<open>std::filesystem::path::extension\<close>: of the last component, from its last dot, unless that is its first character.\<close>

definition path_filename :: "string \<Rightarrow> string" where
  "path_filename p = rev (takeWhile (\<lambda>c. c \<noteq> CHR ''/'') (rev p))"

definition path_extension :: "string \<Rightarrow> string" where
  "path_extension p =
     (let f = path_filename p; stem_rev = dropWhile (\<lambda>c. c \<noteq> CHR ''.'') (rev f) in
      if f = ''.'' \<or> f = ''..'' \<or> length stem_rev \<le> 1 then '''' else drop (length stem_rev - 1) f)"

definition error_text :: "string \<Rightarrow> ErrorCode \<Rightarrow> string" where
  "error_text function_name e = function_name @ '': error: '' @ toString_ErrorCode e"

text \<open>\<open>throwOnError\<close> for an operation that yields a \<open>MaybeError\<close>, and for \<open>IDomain::open\<close>; \<open>k\<close> is what follows.\<close>

definition throwOnError :: "string \<Rightarrow> (host \<times> MaybeError) option \<Rightarrow> (host \<Rightarrow> tool_outcome) \<Rightarrow> tool_outcome" where
  "throwOnError function_name r k =
     (case r of
        None \<Rightarrow> Fault
      | Some (h, Some e) \<Rightarrow> Throw (error_text function_name e) [] h
      | Some (h, None) \<Rightarrow> k h)"

definition throwOnError_open ::
    "string \<Rightarrow> (host \<times> (ErrorCode + DomainIndex)) option \<Rightarrow> (host \<Rightarrow> tool_outcome) \<Rightarrow> tool_outcome" where
  "throwOnError_open function_name r k =
     (case r of
        None \<Rightarrow> Fault
      | Some (h, Inl e) \<Rightarrow> Throw (error_text function_name e) [] h
      | Some (h, Inr _) \<Rightarrow> k h)"

text \<open>
  The arguments of the tools besides those of the manager: the ELF loader, the file system, what the
  other cores do while the console runs and the iteration at which it is interrupted, and the
  arguments of the core dump writer.
\<close>

record tool_env =
  t_mgr :: manager_env
  t_elf :: elf_loader
  t_files :: "string \<Rightarrow> bytes option"
  t_others :: "nat \<Rightarrow> host \<Rightarrow> host"
  t_interrupt :: nat
  t_prpsinfo :: bytes
  t_prstatus :: "bytes \<Rightarrow> bytes"
  t_pad :: bytes
  t_room :: "nat option"

definition loadPayloadFromFileOrThrow ::
    "tool_env \<Rightarrow> DomainIndex \<Rightarrow> string \<Rightarrow> host \<Rightarrow> (host \<Rightarrow> tool_outcome) \<Rightarrow> tool_outcome" where
  "loadPayloadFromFileOrThrow t d path h k =
     (case t_files t path of
        None \<Rightarrow> Throw (''failed to open '' @ path) [] h
      | Some program \<Rightarrow>
          if path_extension path = ''.elf''
          then throwOnError ''loadElfPayload'' (loadElfPayload (t_mgr t) (t_elf t) d program 1234 h) k
          else throwOnError ''loadAndStartPayload'' (loadAndStartPayload (t_mgr t) d program (crc32 0 program) 123 h) k)"

definition runConsoleUntilInterrupted :: "tool_env \<Rightarrow> DomainIndex \<Rightarrow> host \<Rightarrow> (host \<Rightarrow> tool_outcome) \<Rightarrow> tool_outcome" where
  "runConsoleUntilInterrupted t d h k =
     (case runConsole (t_others t) d 0 (t_interrupt t) [] h of
        None \<Rightarrow> Fault
      | Some (h', ls) \<Rightarrow> say (map (\<lambda>l. Out (text_of l)) ls) (k h'))"

section \<open>\<open>bmctl\<close>\<close>

definition usage_bmctl :: "line list" where
  "usage_bmctl = map Err
     [''usage: bmctl boot <domain>'', ''usage: bmctl core <domain>'', ''usage: bmctl debuginfo <domain>'',
      ''usage: bmctl run <domain> <payload>'', ''usage: bmctl start <domain> <payload>'',
      ''usage: bmctl status <domain>'', ''usage: bmctl terminate <domain>'']"

definition display_domain_state :: "host \<Rightarrow> DomainIndex \<Rightarrow> line list" where
  "display_domain_state h d =
     Out (state_text (getState h d)) #
     (if getState h d = crashed_monitor \<or> getState h d = crashed_payload
      then [Out (''(at address 0x'' @ to_hex (unat (crash_pc (getCrashInfo h d))) @ '')''),
            Out (''(description '' @ text_of (c_str (crash_desc (getCrashInfo h d))) @ '')'')]
      else [])"

text \<open>An operation whose error makes \<open>main\<close> print a message and return -1; \<open>k\<close> is what follows success.\<close>

definition exit_on_error :: "string \<Rightarrow> (host \<times> MaybeError) option \<Rightarrow> (host \<Rightarrow> tool_outcome) \<Rightarrow> tool_outcome" where
  "exit_on_error name r k =
     (case r of
        None \<Rightarrow> Fault
      | Some (h, Some e) \<Rightarrow> Exit (-1) [Err (error_text name e)] h
      | Some (h, None) \<Rightarrow> k h)"

definition bmctl_boot :: "tool_env \<Rightarrow> DomainIndex \<Rightarrow> host \<Rightarrow> tool_outcome" where
  "bmctl_boot t d h =
     (if getState h d = in_reset
      then exit_on_error ''IDomain::startup_domain'' (startup (t_mgr t) d h) (\<lambda>h'.
             Exit 0 [Out (''domain state: '' @ state_text (getState h' d))] h')
      else Exit 0 [Err (''cannot start domain up: domain state '' @ state_text (getState h d) @ '' != inReset'')] h)"

definition bmctl_core :: "tool_env \<Rightarrow> DomainIndex \<Rightarrow> host \<Rightarrow> tool_outcome" where
  "bmctl_core t d h =
     (case dumpCore (t_mgr t) (t_prpsinfo t) (t_prstatus t) (t_pad t) (t_room t) d None h of
        None \<Rightarrow> Fault
      | Some (h', _, DumpError e) \<Rightarrow> Exit (-1) [Err (error_text ''IDomain::dumpCore'' e)] h'
      | Some (h', _, Dumped f) \<Rightarrow> Exit 0 [] h'
      | Some (h', _, DumpFault) \<Rightarrow> Fault)"

text \<open>The common part of \<open>run\<close> and \<open>start\<close>.\<close>

definition bmctl_load :: "tool_env \<Rightarrow> DomainIndex \<Rightarrow> string \<Rightarrow> host \<Rightarrow> (host \<Rightarrow> tool_outcome) \<Rightarrow> tool_outcome" where
  "bmctl_load t d path h k =
     (if getState h d \<noteq> monitor_ready
      then Exit (-1) [Err (''cannot execute payload: domain state '' @ state_text (getState h d) @ '' != monitorReady'')] h
      else loadPayloadFromFileOrThrow t d path h k)"

definition bmctl_terminate :: "tool_env \<Rightarrow> DomainIndex \<Rightarrow> host \<Rightarrow> tool_outcome" where
  "bmctl_terminate t d h =
     exit_on_error ''IDomain::reset_domain'' (terminatePayload (t_mgr t) d h) (\<lambda>h'. Exit 0 [] h')"

definition bmctl_run :: "tool_env \<Rightarrow> DomainIndex \<Rightarrow> string \<Rightarrow> host \<Rightarrow> tool_outcome" where
  "bmctl_run t d path h =
     (let rest = (\<lambda>h1. bmctl_load t d path h1 (\<lambda>h2. runConsoleUntilInterrupted t d h2 (\<lambda>h3. bmctl_terminate t d h3))) in
      if getState h d = in_reset
      then exit_on_error ''IDomain::startup_domain'' (startup (t_mgr t) d h) rest
      else rest h)"

definition bmctl_command :: "tool_env \<Rightarrow> string list \<Rightarrow> DomainIndex \<Rightarrow> host \<Rightarrow> tool_outcome" where
  "bmctl_command t argv d h =
     (if argv ! 1 = ''boot'' then bmctl_boot t d h
      else if argv ! 1 = ''core'' then bmctl_core t d h
      else if argv ! 1 = ''debuginfo'' then Exit 0 [Err (dumpDebugInfo h d)] h
      else if argv ! 1 = ''run''
      then (if length argv \<noteq> 4 then Exit (-1) usage_bmctl h else bmctl_run t d (argv ! 3) h)
      else if argv ! 1 = ''start''
      then (if length argv \<noteq> 4 then Exit (-1) usage_bmctl h else bmctl_load t d (argv ! 3) h (\<lambda>h'. Exit 0 [] h'))
      else if argv ! 1 = ''status'' then Exit 0 (display_domain_state h d) h
      else if argv ! 1 = ''terminate'' then bmctl_terminate t d h
      else Exit (-1) usage_bmctl h)"

definition bmctl :: "tool_env \<Rightarrow> string list \<Rightarrow> host \<Rightarrow> tool_outcome" where
  "bmctl t argv h =
     (if length argv < 3 then Exit (-1) usage_bmctl h
      else (case parseDomainIndex (argv ! 2) of
              None \<Rightarrow> Exit (-1) [Err (''bmctl: unknown domain '' @ quoted (argv ! 2))] h
            | Some d \<Rightarrow> throwOnError_open ''IDomain::open'' (open_domain (t_mgr t) d h) (bmctl_command t argv d)))"

section \<open>\<open>console\<close>\<close>

definition usage_console :: "line list" where
  "usage_console = [Err ''usage: console <domain>'']"

definition console_main :: "tool_env \<Rightarrow> string list \<Rightarrow> host \<Rightarrow> tool_outcome" where
  "console_main t argv h =
     (if length argv \<noteq> 2 then Exit (-1) usage_console h
      else (case parseDomainIndex (argv ! 1) of
              None \<Rightarrow> Exit (-1) [Err (''console: unknown domain '' @ quoted (argv ! 1))] h
            | Some d \<Rightarrow>
                throwOnError_open ''IDomain::open'' (open_domain (t_mgr t) d h) (\<lambda>h1.
                  let run = (\<lambda>h2. runConsoleUntilInterrupted t d h2 (\<lambda>h3. Exit 0 [] h3));
                      rest = (\<lambda>h2. if getState h2 d = monitor_ready
                        then say [Err ''console: starting dummy payload to enable hot-reload'']
                               (run (startDummyPayload (t_mgr t) d h2))
                        else run h2) in
                  if getState h1 d = in_reset
                  then say [Err ''console: implicitly intializing domain'']
                         (exit_on_error ''startup_domain'' (startup (t_mgr t) d h1) rest)
                  else rest h1)))"

section \<open>Lemmas\<close>

text \<open>An outcome with status 0 comes from the last continuation, with some lines in front.\<close>

lemma say_exit_0: "say ls r = Exit c out h \<longleftrightarrow> (\<exists>out'. r = Exit c out' h \<and> out = ls @ out')"
  by (cases r) auto

lemma exit_on_error_0:
  "exit_on_error name r k = Exit 0 out h \<longleftrightarrow> (\<exists>h1. r = Some (h1, None) \<and> k h1 = Exit 0 out h)"
  by (auto simp: exit_on_error_def split: option.splits prod.splits)

lemma throwOnError_exit:
  "throwOnError name r k = Exit c out h \<longleftrightarrow> (\<exists>h1. r = Some (h1, None) \<and> k h1 = Exit c out h)"
  by (auto simp: throwOnError_def split: option.splits prod.splits)

lemma throwOnError_open_exit:
  "throwOnError_open name r k = Exit c out h \<longleftrightarrow> (\<exists>h1 x. r = Some (h1, Inr x) \<and> k h1 = Exit c out h)"
  by (auto simp: throwOnError_open_def split: option.splits prod.splits sum.splits)

lemma load_exit:
  "loadPayloadFromFileOrThrow t d path h k = Exit c out h' \<Longrightarrow> \<exists>h1. getState h1 d = running_payload \<and> k h1 = Exit c out h'"
  by (auto simp: loadPayloadFromFileOrThrow_def throwOnError_exit dest: load_success split: option.splits if_splits)

lemma bmctl_load_0:
  "bmctl_load t d path h k = Exit 0 out h' \<Longrightarrow>
     getState h d = monitor_ready \<and> (\<exists>h1. getState h1 d = running_payload \<and> k h1 = Exit 0 out h')"
  by (auto simp: bmctl_load_def dest: load_exit split: if_splits)

lemma bmctl_terminate_0: "bmctl_terminate t d h = Exit 0 out h' \<Longrightarrow> getState h' d = monitor_ready"
  by (auto simp: bmctl_terminate_def exit_on_error_0 dest: terminate_success)

lemma console_exit_0:
  "runConsoleUntilInterrupted t d h k = Exit 0 out h' \<Longrightarrow> \<exists>h1 out'. k h1 = Exit 0 out' h'"
  by (auto simp: runConsoleUntilInterrupted_def say_exit_0 split: option.splits prod.splits)

lemma bmctl_run_0: "bmctl_run t d path h = Exit 0 out h' \<Longrightarrow> getState h' d = monitor_ready"
  by (auto simp: bmctl_run_def Let_def exit_on_error_0 dest!: bmctl_load_0 console_exit_0 dest: bmctl_terminate_0 split: if_splits)

lemma bmctl_boot_0:
  "bmctl_boot t d h = Exit 0 out h' \<Longrightarrow> getState h d = in_reset \<and> getState h' d = monitor_ready \<or> getState h d \<noteq> in_reset \<and> h' = h"
  by (auto simp: bmctl_boot_def exit_on_error_0 dest: startup_success split: if_splits)

section \<open>Properties\<close>

text \<open>
  C29: what exit status 0 of \<open>bmctl\<close> means, whatever the other cores do meanwhile: after \<open>start\<close> the payload is
  running; after \<open>terminate\<close> and after \<open>run\<close> (which ends by stopping the payload) the monitor is ready; after
  \<open>boot\<close> the monitor is ready if the domain was in reset. On a domain in any other state \<open>boot\<close> does
  nothing, prints that it cannot start the domain, and exits with 0 all the same.
\<close>

theorem bmctl_exit_zero:
  assumes "bmctl t argv h = Exit 0 out h'"
  shows "\<exists>d h1. parseDomainIndex (argv ! 2) = Some d \<and> open_domain (t_mgr t) d h = Some (h1, Inr d) \<and>
    (argv ! 1 = ''start'' \<longrightarrow> getState h1 d = monitor_ready \<and> getState h' d = running_payload) \<and>
    (argv ! 1 \<in> {''terminate'', ''run''} \<longrightarrow> getState h' d = monitor_ready) \<and>
    (argv ! 1 = ''boot'' \<longrightarrow>
      getState h1 d = in_reset \<and> getState h' d = monitor_ready \<or> getState h1 d \<noteq> in_reset \<and> h' = h1)"
proof -
  obtain d h1 x where d: "parseDomainIndex (argv ! 2) = Some d" "open_domain (t_mgr t) d h = Some (h1, Inr x)"
      "bmctl_command t argv d h1 = Exit 0 out h'"
    using assms by (auto simp: bmctl_def throwOnError_open_exit split: if_splits option.splits)
  then have "x = d"
    by (auto simp: open_domain_def Let_def split: prod.splits sum.splits option.splits if_splits bool.splits)
  with d show ?thesis
    by (auto simp: bmctl_command_def dest!: bmctl_load_0 bmctl_terminate_0 bmctl_run_0 bmctl_boot_0 split: if_splits)
qed

definition demo_tools :: tool_env where
  "demo_tools = \<lparr>t_mgr = demo_env monitor_ready, t_elf = (\<lambda>_ _. \<lparr>elf_stores = [], elf_err = True, e_entry = 0, base_load_paddr = 0\<rparr>),
     t_files = (\<lambda>_. None), t_others = (\<lambda>_ h. h), t_interrupt = 0, t_prpsinfo = [], t_prstatus = (\<lambda>bs. bs), t_pad = [], t_room = None\<rparr>"

definition booted_host :: host where
  "booted_host = (demo_host gs_unavailable running_payload)
     \<lparr>h_mem := mem_write (\<lambda>_. 0) 0x80000FFFC (le_bytes 4 MONITOR_CODE_COOKIE), h_io := \<lparr>mm_regs = (\<lambda>_. 0), mm_log = []\<rparr>\<rparr>"

lemma booted_host_opens:
  "\<exists>h1. open_domain (demo_env monitor_ready) cpu1 booted_host = Some (h1, Inr cpu1) \<and> domain_general_state h1 cpu1 = monitorStarted"
proof -
  obtain r where r: "getPhysicalMemoryRanges cpu1 = Some r" "cookie_address r = 0x80000FFFC"
    by (simp add: memmap_defs cookie_address_def sizeof_cookie_def)
  have "mem_read (h_mem booted_host) 0x80000FFFC 4 = le_bytes 4 MONITOR_CODE_COOKIE"
    using mem_read_write [of "le_bytes 4 MONITOR_CODE_COOKIE" "\<lambda>_. 0" "0x80000FFFC"] by (simp add: booted_host_def)
  moreover have "isCoreInReset (os_map (demo_env monitor_ready)) (h_io booted_host) cpu1 = Some False"
    by (simp add: isCoreInReset_def booted_host_def demo_env_def mm_read32_def)
  moreover have "os_open (demo_env monitor_ready) = 3" by (simp add: demo_env_def)
  ultimately show ?thesis
    using r by (auto simp: open_domain_def get_devmem_handle_def sizeof_cookie_def Let_def booted_host_def)
qed

theorem bmctl_exit_zero_witness:
  "\<exists>h'. bmctl demo_tools [''bmctl'', ''terminate'', ''cpu1''] booted_host = Exit 0 [] h' \<and> getState h' cpu1 = monitor_ready"
proof -
  let ?argv = "[''bmctl'', ''terminate'', ''cpu1'']"
  obtain h1 where h1: "open_domain (demo_env monitor_ready) cpu1 booted_host = Some (h1, Inr cpu1)"
      "domain_general_state h1 cpu1 = monitorStarted"
    using booted_host_opens by blast
  then obtain h' where "terminatePayload (demo_env monitor_ready) cpu1 h1 = Some (h', None)"
    using demo_terminate by blast
  with h1 have "bmctl demo_tools ?argv booted_host = Exit 0 [] h'"
    by (simp add: bmctl_def parseDomainIndex_def throwOnError_open_def bmctl_command_def bmctl_terminate_def exit_on_error_def demo_tools_def)
  with bmctl_exit_zero [OF this] show ?thesis
    by (auto simp: parseDomainIndex_def)
qed

end
