(* ===== verification/Payload_Runtime.thy ===== *)
theory Payload_Runtime
  imports Monitor
begin

text \<open>
  The runtime that is linked into a payload: \<open>src/executor/payload/payload_runtime.cpp\<close>, the EL1 exception
  vectors (\<open>src/platform/zynqmp/executor/payload/vectors_el1.cpp\<close>) and the busy-waiting \<open>sleep\<close>
  (\<open>src/platform/zynqmp/executor/sleep.cpp\<close>). The state contains the monitor's state, because services are
  reached through \<open>smc\<close>, which is modelled as the monitor's \<open>handleSmc\<close>. A \<open>std::function\<close> is a name; what
  user code does when it is called is an argument, \<open>None\<close> when it does not return. \<open>user_vars\<close> are the static
  variables of the user's program.
\<close>

section \<open>State\<close>

datatype handler = NoHandler | TimerIrq | UserFunction nat

record payload =
  p_mon :: mon_state
  timer_period_ticks :: u64
  timer_irq_handler :: handler
  user_interrupt_handlers :: "handler list"
  CNTP_CTL_EL0 :: u64
  CNTPCT_EL0 :: u64
  CNTP_CVAL_EL0 :: u64
  PMCR_EL0 :: u64
  PMCNTENSET_EL0 :: u64
  PMCCNTR_EL0 :: u64
  PMCCFILTR_EL0 :: u64
  SPSR_EL1 :: u64
  ELR_EL1 :: u64
  DAIF_EL1 :: u64
  user_vars :: "string \<Rightarrow> int"

definition wf_payload :: "payload \<Rightarrow> bool" where
  "wf_payload p \<longleftrightarrow> wf_mon (p_mon p) \<and> length (user_interrupt_handlers p) = routed_size"

section \<open>Calling the monitor\<close>

text \<open>
  \<open>smc\<close> (\<open>src/executor/executor_asm.S\<close>) passes its arguments in \<open>x0\<close>, \<open>x1\<close>, \<open>x2\<close> and returns \<open>x0\<close>. An \<open>int\<close>
  argument is written to the lower half of its register, which clears the upper half. \<open>None\<close>: the
  monitor does not come back. \<open>CurrentEL\<close> in the monitor is EL3.
\<close>

definition EL3 :: u64 where "EL3 = 0xC"

definition arg_int :: "int \<Rightarrow> u64" where
  "arg_int i = ucast (word_of_int i :: u32)"

definition smc :: "nat \<Rightarrow> u64 list \<Rightarrow> payload \<Rightarrow> (payload \<times> u64) option" where
  "smc cpu args p =
     (case handleSmc cpu EL3 (p_mon p) (smc_regs args) of
        Resume s r \<Rightarrow> Some (p\<lparr>p_mon := s\<rparr>, regs r ! 0)
      | _ \<Rightarrow> None)"

section \<open>Runtime functions\<close>

definition disableInterruptHandling :: "nat \<Rightarrow> int \<Rightarrow> payload \<Rightarrow> payload option" where
  "disableInterruptHandling cpu interruptId p =
     map_option fst (smc cpu [SMC_ZYNQMP_GIC_IRQ_DISABLE, arg_int interruptId] p)"

definition enableInterruptHandling :: "nat \<Rightarrow> int \<Rightarrow> payload \<Rightarrow> payload option" where
  "enableInterruptHandling cpu interruptId p =
     map_option fst (smc cpu [SMC_ZYNQMP_GIC_IRQ_ENABLE, arg_int interruptId] p)"

record AbiVersion =
  major :: u8
  minor :: u8

definition getMonitorAbiVersion :: "nat \<Rightarrow> payload \<Rightarrow> (payload \<times> AbiVersion) option" where
  "getMonitorAbiVersion cpu p =
     map_option (\<lambda>(p', x0). (p', \<lparr>major = ucast (drop_bit 8 (ucast x0 :: u32)), minor = ucast (ucast x0 :: u32)\<rparr>))
       (smc cpu [SMC_GET_ABI_VERSION] p)"

text \<open>
  \<open>PayloadInterruptPriority\<close> (the enumerators carry the prefix \<open>prio_\<close>). It reaches the functions through its
  integer value; a higher value is a lower priority, and this is the order of the type.
\<close>

datatype PayloadInterruptPriority =
  prio_p7_max | prio_p6 | prio_p5 | prio_p4 | prio_p3 | prio_p2 | prio_p1 | prio_p0_min

fun priority_value :: "PayloadInterruptPriority \<Rightarrow> int" where
  "priority_value prio_p7_max = 0x80"
| "priority_value prio_p6 = 0x90"
| "priority_value prio_p5 = 0xA0"
| "priority_value prio_p4 = 0xB0"
| "priority_value prio_p3 = 0xC0"
| "priority_value prio_p2 = 0xD0"
| "priority_value prio_p1 = 0xE0"
| "priority_value prio_p0_min = 0xF0"

lemma priority_value_inject: "priority_value p = priority_value q \<longleftrightarrow> p = q"
  by (cases p; cases q) simp_all

instantiation PayloadInterruptPriority :: linorder
begin

definition less_eq_PayloadInterruptPriority :: "PayloadInterruptPriority \<Rightarrow> PayloadInterruptPriority \<Rightarrow> bool" where
  "less_eq_PayloadInterruptPriority p q \<longleftrightarrow> priority_value q \<le> priority_value p"

definition less_PayloadInterruptPriority :: "PayloadInterruptPriority \<Rightarrow> PayloadInterruptPriority \<Rightarrow> bool" where
  "less_PayloadInterruptPriority p q \<longleftrightarrow> priority_value q < priority_value p"

instance
  by standard (auto simp: less_eq_PayloadInterruptPriority_def less_PayloadInterruptPriority_def priority_value_inject)

end

text \<open>The order of the enumerators is the order in which the upper four bits, which decide preemption, compare.\<close>

lemma priority_group_less: "priority_value q AND 0xF0 < priority_value p AND 0xF0 \<longleftrightarrow> p < q"
  by (cases p; cases q) (simp_all add: less_PayloadInterruptPriority_def)

lemma priority_value_range: "0x80 \<le> priority_value p" "priority_value p \<le> 0xF0"
  by (cases p; simp)+

definition setupInterruptHandling ::
    "nat \<Rightarrow> int \<Rightarrow> int \<Rightarrow> handler \<Rightarrow> payload \<Rightarrow> (payload \<times> bool) option" where
  "setupInterruptHandling cpu interruptId priority h p =
     (if interruptId < GIC_MIN_USER_INTERRUPT_ID \<or> interruptId > GIC_MAX_USER_INTERRUPT_ID then Some (p, False)
      else
        let p1 = p\<lparr>user_interrupt_handlers :=
                    (user_interrupt_handlers p)[nat (interruptId - GIC_MIN_USER_INTERRUPT_ID) := h]\<rparr> in
        map_option (\<lambda>(p2, _). (p2, True))
          (smc cpu [SMC_ZYNQMP_GIC_IRQ_CONFIGURE, arg_int interruptId, arg_int priority] p1))"

text \<open>\<open>period_us\<close> is the 64-bit count of microseconds; product and quotient are those of \<open>uint64_t\<close>.\<close>

definition setupPeriodicInterrupt :: "nat \<Rightarrow> u64 \<Rightarrow> handler \<Rightarrow> payload \<Rightarrow> payload option" where
  "setupPeriodicInterrupt cpu period_us h p =
     (let p1 = p\<lparr>timer_period_ticks := period_us * CNTFRQ_EL0 (p_mon p) div 1000000, timer_irq_handler := h,
                 CNTP_CTL_EL0 := 0\<rparr>
      in map_option fst (setupInterruptHandling cpu CNTPNS_INTERRUPT_ID (priority_value prio_p7_max) TimerIrq p1))"

text \<open>
  Bits 1 and 2 of \<open>PMCR_EL0\<close> are write-only: they reset the event counters and the cycle counter (Arm
  architecture, performance monitors). \<open>1<<31\<close> is a negative \<open>int\<close>, which is sign-extended.
\<close>

definition write_PMCR_EL0 :: "u64 \<Rightarrow> payload \<Rightarrow> payload" where
  "write_PMCR_EL0 v p = p\<lparr>PMCR_EL0 := v AND NOT 6, PMCCNTR_EL0 := (if bit v 2 then 0 else PMCCNTR_EL0 p)\<rparr>"

definition startCycleCounter :: "payload \<Rightarrow> payload" where
  "startCycleCounter p =
     (let p1 = write_PMCR_EL0 (PMCR_EL0 p OR push_bit 0 1 OR push_bit 2 1) p in
      p1\<lparr>PMCNTENSET_EL0 := PMCNTENSET_EL0 p1 OR scast (push_bit 31 1 :: u32)\<rparr>)"

text \<open>
  A write to \<open>CNTP_TVAL_EL0\<close> sets the deadline to the current count plus the low 32 bits of the value, taken
  as a signed number (Arm architecture, generic timer).
\<close>

definition write_CNTP_TVAL_EL0 :: "u64 \<Rightarrow> payload \<Rightarrow> payload" where
  "write_CNTP_TVAL_EL0 v p = p\<lparr>CNTP_CVAL_EL0 := CNTPCT_EL0 p + scast (ucast v :: u32)\<rparr>"

definition startPeriodicInterrupt :: "nat \<Rightarrow> payload \<Rightarrow> payload option" where
  "startPeriodicInterrupt cpu p =
     map_option (\<lambda>p1. (write_CNTP_TVAL_EL0 (timer_period_ticks p1) p1)\<lparr>CNTP_CTL_EL0 := 1\<rparr>)
       (enableInterruptHandling cpu CNTPNS_INTERRUPT_ID p)"

definition stopPeriodicInterrupt :: "nat \<Rightarrow> payload \<Rightarrow> payload option" where
  "stopPeriodicInterrupt cpu p = disableInterruptHandling cpu CNTPNS_INTERRUPT_ID (p\<lparr>CNTP_CTL_EL0 := 0\<rparr>)"

text \<open>\<open>call h\<close> is the effect of calling the user function \<open>h\<close>.\<close>

definition handleTimerIrq :: "(handler \<Rightarrow> payload \<Rightarrow> payload option) \<Rightarrow> payload \<Rightarrow> payload option" where
  "handleTimerIrq call p =
     (if CNTP_CTL_EL0 p AND 4 = 0 then Some p
      else
        map_option (\<lambda>p1. p1\<lparr>CNTP_CVAL_EL0 := CNTP_CVAL_EL0 p1 + timer_period_ticks p1\<rparr>)
          (if timer_irq_handler p \<noteq> NoHandler then call (timer_irq_handler p) p else Some p))"

text \<open>Calling a registered handler: the timer's own handler is code of the runtime.\<close>

fun call_handler :: "(handler \<Rightarrow> payload \<Rightarrow> payload option) \<Rightarrow> handler \<Rightarrow> payload \<Rightarrow> payload option" where
  "call_handler user TimerIrq p = handleTimerIrq user p"
| "call_handler user h p = user h p"

text \<open>The inline functions of \<open>payload_runtime.hpp\<close>; the frequency register is narrowed to 32 bits.\<close>

definition getBuiltinTimerFrequency :: "payload \<Rightarrow> u32" where
  "getBuiltinTimerFrequency p = ucast (CNTFRQ_EL0 (p_mon p))"

definition getBuiltinTimerValue :: "payload \<Rightarrow> u64" where
  "getBuiltinTimerValue p = CNTPCT_EL0 p"

definition getCycleCounterValue :: "payload \<Rightarrow> u64" where
  "getCycleCounterValue p = PMCCNTR_EL0 p"

text \<open>\<open>bmboot::getCpuIndex\<close>, on the value of \<open>MPIDR_EL1\<close>.\<close>

definition getCpuIndex_payload :: "u64 \<Rightarrow> int" where
  "getCpuIndex_payload mpidr_el1 = int (getCpuIndex mpidr_el1)"

definition getPayloadArgument :: "payload \<Rightarrow> u64" where
  "getPayloadArgument p = payload_argument (m2e (ipc (p_mon p)))"

definition notifyPayloadCrashed :: "nat \<Rightarrow> u64 \<Rightarrow> u64 \<Rightarrow> payload \<Rightarrow> payload option" where
  "notifyPayloadCrashed cpu desc address p = map_option fst (smc cpu [SMC_NOTIFY_PAYLOAD_CRASHED, desc, address] p)"

definition notifyPayloadStarted :: "nat \<Rightarrow> payload \<Rightarrow> payload option" where
  "notifyPayloadStarted cpu p = map_option fst (smc cpu [SMC_NOTIFY_PAYLOAD_STARTED] p)"

text \<open>The interface for C programs (\<open>payload_runtime.h\<close>).\<close>

definition bmGetBuiltinTimerFrequency :: "payload \<Rightarrow> u32" where
  "bmGetBuiltinTimerFrequency p = ucast (CNTFRQ_EL0 (p_mon p))"

definition bmGetBuiltinTimerValue :: "payload \<Rightarrow> u64" where
  "bmGetBuiltinTimerValue p = CNTPCT_EL0 p"

definition bmGetCycleCounterValue :: "payload \<Rightarrow> u64" where
  "bmGetCycleCounterValue p = PMCCNTR_EL0 p"

definition bmNotifyPayloadStarted :: "nat \<Rightarrow> payload \<Rightarrow> payload option" where
  "bmNotifyPayloadStarted cpu p = notifyPayloadStarted cpu p"

definition bmStartCycleCounter :: "payload \<Rightarrow> payload" where
  "bmStartCycleCounter p = startCycleCounter p"

text \<open>The result of \<open>smc\<close> is narrowed to \<open>int\<close>.\<close>

definition writeToStdout_payload :: "nat \<Rightarrow> u64 \<Rightarrow> u64 \<Rightarrow> payload \<Rightarrow> (payload \<times> int) option" where
  "writeToStdout_payload cpu data sz p = map_option (\<lambda>(p', x0). (p', int_of_u64 x0)) (smc cpu [SMC_WRITE_STDOUT, data, sz] p)"

section \<open>EL1 exception vectors\<close>

text \<open>
  \<open>EL1_Return\<close>: the handler returns to the interrupted code; \<open>EL1_Hang\<close>: it ends in \<open>for (;;) {}\<close>. Addresses
  of string literals are chosen by the linker, the argument \<open>lit\<close>.
\<close>

datatype el1_outcome = EL1_Return payload | EL1_Hang payload | EL1_Stuck

definition p_dev_write :: "u64 \<Rightarrow> u32 \<Rightarrow> payload \<Rightarrow> payload" where
  "p_dev_write a v p = p\<lparr>p_mon := dev_write a v (p_mon p)\<rparr>"

definition el1_crash :: "nat \<Rightarrow> u64 \<Rightarrow> u64 \<Rightarrow> (payload \<Rightarrow> payload) \<Rightarrow> payload \<Rightarrow> el1_outcome" where
  "el1_crash cpu desc address after p =
     (case notifyPayloadCrashed cpu desc address p of None \<Rightarrow> EL1_Stuck | Some p1 \<Rightarrow> EL1_Hang (after p1))"

definition FIQInterrupt_el1 :: "nat \<Rightarrow> (string \<Rightarrow> u64) \<Rightarrow> u32 \<Rightarrow> payload \<Rightarrow> el1_outcome" where
  "FIQInterrupt_el1 cpu lit iar p =
     el1_crash cpu (lit ''EL1 FIQInterrupt'') (ucast iar) (p_dev_write GICC_EOIR iar) p"

definition IRQInterrupt_el1 ::
    "nat \<Rightarrow> (string \<Rightarrow> u64) \<Rightarrow> (handler \<Rightarrow> payload \<Rightarrow> payload option) \<Rightarrow> u32 \<Rightarrow> payload \<Rightarrow> el1_outcome" where
  "IRQInterrupt_el1 cpu lit call iar p =
     (let interrupt_id = uint (iar AND IAR_INTERRUPT_ID_MASK) in
      if interrupt_id \<ge> GIC_MIN_USER_INTERRUPT_ID \<and> interrupt_id \<le> GIC_MAX_USER_INTERRUPT_ID \<and>
         user_interrupt_handlers p ! nat (interrupt_id - GIC_MIN_USER_INTERRUPT_ID) \<noteq> NoHandler
      then
        let spsr = SPSR_EL1 p;
            elr = ELR_EL1 p;
            p1 = p\<lparr>DAIF_EL1 := DAIF_EL1 p AND NOT DAIF_I_MASK\<rparr>
        in (case call (user_interrupt_handlers p1 ! nat (interrupt_id - GIC_MIN_USER_INTERRUPT_ID)) p1 of
              None \<Rightarrow> EL1_Stuck
            | Some p2 \<Rightarrow>
                let p3 = p2\<lparr>DAIF_EL1 := DAIF_EL1 p2 OR DAIF_I_MASK\<rparr>
                in EL1_Return (p_dev_write GICC_EOIR iar (p3\<lparr>SPSR_EL1 := spsr, ELR_EL1 := elr\<rparr>)))
      else el1_crash cpu (lit ''EL1 IRQInterrupt'') (ucast iar) (p_dev_write GICC_EOIR iar) p)"

definition SynchronousInterrupt_el1 :: "nat \<Rightarrow> (string \<Rightarrow> u64) \<Rightarrow> fpu \<Rightarrow> Aarch64_Regs \<Rightarrow> payload \<Rightarrow> el1_outcome" where
  "SynchronousInterrupt_el1 cpu lit f saved_regs p =
     el1_crash cpu (lit ''EL1 SynchronousInterrupt'') (ELR_EL1 p) (\<lambda>q. q) (p\<lparr>p_mon := save_cpu f saved_regs (p_mon p)\<rparr>)"

definition SErrorInterrupt_el1 :: "nat \<Rightarrow> (string \<Rightarrow> u64) \<Rightarrow> payload \<Rightarrow> el1_outcome" where
  "SErrorInterrupt_el1 cpu lit p = el1_crash cpu (lit ''EL1 SErrorInterrupt'') (ELR_EL1 p) (\<lambda>q. q) p"

section \<open>Sleeping\<close>

definition divideRoundingUp :: "u64 \<Rightarrow> u64 \<Rightarrow> u64" where
  "divideRoundingUp dividend divisor = (dividend + divisor - 1) div divisor"

text \<open>
  The busy loop on the values \<open>timer 0, timer 1, \<dots>\<close> that successive reads of the counter return, from
  read \<open>i\<close> on, with fuel; the result is the index of the read that ended it.
\<close>

fun usleep_loop :: "(nat \<Rightarrow> u64) \<Rightarrow> u64 \<Rightarrow> nat \<Rightarrow> nat \<Rightarrow> nat option" where
  "usleep_loop timer end' i 0 = None"
| "usleep_loop timer end' i (Suc fuel) = (if timer i < end' then usleep_loop timer end' (Suc i) fuel else Some i)"

text \<open>\<open>freq\<close> is the 32-bit timer frequency. Read 0 of the timer is the one that sets \<open>start\<close>.\<close>

definition usleep :: "(nat \<Rightarrow> u64) \<Rightarrow> u32 \<Rightarrow> u64 \<Rightarrow> nat \<Rightarrow> nat option" where
  "usleep timer freq useconds fuel =
     (let start = timer 0;
          end' = start + divideRoundingUp (useconds * ucast freq) 1000000
      in usleep_loop timer end' 1 fuel)"

definition sleep :: "(nat \<Rightarrow> u64) \<Rightarrow> u32 \<Rightarrow> u32 \<Rightarrow> nat \<Rightarrow> nat option" where
  "sleep timer freq seconds fuel = usleep timer freq (ucast seconds * 1000000) fuel"

section \<open>Retargeted system calls\<close>

text \<open>
  \<open>src/executor/payload/syscalls.cpp\<close>. The result is the return value and, when it is set, \<open>errno\<close> (newlib's
  numbering).
\<close>

definition EIO :: int where "EIO = 5"
definition EBADF :: int where "EBADF = 9"

definition is_std_fd :: "int \<Rightarrow> bool" where
  "is_std_fd fd \<longleftrightarrow> 0 \<le> fd \<and> fd \<le> 2"

definition sys_isatty :: "int \<Rightarrow> int \<times> int option" where
  "sys_isatty fd = (if is_std_fd fd then (1, None) else (0, Some EBADF))"

definition sys_write :: "nat \<Rightarrow> int \<Rightarrow> u64 \<Rightarrow> int \<Rightarrow> payload \<Rightarrow> (payload \<times> int) option" where
  "sys_write cpu fd ptr sz p = writeToStdout_payload cpu ptr (u64_of_int32 sz) p"

definition sys_close :: "int \<Rightarrow> int \<times> int option" where
  "sys_close fd = (if is_std_fd fd then (0, None) else (-1, Some EBADF))"

definition sys_lseek :: "int \<Rightarrow> int \<Rightarrow> int \<Rightarrow> int \<times> int option" where
  "sys_lseek fd ptr dir = (-1, Some EBADF)"

definition sys_read :: "int \<Rightarrow> u64 \<Rightarrow> int \<Rightarrow> int \<times> int option" where
  "sys_read fd ptr sz = (if fd = 0 then (EIO, None) else (-1, Some EBADF))"

text \<open>The last component is the value stored to \<open>st_mode\<close>.\<close>

definition S_IFCHR :: u32 where "S_IFCHR = 0x2000"

definition sys_fstat :: "int \<Rightarrow> int \<times> int option \<times> u32 option" where
  "sys_fstat fd = (if is_std_fd fd then (0, None, Some S_IFCHR) else (0, Some EBADF, None))"

section \<open>Lemmas\<close>

lemma sint_word_of_int_u32:
  assumes "- (2 ^ 31) \<le> i" and "i < 2 ^ 31"
  shows "sint (word_of_int i :: u32) = i"
  using assms by (simp add: sint_sbintrunc' signed_take_bit_int_eq_self)

lemma int_of_arg [simp]: "- (2 ^ 31) \<le> i \<Longrightarrow> i < 2 ^ 31 \<Longrightarrow> int_of_u64 (arg_int i) = i"
proof -
  assume i: "- (2 ^ 31) \<le> i" "i < 2 ^ 31"
  have "(ucast (ucast (word_of_int i :: u32) :: u64) :: u32) = word_of_int i"
    by (rule bit_word_eqI) (simp add: bit_ucast_iff)
  then show ?thesis
    using sint_word_of_int_u32 [OF i] by (simp add: int_of_u64_def arg_int_def)
qed

lemma smc_regs_args [simp]:
  "regs (smc_regs [a]) ! 0 = a" "regs (smc_regs [a, b]) ! 0 = a" "regs (smc_regs [a, b]) ! 1 = b"
  "regs (smc_regs [a, b, c]) ! 0 = a" "regs (smc_regs [a, b, c]) ! 1 = b" "regs (smc_regs [a, b, c]) ! 2 = c"
  "regs (smc_regs [a, b]) ! Suc 0 = b" "regs (smc_regs [a, b, c]) ! Suc 0 = b"
  by (simp_all add: smc_regs_def)

lemma handleSmc_configure:
  assumes "smc_configure cpu (ctl s) i p = Some c" and "- (2 ^ 31) \<le> i" "i < 2 ^ 31" "- (2 ^ 31) \<le> p" "p < 2 ^ 31"
  shows "handleSmc cpu el s (smc_regs [SMC_ZYNQMP_GIC_IRQ_CONFIGURE, arg_int i, arg_int p]) =
    Resume (s\<lparr>ctl := c\<rparr>) (smc_regs [SMC_ZYNQMP_GIC_IRQ_CONFIGURE, arg_int i, arg_int p])"
  using assms by (simp add: handleSmc_def Let_def smc_ids resume_ctl_def)

lemma setupInterruptHandling_eq:
  assumes "0 \<le> i" and "i < 188" and "- (2 ^ 31) \<le> prio" and "prio < 2 ^ 31"
    and "smc_configure cpu (ctl (p_mon p)) i prio = Some c"
  shows "setupInterruptHandling cpu i prio h p =
    Some (p\<lparr>user_interrupt_handlers := (user_interrupt_handlers p)[nat i := h], p_mon := (p_mon p)\<lparr>ctl := c\<rparr>\<rparr>, True)"
proof -
  have "handleSmc cpu EL3 (p_mon p) (smc_regs [SMC_ZYNQMP_GIC_IRQ_CONFIGURE, arg_int i, arg_int prio]) =
      Resume ((p_mon p)\<lparr>ctl := c\<rparr>) (smc_regs [SMC_ZYNQMP_GIC_IRQ_CONFIGURE, arg_int i, arg_int prio])"
    using assms by (intro handleSmc_configure) simp_all
  then show ?thesis
    using assms(1,2)
    by (simp add: setupInterruptHandling_def smc_def Let_def GIC_MIN_USER_INTERRUPT_ID_def GIC_MAX_USER_INTERRUPT_ID_def)
qed

lemma or_mask_and: "(x OR m) AND m = (m :: 'a::len word)"
  by (rule bit_eqI) (auto simp: bit_simps)

text \<open>Dispatch of an interrupt that has a handler.\<close>

lemma irq_dispatch:
  assumes "uint (iar AND IAR_INTERRUPT_ID_MASK) = int i" and "i < 188" and "user_interrupt_handlers p ! i \<noteq> NoHandler"
  shows "IRQInterrupt_el1 cpu lit call iar p =
    (case call (user_interrupt_handlers p ! i) (p\<lparr>DAIF_EL1 := DAIF_EL1 p AND NOT DAIF_I_MASK\<rparr>) of
       None \<Rightarrow> EL1_Stuck
     | Some r \<Rightarrow> EL1_Return (p_dev_write GICC_EOIR iar
         (r\<lparr>DAIF_EL1 := DAIF_EL1 r OR DAIF_I_MASK, SPSR_EL1 := SPSR_EL1 p, ELR_EL1 := ELR_EL1 p\<rparr>)))"
  using assms
  by (simp add: IRQInterrupt_el1_def Let_def GIC_MIN_USER_INTERRUPT_ID_def GIC_MAX_USER_INTERRUPT_ID_def split: option.split)

section \<open>Properties\<close>

text \<open>
  C30: \<open>setupInterruptHandling\<close> prepares an interrupt so that enabling it is safe. For every interrupt of the
  platform it returns true and registers exactly this handler; for a peripheral interrupt (16 and
  up) with a payload priority the monitor records it as routed to EL1, and the configuration call
  and a following enable call are disciplined, so that the interrupt is silenced when the payload
  is killed. For the interrupts 0 to 15 it also returns true, but the monitor changes nothing, and
  enabling such an interrupt is not covered.
\<close>

theorem setup_makes_enable_safe:
  assumes "wf_payload p" and "0 \<le> i" and "i < 188" and "0x80 \<le> prio" and "prio \<le> 0xF0"
  shows "\<exists>p'. setupInterruptHandling cpu i prio h p = Some (p', True) \<and>
    user_interrupt_handlers p' = (user_interrupt_handlers p)[nat i := h] \<and>
    disciplined (ctl (p_mon p)) (smc_regs [SMC_ZYNQMP_GIC_IRQ_CONFIGURE, arg_int i, arg_int prio]) \<and>
    (if 16 \<le> i then interrupt_routed_to_el1 (ctl (p_mon p')) ! nat i \<and>
        disciplined (ctl (p_mon p')) (smc_regs [SMC_ZYNQMP_GIC_IRQ_ENABLE, arg_int i])
     else p_mon p' = p_mon p)"
proof -
  obtain c where c: "smc_configure cpu (ctl (p_mon p)) i prio = Some c"
      "if 16 \<le> i then interrupt_routed_to_el1 c = (interrupt_routed_to_el1 (ctl (p_mon p)))[nat i := True] else c = ctl (p_mon p)"
    using smc_configure_trace [OF assms(3), of cpu "ctl (p_mon p)" prio] assms(4,5) by (auto split: if_splits)
  have "length (interrupt_routed_to_el1 (ctl (p_mon p))) = 188"
    using assms(1) by (simp add: wf_payload_def wf_mon_def wf_ctl_def)
  with c show ?thesis
    using setupInterruptHandling_eq [OF assms(2,3) _ _ c(1), of h] assms(2-5)
    by (auto simp: disciplined_def Let_def smc_ids split: if_splits)
qed

definition idle_payload :: payload where
  "idle_payload = \<lparr>p_mon = idle_mon, timer_period_ticks = 0, timer_irq_handler = NoHandler,
     user_interrupt_handlers = replicate 188 NoHandler, CNTP_CTL_EL0 = 0, CNTPCT_EL0 = 0, CNTP_CVAL_EL0 = 0,
     PMCR_EL0 = 0, PMCNTENSET_EL0 = 0, PMCCNTR_EL0 = 0, PMCCFILTR_EL0 = 0, SPSR_EL1 = 0x5, ELR_EL1 = 0x800101000, DAIF_EL1 = 0x80, user_vars = (\<lambda>_. 0)\<rparr>"

lemma wf_idle_payload [simp]: "wf_payload idle_payload"
  by (simp add: wf_payload_def idle_payload_def)

theorem setup_makes_enable_safe_witness:
  "\<exists>p'. setupInterruptHandling 1 121 0xA0 (UserFunction 3) idle_payload = Some (p', True) \<and>
     interrupt_routed_to_el1 (ctl (p_mon p')) ! 121 \<and>
     disciplined (ctl (p_mon p')) (smc_regs [SMC_ZYNQMP_GIC_IRQ_ENABLE, arg_int 121])"
  using setup_makes_enable_safe [OF wf_idle_payload, of 121 "0xA0" 1 "UserFunction 3"] by auto

text \<open>
  C31: dispatch of an interrupt to its handler. An interrupt of the platform with a registered handler
  runs exactly that handler, with interrupts unmasked; if it returns, whatever the handler and nested
  interrupts did to them, the saved return address and status are those of the interrupted code,
  interrupts are masked again, and the last access is the end-of-interrupt for the acknowledged
  value. An interrupt without a handler is reported as a crash of the payload and never returns.
\<close>

theorem irq_runs_registered_handler:
  assumes "wf_payload p" and "uint (iar AND IAR_INTERRUPT_ID_MASK) = int i" and "i < 188"
  shows "if user_interrupt_handlers p ! i \<noteq> NoHandler
    then (case call (user_interrupt_handlers p ! i) (p\<lparr>DAIF_EL1 := DAIF_EL1 p AND NOT DAIF_I_MASK\<rparr>) of
        None \<Rightarrow> IRQInterrupt_el1 cpu lit call iar p = EL1_Stuck
      | Some r \<Rightarrow> \<exists>q. IRQInterrupt_el1 cpu lit call iar p = EL1_Return q \<and> SPSR_EL1 q = SPSR_EL1 p \<and> ELR_EL1 q = ELR_EL1 p \<and>
          DAIF_EL1 q AND DAIF_I_MASK = DAIF_I_MASK \<and>
          mm_log (gic_io (ctl (p_mon q))) = mm_log (gic_io (ctl (p_mon r))) @ [W32 GICC_EOIR iar] \<and> ipc (p_mon q) = ipc (p_mon r))
    else \<exists>q. IRQInterrupt_el1 cpu lit call iar p = EL1_Hang q \<and>
      state (e2m (ipc (p_mon q))) = raw_state crashed_payload \<and> fault_pc (e2m (ipc (p_mon q))) = ucast iar"
proof (cases "user_interrupt_handlers p ! i \<noteq> NoHandler")
  case True
  with irq_dispatch [OF assms(2,3) True, of cpu lit call] show ?thesis
    by (auto simp: p_dev_write_def or_mask_and split: option.splits)
next
  case False
  have "handleSmc cpu EL3 (p_mon p) (smc_regs [SMC_NOTIFY_PAYLOAD_CRASHED, d, a]) =
      Resume (reportCrash EL3 entity_payload (mem_read (phys_mem (p_mon p)) d sizeof_fault_desc) a (p_mon p))
        (smc_regs [SMC_NOTIFY_PAYLOAD_CRASHED, d, a])" for d a
    by (simp add: handleSmc_def Let_def smc_ids)
  with False show ?thesis
    using assms(2,3)
    by (simp add: IRQInterrupt_el1_def Let_def el1_crash_def notifyPayloadCrashed_def smc_def p_dev_write_def
        GIC_MIN_USER_INTERRUPT_ID_def GIC_MAX_USER_INTERRUPT_ID_def)
      (simp add: reportCrash_def set_state_def Let_def)
qed

theorem irq_runs_registered_handler_witness:
  "\<exists>q. IRQInterrupt_el1 1 (\<lambda>_. 0) (\<lambda>h p. Some (p\<lparr>ELR_EL1 := 0, SPSR_EL1 := 0\<rparr>)) 121
       (idle_payload\<lparr>user_interrupt_handlers := (replicate 188 NoHandler)[121 := UserFunction 3]\<rparr>) = EL1_Return q \<and>
     ELR_EL1 q = 0x800101000"
proof -
  let ?p = "idle_payload\<lparr>user_interrupt_handlers := (replicate 188 NoHandler)[121 := UserFunction 3]\<rparr>"
  have "wf_payload ?p" "ELR_EL1 ?p = 0x800101000" by (simp_all add: wf_payload_def idle_payload_def)
  then show ?thesis
    using irq_runs_registered_handler [of ?p 121 121 1 "\<lambda>_. 0" "\<lambda>h p. Some (p\<lparr>ELR_EL1 := 0, SPSR_EL1 := 0\<rparr>)"]
    by (auto simp: IAR_INTERRUPT_ID_MASK_def)
qed

lemma usleep_loop_least:
  assumes "\<not> timer k < e" and "i \<le> k" and "k < i + fuel"
  shows "\<exists>j. usleep_loop timer e i fuel = Some j \<and> i \<le> j \<and> j \<le> k \<and> \<not> timer j < e \<and> (\<forall>l. i \<le> l \<and> l < j \<longrightarrow> timer l < e)"
  using assms
proof (induction fuel arbitrary: i)
  case 0
  then show ?case by simp
next
  case (Suc fuel)
  show ?case
  proof (cases "timer i < e")
    case True
    with Suc.prems(1) have "i \<noteq> k" by auto
    with Suc.prems Suc.IH [of "Suc i"] obtain j where j: "usleep_loop timer e (Suc i) fuel = Some j" "Suc i \<le> j" "j \<le> k"
        "\<not> timer j < e" "\<forall>l. Suc i \<le> l \<and> l < j \<longrightarrow> timer l < e"
      by auto
    have "timer l < e" if "i \<le> l" "l < j" for l
      using that True j(5) by (cases "l = i") auto
    with j True show ?thesis by (intro exI [of _ j]) auto
  next
    case False
    then show ?thesis using Suc.prems(2) by auto
  qed
qed

lemma deadline_iff:
  assumes "unat us * unat freq + 999999 < 2 ^ 64" and "unat (t0 :: u64) + (unat us * unat freq + 999999) div 1000000 < 2 ^ 64"
    and "t0 \<le> t"
  shows "t < t0 + divideRoundingUp (us * ucast (freq :: u32)) 1000000 \<longleftrightarrow> 1000000 * (unat t - unat t0) < unat us * unat freq"
proof -
  have "unat freq < 2 ^ LENGTH(32)" by (rule unsigned_less)
  then have f: "unat (ucast freq :: u64) = unat freq" by (simp add: unsigned_ucast_eq take_bit_nat_eq_self)
  have "unat (us * ucast freq) = unat us * unat freq"
    using assms(1) f by (simp add: unat_word_ariths)
  then have "unat (us * ucast freq + 1000000 - 1) = unat us * unat freq + 999999"
    using assms(1) by (simp add: unat_word_ariths)
  then have d: "unat (divideRoundingUp (us * ucast freq) 1000000) = (unat us * unat freq + 999999) div 1000000"
    by (simp add: divideRoundingUp_def unat_div)
  then have "unat (t0 + divideRoundingUp (us * ucast freq) 1000000) = unat t0 + (unat us * unat freq + 999999) div 1000000"
    using assms(2) by (simp add: unat_word_ariths)
  then have "t < t0 + divideRoundingUp (us * ucast freq) 1000000 \<longleftrightarrow>
      unat t < unat t0 + (unat us * unat freq + 999999) div 1000000"
    by (simp add: word_less_nat_alt)
  also have "\<dots> \<longleftrightarrow> 1000000 * (unat t - unat t0) < unat us * unat freq"
    using assms(3) by (auto simp: word_le_nat_alt)
  finally show ?thesis .
qed

text \<open>
  C33: \<open>usleep\<close> waits exactly as long as it must: on a counter that does not run backwards, when neither
  the product nor the deadline overflows 64 bits, it returns at the first read of the counter at
  which at least the requested time has passed, never earlier, and it does return as soon as the
  counter shows such a value.
\<close>

theorem usleep_exact:
  assumes "unat us * unat freq + 999999 < 2 ^ 64"
    and "unat (timer 0) + (unat us * unat freq + 999999) div 1000000 < 2 ^ 64"
    and "\<And>i. timer 0 \<le> timer i" and "1 \<le> k" and "unat us * unat freq \<le> 1000000 * (unat (timer k) - unat (timer 0))"
  shows "\<exists>i \<le> k. usleep timer freq us k = Some i \<and> unat us * unat freq \<le> 1000000 * (unat (timer i) - unat (timer 0)) \<and>
    (\<forall>j. 1 \<le> j \<and> j < i \<longrightarrow> 1000000 * (unat (timer j) - unat (timer 0)) < unat us * unat freq)"
  using usleep_loop_least [of timer k "timer 0 + divideRoundingUp (us * ucast freq) 1000000" 1 k] assms(4,5)
    deadline_iff [OF assms(1,2,3)]
  by (fastforce simp: usleep_def Let_def not_less)

theorem usleep_exact_witness:
  "\<exists>i \<le> 20. usleep (\<lambda>i. of_nat (5 * i)) 100000000 1 20 = Some i \<and> 100 \<le> unat (of_nat (5 * i) :: u64)"
proof -
  have "(0 :: u64) \<le> of_nat (5 * i)" for i by simp
  then show ?thesis
    using usleep_exact [of 1 100000000 "\<lambda>i. of_nat (5 * i)" 20]
    by auto
qed

text \<open>
  The payload learns the monitor's ABI version as \<open>2.0\<close>, and of the retargeted system calls output
  reports the full length (narrowed to \<open>int\<close>) for every descriptor. Two calls do not follow their
  convention: a read from standard input returns the positive number 5 (\<open>EIO\<close>) as if that many
  bytes had been stored, and \<open>fstat\<close> on a bad descriptor sets \<open>errno\<close> but returns success.
\<close>

lemma runtime_calls:
  assumes "wf_payload p"
  shows "(\<exists>p'. getMonitorAbiVersion cpu p = Some (p', \<lparr>major = 2, minor = 0\<rparr>)) \<and>
    (\<forall>fd ptr n. 0 \<le> n \<and> n < 2 ^ 31 \<longrightarrow> (\<exists>p'. sys_write cpu fd ptr n p = Some (p', n))) \<and>
    sys_read 0 ptr' n' = (5, None) \<and> (\<forall>fd. \<not> is_std_fd fd \<longrightarrow> sys_fstat fd = (0, Some EBADF, None))"
proof (intro conjI allI impI)
  show "\<exists>p'. getMonitorAbiVersion cpu p = Some (p', \<lparr>major = 2, minor = 0\<rparr>)"
    by (simp add: getMonitorAbiVersion_def smc_def handleSmc_def Let_def smc_ids set_x0_def smc_regs_def
        ABI_MAJOR_def ABI_MINOR_def)
next
  fix fd ptr n
  assume n: "0 \<le> n \<and> n < (2 ^ 31 :: int)"
  obtain b where b: "writeToStdout (ipc (p_mon p)) (mem_read (phys_mem (p_mon p)) ptr (unat (u64_of_int32 n))) =
      Some (b, u64_of_int32 n)"
    using writeToStdout_safe [of "ipc (p_mon p)" "mem_read (phys_mem (p_mon p)) ptr (unat (u64_of_int32 n))"] assms
    by (auto simp: wf_payload_def wf_mon_def)
  have "int_of_u64 (u64_of_int32 n) = n"
  proof -
    have "(ucast (scast (word_of_int n :: u32) :: u64) :: u32) = word_of_int n"
      by (rule bit_word_eqI) (simp add: bit_ucast_iff bit_signed_iff)
    then show ?thesis using n sint_word_of_int_u32 [of n] by (simp add: int_of_u64_def u64_of_int32_def)
  qed
  with b show "\<exists>p'. sys_write cpu fd ptr n p = Some (p', n)"
    by (simp add: sys_write_def writeToStdout_payload_def smc_def handleSmc_def Let_def smc_ids set_x0_def smc_regs_def)
qed (simp_all add: sys_read_def EIO_def sys_fstat_def)

end
