(* ===== verification/System.thy ===== *)
theory System
  imports Domain Coredump Payload_Runtime
begin

text \<open>
  Manager, monitor and payload over the same memory: what the one side sees of the state of the other. Theories
  that follow a run through several components build on this.
\<close>

section \<open>Two views of the shared state\<close>

text \<open>The monitor's view of the shared state: this core's IPC block and physical memory.\<close>

definition core_of :: "host \<Rightarrow> DomainIndex \<Rightarrow> gic_ctl \<Rightarrow> u64 \<Rightarrow> mon_state" where
  "core_of h d c freq = \<lparr>ipc = h_ipc h d, phys_mem = h_mem h, ctl = c, CNTFRQ_EL0 = freq\<rparr>"

text \<open>The manager's view after the monitor of domain \<open>d\<close> has come to \<open>s\<close>.\<close>

definition host_of :: "host \<Rightarrow> DomainIndex \<Rightarrow> mon_state \<Rightarrow> host" where
  "host_of h d s = (set_ipc d (ipc s) h)\<lparr>h_mem := phys_mem s\<rparr>"

section \<open>A crash, from the vectors to the manager\<close>

lemma crash_state:
  assumes "domain_general_state h d = monitorStarted" and "p_mon p = core_of h d c freq"
  shows "\<exists>q. SynchronousInterrupt_el1 cpu lit f r p = EL1_Hang q \<and> phys_mem (p_mon q) = h_mem h \<and>
    getState (host_of h d (p_mon q)) d = crashed_payload \<and> fault_pc (e2m (ipc (p_mon q))) = ELR_EL1 p \<and>
    saved_cpu (e2m (ipc (p_mon q))) = r \<and> saved_fpu (e2m (ipc (p_mon q))) = saveFpuState f"
proof -
  let ?p = "p\<lparr>p_mon := save_cpu f r (p_mon p)\<rparr>" and ?a = "lit ''EL1 SynchronousInterrupt''"
  let ?s = "reportCrash EL3 entity_payload (mem_read (phys_mem (p_mon ?p)) ?a sizeof_fault_desc) (ELR_EL1 p) (p_mon ?p)"
  have "SynchronousInterrupt_el1 cpu lit f r p = EL1_Hang (?p\<lparr>p_mon := ?s\<rparr>)"
    by (simp add: SynchronousInterrupt_el1_def el1_crash_def notifyPayloadCrashed_def smc_def handleSmc_def Let_def smc_ids)
  moreover have "phys_mem ?s = h_mem h" "state (e2m (ipc ?s)) = raw_state crashed_payload" "fault_pc (e2m (ipc ?s)) = ELR_EL1 p"
      "saved_cpu (e2m (ipc ?s)) = r" "saved_fpu (e2m (ipc ?s)) = saveFpuState f"
    using assms(2) by (simp_all add: reportCrash_def set_state_def Let_def save_cpu_def core_of_def)
  ultimately show ?thesis using assms(1) by (simp add: getState_def host_of_def)
qed

text \<open>What \<open>dumpCore\<close> writes for a crashed payload.\<close>

lemma dumpCore_writes:
  assumes "getState h d = crashed_payload" and "getPhysicalMemoryRanges d = Some r" and "get_devmem_handle env h = (h', Inr fd)"
    and "os_map env (payload_address r) (payload_size r)"
    and "writeCoreDump prpsinfo prstatus pad (Some n)
       [\<lparr>start_address = payload_address r, seg_data = mem_read (h_mem h) (payload_address r) (unat (payload_size r))\<rparr>]
       (saved_cpu (inbox h d)) (saved_fpu (inbox h d)) = Some f"
  shows "dumpCore env prpsinfo prstatus pad (Some n) d None h = Some (h', Some d, Dumped f)"
  using assms get_devmem_handle_frame [OF assms(3)] by (simp add: dumpCore_def Let_def)

end
