(* ===== verification/Payload_Demos.thy ===== *)
theory Payload_Demos
  imports Payload_Runtime
begin

text \<open>
  Programs written against the payload runtime: the demonstration payloads \<open>hello_world.cpp\<close>, \<open>timer_demo.cpp\<close>
  and \<open>adrian_irq_demo.cpp\<close> under \<open>src/payloads/\<close>, and what the runtime guarantees to them. The C library's \<open>printf\<close> is the
  argument \<open>pr\<close> (text, state, state after it); where a theorem depends on it, it says which
  part of the state \<open>pr\<close> must leave alone.
\<close>

section \<open>The periodic timer\<close>

text \<open>
  The hardware timer raises interrupt 30 when it is enabled and its deadline has passed: status bit 2 of the
  control register is then set, the EL1 vector runs, and the new deadline clears the bit. A disabled
  timer raises nothing.
\<close>

definition timer_event :: "nat \<Rightarrow> (string \<Rightarrow> u64) \<Rightarrow> (handler \<Rightarrow> payload \<Rightarrow> payload option) \<Rightarrow> payload \<Rightarrow> payload option" where
  "timer_event cpu lit user p =
     (if CNTP_CTL_EL0 p AND 1 = 0 then Some p
      else (case IRQInterrupt_el1 cpu lit (call_handler user) 30 (p\<lparr>CNTP_CTL_EL0 := CNTP_CTL_EL0 p OR 4\<rparr>) of
              EL1_Return q \<Rightarrow> Some (q\<lparr>CNTP_CTL_EL0 := CNTP_CTL_EL0 q AND NOT 4\<rparr>)
            | _ \<Rightarrow> None))"

fun timer_events :: "nat \<Rightarrow> (string \<Rightarrow> u64) \<Rightarrow> (handler \<Rightarrow> payload \<Rightarrow> payload option) \<Rightarrow> nat \<Rightarrow> payload \<Rightarrow> payload option" where
  "timer_events cpu lit user 0 p = Some p"
| "timer_events cpu lit user (Suc n) p = Option.bind (timer_events cpu lit user n p) (timer_event cpu lit user)"

section \<open>\<open>timer_demo.cpp\<close>\<close>

definition newline :: char where "newline = CHR 0x0A"

text \<open>\<open>myHandler\<close>, with its static counter \<open>cnt\<close>.\<close>

definition myHandler :: "nat \<Rightarrow> (string \<Rightarrow> payload \<Rightarrow> payload) \<Rightarrow> payload \<Rightarrow> payload option" where
  "myHandler cpu pr p =
     (let p1 = p\<lparr>user_vars := (user_vars p)(''cnt'' := user_vars p ''cnt'' + 1)\<rparr>;
          p2 = pr (to_string (nat (user_vars p1 ''cnt'')) @ ''th event'' @ [newline]) p1 in
      if user_vars p2 ''cnt'' = 5 then stopPeriodicInterrupt cpu p2 else Some p2)"

text \<open>\<open>main\<close> up to the loop that waits for interrupts; \<open>UserFunction 0\<close> is \<open>myHandler\<close>, \<open>now\<close> the count when the timer is started.\<close>

definition timer_demo_main :: "nat \<Rightarrow> (string \<Rightarrow> payload \<Rightarrow> payload) \<Rightarrow> u64 \<Rightarrow> payload \<Rightarrow> payload option" where
  "timer_demo_main cpu pr now p =
     Option.bind (notifyPayloadStarted cpu p) (\<lambda>p1.
     Option.bind (setupPeriodicInterrupt cpu 1000000 (UserFunction 0) (pr (''hello from payload'' @ [newline]) p1)) (\<lambda>p2.
     startPeriodicInterrupt cpu (p2\<lparr>CNTPCT_EL0 := now\<rparr>)))"

definition timer_demo_user :: "nat \<Rightarrow> (string \<Rightarrow> payload \<Rightarrow> payload) \<Rightarrow> handler \<Rightarrow> payload \<Rightarrow> payload option" where
  "timer_demo_user cpu pr h p = (if h = UserFunction 0 then myHandler cpu pr p else None)"

section \<open>\<open>hello_world.cpp\<close>\<close>

text \<open>\<open>base\<close> is the address of the symbol \<open>_vector_table\<close>, set by the linker; \<open>%p\<close> prints it as in newlib.\<close>

definition hello_text :: "nat \<Rightarrow> u64 \<Rightarrow> u64 \<Rightarrow> AbiVersion \<Rightarrow> string" where
  "hello_text cpu addr argument abi_version =
     ''Hello world from CPU'' @ to_string cpu @ ''! Our base address is 0x'' @ to_hex (unat addr) @
     '' and the Payload Argument is '' @ signed_string (sint argument) @ ''. ABI version '' @
     to_string (unat (major abi_version)) @ ''.'' @ to_string (unat (minor abi_version)) @ ''.'' @ [newline]"

definition hello_world_main :: "nat \<Rightarrow> u64 \<Rightarrow> (string \<Rightarrow> payload \<Rightarrow> payload) \<Rightarrow> payload \<Rightarrow> payload option" where
  "hello_world_main cpu addr pr p =
     Option.bind (notifyPayloadStarted cpu p) (\<lambda>p1.
     Option.bind (getMonitorAbiVersion cpu p1) (\<lambda>(p2, abi_version).
     Some (pr (hello_text cpu addr (getPayloadArgument p2) abi_version) p2)))"

section \<open>\<open>adrian_irq_demo.cpp\<close>\<close>

definition INTERRUPT_ID_ADRIAN_100US :: int where "INTERRUPT_ID_ADRIAN_100US = 121 + 4"
definition INTERRUPT_ID_ADRIAN_1000US :: int where "INTERRUPT_ID_ADRIAN_1000US = 121 + 5"

text \<open>The priorities \<open>main\<close> chooses: \<open>p1\<close> and \<open>p0_min\<close> of \<open>PayloadInterruptPriority\<close>.\<close>

definition priority_100us :: int where "priority_100us = priority_value prio_p1"
definition priority_1000us :: int where "priority_1000us = priority_value prio_p0_min"

text \<open>\<open>main\<close> up to its printing loop; \<open>UserFunction 1\<close> and \<open>UserFunction 2\<close> are \<open>on100us\<close> and \<open>on1000us\<close>.\<close>

definition irq_demo_main :: "nat \<Rightarrow> (string \<Rightarrow> payload \<Rightarrow> payload) \<Rightarrow> payload \<Rightarrow> payload option" where
  "irq_demo_main cpu pr p =
     Option.bind (notifyPayloadStarted cpu p) (\<lambda>p1.
     Option.bind (setupInterruptHandling cpu INTERRUPT_ID_ADRIAN_100US priority_100us (UserFunction 1)
        (pr (''Adrian IRQ demo'' @ [newline] @ ''NOTE: This code only works with a specific, unofficial gateware build.'' @ [newline, newline]) p1)) (\<lambda>(p2, _).
     Option.bind (setupInterruptHandling cpu INTERRUPT_ID_ADRIAN_1000US priority_1000us (UserFunction 2) p2) (\<lambda>(p3, _).
     Option.bind (enableInterruptHandling cpu INTERRUPT_ID_ADRIAN_100US p3) (\<lambda>p4.
     enableInterruptHandling cpu INTERRUPT_ID_ADRIAN_1000US p4))))"

text \<open>
  The two handlers, one step per access to the shared variables. \<open>hpc\<close> and \<open>lpc\<close> say which statement
  of \<open>on100us\<close> and \<open>on1000us\<close> comes next, if the handler has been entered.
\<close>

datatype high_pc = H_set | H_test | H_count | H_clear
datatype low_pc = L_set | L_test | L_count | L_usleep | L_clear

record irq_demo =
  high_active :: bool
  low_active :: bool
  high_count :: int
  low_count :: int
  high_nested :: int
  low_nested :: int
  hpc :: "high_pc option"
  lpc :: "low_pc option"

text \<open>
  The interrupt controller signals an interrupt when its priority group (the upper four bits) is below the
  running priority, that of the handler being executed, or 0xFF when there is none.
\<close>

definition running_priority :: "irq_demo \<Rightarrow> int" where
  "running_priority s =
     (if hpc s \<noteq> None then priority_100us AND 0xF0 else if lpc s \<noteq> None then priority_1000us AND 0xF0 else 0xFF)"

definition signalled :: "int \<Rightarrow> irq_demo \<Rightarrow> bool" where
  "signalled prio s \<longleftrightarrow> prio AND 0xF0 < running_priority s"

inductive irq_demo_step :: "irq_demo \<Rightarrow> irq_demo \<Rightarrow> bool" where
  enter_high: "signalled priority_100us s \<Longrightarrow> irq_demo_step s (s\<lparr>hpc := Some H_set\<rparr>)"
| enter_low: "signalled priority_1000us s \<Longrightarrow> irq_demo_step s (s\<lparr>lpc := Some L_set\<rparr>)"
| high_set: "hpc s = Some H_set \<Longrightarrow> irq_demo_step s (s\<lparr>high_active := True, hpc := Some H_test\<rparr>)"
| high_test: "hpc s = Some H_test \<Longrightarrow>
    irq_demo_step s (s\<lparr>high_nested := high_nested s + (if low_active s then 1 else 0), hpc := Some H_count\<rparr>)"
| high_incr: "hpc s = Some H_count \<Longrightarrow> irq_demo_step s (s\<lparr>high_count := high_count s + 1, hpc := Some H_clear\<rparr>)"
| high_clear: "hpc s = Some H_clear \<Longrightarrow> irq_demo_step s (s\<lparr>high_active := False, hpc := None\<rparr>)"
| low_set: "hpc s = None \<Longrightarrow> lpc s = Some L_set \<Longrightarrow> irq_demo_step s (s\<lparr>low_active := True, lpc := Some L_test\<rparr>)"
| low_test: "hpc s = None \<Longrightarrow> lpc s = Some L_test \<Longrightarrow>
    irq_demo_step s (s\<lparr>low_nested := low_nested s + (if high_active s then 1 else 0), lpc := Some L_count\<rparr>)"
| low_incr: "hpc s = None \<Longrightarrow> lpc s = Some L_count \<Longrightarrow> irq_demo_step s (s\<lparr>low_count := low_count s + 1, lpc := Some L_usleep\<rparr>)"
| low_usleep: "hpc s = None \<Longrightarrow> lpc s = Some L_usleep \<Longrightarrow> irq_demo_step s (s\<lparr>lpc := Some L_clear\<rparr>)"
| low_clear: "hpc s = None \<Longrightarrow> lpc s = Some L_clear \<Longrightarrow> irq_demo_step s (s\<lparr>low_active := False, lpc := None\<rparr>)"

inductive_cases irq_demo_stepE: "irq_demo_step s s'"

definition irq_demo_init :: irq_demo where
  "irq_demo_init = \<lparr>high_active = False, low_active = False, high_count = 0, low_count = 0, high_nested = 0, low_nested = 0,
     hpc = None, lpc = None\<rparr>"

inductive irq_demo_reach :: "irq_demo \<Rightarrow> bool" where
  reach_init: "irq_demo_reach irq_demo_init"
| reach_step: "irq_demo_reach s \<Longrightarrow> irq_demo_step s s' \<Longrightarrow> irq_demo_reach s'"

lemma timer_demo_user_simp [simp]: "timer_demo_user cpu pr (UserFunction 0) p = myHandler cpu pr p"
  by (simp add: timer_demo_user_def)

section \<open>Lemmas\<close>

text \<open>What a system call of the runtime can change.\<close>

lemma smc_frame:
  "smc cpu args p = Some (q, x) \<Longrightarrow> q = p\<lparr>p_mon := p_mon q\<rparr>"
  by (auto simp: smc_def split: el3_outcome.splits)

lemma enableInterruptHandling_eq:
  assumes "0 \<le> i" and "i < 1020"
  shows "\<exists>c. enableInterrupt (ctl (p_mon p)) i = Some c \<and>
    enableInterruptHandling cpu i p = Some (p\<lparr>p_mon := (p_mon p)\<lparr>ctl := c\<rparr>\<rparr>)"
  using assms enableInterrupt_eq [of i "ctl (p_mon p)"]
  by (auto simp: enableInterruptHandling_def smc_def handleSmc_def Let_def smc_ids resume_ctl_def)

lemma disableInterruptHandling_eq:
  assumes "0 \<le> i" and "i < 1020"
  shows "\<exists>c. disableInterrupt (ctl (p_mon p)) i = Some c \<and>
    disableInterruptHandling cpu i p = Some (p\<lparr>p_mon := (p_mon p)\<lparr>ctl := c\<rparr>\<rparr>)"
  using assms disableInterrupt_eq [of i "ctl (p_mon p)"]
  by (auto simp: disableInterruptHandling_def smc_def handleSmc_def Let_def smc_ids resume_ctl_def)

lemma setupInterruptHandling_ok:
  assumes "0 \<le> i" and "i < 188" and "0 \<le> prio" and "prio \<le> 255"
  shows "\<exists>c. setupInterruptHandling cpu i prio h p =
    Some (p\<lparr>user_interrupt_handlers := (user_interrupt_handlers p)[nat i := h], p_mon := (p_mon p)\<lparr>ctl := c\<rparr>\<rparr>, True)"
proof -
  obtain c where "smc_configure cpu (ctl (p_mon p)) i prio = Some c"
    using smc_configure_trace [OF assms(2), of cpu "ctl (p_mon p)" prio] by auto
  then show ?thesis using setupInterruptHandling_eq [OF assms(1,2), of prio cpu p c h] assms(3,4) by auto
qed

lemma setupPeriodicInterrupt_eq:
  "\<exists>c. setupPeriodicInterrupt cpu us h p = Some (p\<lparr>timer_period_ticks := us * CNTFRQ_EL0 (p_mon p) div 1000000,
    timer_irq_handler := h, CNTP_CTL_EL0 := 0, user_interrupt_handlers := (user_interrupt_handlers p)[30 := TimerIrq],
    p_mon := (p_mon p)\<lparr>ctl := c\<rparr>\<rparr>)"
proof -
  let ?p = "p\<lparr>timer_period_ticks := us * CNTFRQ_EL0 (p_mon p) div 1000000, timer_irq_handler := h, CNTP_CTL_EL0 := 0\<rparr>"
  show ?thesis
    using setupInterruptHandling_ok [of 30 "0x80" cpu TimerIrq ?p]
    by (auto simp: setupPeriodicInterrupt_def Let_def CNTPNS_INTERRUPT_ID_def )
qed

lemma startPeriodicInterrupt_eq:
  "\<exists>c. startPeriodicInterrupt cpu p = Some (p\<lparr>p_mon := (p_mon p)\<lparr>ctl := c\<rparr>,
     CNTP_CVAL_EL0 := CNTPCT_EL0 p + scast (ucast (timer_period_ticks p) :: u32), CNTP_CTL_EL0 := 1\<rparr>)"
  using enableInterruptHandling_eq [of 30 p cpu]
  by (auto simp: startPeriodicInterrupt_def write_CNTP_TVAL_EL0_def CNTPNS_INTERRUPT_ID_def)

text \<open>The low half of a word, sign extended.\<close>

lemma sint_ucast_u32: "sint (ucast (w :: u64) :: u32) = (uint w + 2 ^ 31) mod 2 ^ 32 - 2 ^ 31"
proof -
  have "sint (ucast w :: u32) = signed_take_bit 31 (uint w)"
    by (simp add: sint_uint unsigned_ucast_eq signed_take_bit_take_bit)
  then show ?thesis by (simp add: signed_take_bit_eq_take_bit_shift take_bit_eq_mod)
qed

lemma scast_ucast_small: "w < 2 ^ 31 \<Longrightarrow> scast (ucast (w :: u64) :: u32) = w"
proof -
  assume "w < 2 ^ 31"
  then have "uint w < 2 ^ 31" by (simp add: word_less_def)
  then have "sint (ucast w :: u32) = uint w" by (simp add: sint_ucast_u32)
  then show ?thesis by (simp add: scast_eq)
qed

lemma scast_ucast_large: "2 ^ 31 \<le> w \<Longrightarrow> w < 2 ^ 32 \<Longrightarrow> x + scast (ucast (w :: u64) :: u32) = x - (2 ^ 32 - w)"
proof -
  assume "2 ^ 31 \<le> w" "w < 2 ^ 32"
  then have "2 ^ 31 \<le> uint w" "uint w < 2 ^ 32" by (simp_all add: word_less_def word_le_def)
  then have "(uint w + 2 ^ 31) mod 2 ^ 32 = uint w + 2 ^ 31 - 2 ^ 32"
    using mod_pos_pos_trivial [of "uint w - 2 ^ 31" "2 ^ 32"] mod_add_self2 [of "uint w - 2 ^ 31" "2 ^ 32"] by (simp add: add.commute)
  then have "sint (ucast w :: u32) = uint w - 2 ^ 32" by (simp add: sint_ucast_u32)
  then have "scast (ucast w :: u32) = (of_int (uint w - 2 ^ 32) :: u64)" by (simp add: scast_eq)
  then show ?thesis by simp
qed
text \<open>The state of the timer that user code shares with the runtime.\<close>

definition leaves_timer :: "payload \<Rightarrow> payload \<Rightarrow> bool" where
  "leaves_timer q q' \<longleftrightarrow> CNTP_CVAL_EL0 q' = CNTP_CVAL_EL0 q \<and> CNTP_CTL_EL0 q' = CNTP_CTL_EL0 q \<and>
     timer_period_ticks q' = timer_period_ticks q \<and> timer_irq_handler q' = timer_irq_handler q \<and>
     user_interrupt_handlers q' = user_interrupt_handlers q"

definition timer_running :: "payload \<Rightarrow> bool" where
  "timer_running p \<longleftrightarrow> CNTP_CTL_EL0 p = 1 \<and> user_interrupt_handlers p ! 30 = TimerIrq"

lemma timer_event_running:
  assumes "timer_running p" and "timer_irq_handler p \<noteq> NoHandler"
    and "user (timer_irq_handler p) (p\<lparr>CNTP_CTL_EL0 := 5, DAIF_EL1 := DAIF_EL1 p AND NOT DAIF_I_MASK\<rparr>) = Some r"
  shows "\<exists>q. timer_event cpu lit user p = Some q \<and> CNTP_CVAL_EL0 q = CNTP_CVAL_EL0 r + timer_period_ticks r \<and>
    CNTP_CTL_EL0 q = CNTP_CTL_EL0 r AND NOT 4 \<and> timer_period_ticks q = timer_period_ticks r \<and>
    timer_irq_handler q = timer_irq_handler r \<and> user_interrupt_handlers q = user_interrupt_handlers r \<and> user_vars q = user_vars r"
proof -
  let ?p = "p\<lparr>CNTP_CTL_EL0 := 5\<rparr>"
  have "uint (30 AND IAR_INTERRUPT_ID_MASK) = int 30" by (simp add: IAR_INTERRUPT_ID_MASK_def)
  from irq_dispatch [OF this, of ?p cpu lit "call_handler user"] show ?thesis
    using assms by (auto simp: timer_event_def timer_running_def handleTimerIrq_def p_dev_write_def)
qed

section \<open>The C library's \<open>printf\<close>\<close>

text \<open>What the programs rely on: \<open>printf\<close> returns and leaves the timer, the handlers and the program's variables alone.\<close>

locale c_printf =
  fixes pr :: "string \<Rightarrow> payload \<Rightarrow> payload"
  assumes pr_timer: "leaves_timer q (pr t q)"
    and pr_vars: "user_vars (pr t q) = user_vars q"
    and pr_wf: "wf_payload q \<Longrightarrow> wf_payload (pr t q)"
begin

lemma myHandler_counts:
  assumes "user_vars p ''cnt'' + 1 \<noteq> 5"
  shows "\<exists>r. myHandler cpu pr p = Some r \<and> leaves_timer p r \<and> user_vars r ''cnt'' = user_vars p ''cnt'' + 1"
proof -
  let ?p1 = "p\<lparr>user_vars := (user_vars p)(''cnt'' := user_vars p ''cnt'' + 1)\<rparr>"
  have "leaves_timer p (pr t ?p1)" for t using pr_timer [of ?p1 t] by (simp add: leaves_timer_def)
  then show ?thesis using assms by (simp add: myHandler_def Let_def pr_vars)
qed

lemma myHandler_stops:
  assumes "user_vars p ''cnt'' = 4"
  shows "\<exists>r. myHandler cpu pr p = Some r \<and> CNTP_CTL_EL0 r = 0 \<and> user_vars r ''cnt'' = 5"
proof -
  let ?q = "pr (to_string 5 @ ''th event'' @ [newline]) (p\<lparr>user_vars := (user_vars p)(''cnt'' := 5)\<rparr>)"
  have "user_vars ?q ''cnt'' = 5" by (simp add: pr_vars)
  then show ?thesis
    using assms disableInterruptHandling_eq [of 30 "?q\<lparr>CNTP_CTL_EL0 := 0\<rparr>" cpu]
    by (auto simp: myHandler_def Let_def stopPeriodicInterrupt_def CNTPNS_INTERRUPT_ID_def)
qed

text \<open>Five events, then silence.\<close>

lemma timer_demo_events:
  assumes "timer_running p" and "timer_irq_handler p = UserFunction 0" and "user_vars p ''cnt'' = 0"
  shows "\<exists>q. timer_events cpu lit (timer_demo_user cpu pr) n p = Some q \<and> user_vars q ''cnt'' = int (min n 5) \<and>
    CNTP_CTL_EL0 q = (if n < 5 then 1 else 0) \<and> (n < 5 \<longrightarrow> timer_running q \<and> timer_irq_handler q = UserFunction 0)"
proof (induction n)
  case 0
  then show ?case using assms by (simp add: timer_running_def)
next
  case (Suc n)
  then obtain q where q: "timer_events cpu lit (timer_demo_user cpu pr) n p = Some q" "user_vars q ''cnt'' = int (min n 5)"
    "CNTP_CTL_EL0 q = (if n < 5 then 1 else 0)" "n < 5 \<longrightarrow> timer_running q \<and> timer_irq_handler q = UserFunction 0" by blast
  let ?q = "q\<lparr>CNTP_CTL_EL0 := 5, DAIF_EL1 := DAIF_EL1 q AND NOT DAIF_I_MASK\<rparr>"
  have step: "timer_events cpu lit (timer_demo_user cpu pr) (Suc n) p = timer_event cpu lit (timer_demo_user cpu pr) q"
    using q(1) by simp
  consider "n < 4" | "n = 4" | "5 \<le> n" by linarith
  then show ?case
  proof cases
    case 1
    then obtain r where r: "myHandler cpu pr ?q = Some r" "leaves_timer ?q r" "user_vars r ''cnt'' = int (Suc n)"
      using myHandler_counts [of ?q cpu] q(2) by auto
    then show ?thesis unfolding step
      using timer_event_running [of q "timer_demo_user cpu pr" r cpu lit] q 1
      by (auto simp: leaves_timer_def timer_running_def)
  next
    case 2
    then obtain r where r: "myHandler cpu pr ?q = Some r" "CNTP_CTL_EL0 r = 0" "user_vars r ''cnt'' = 5"
      using myHandler_stops [of ?q cpu] q(2) by auto
    then show ?thesis unfolding step
      using timer_event_running [of q "timer_demo_user cpu pr" r cpu lit] q 2 by auto
  next
    case 3
    then show ?thesis unfolding step using q by (simp add: timer_event_def)
  qed
qed

lemma timer_demo_starts:
  assumes "wf_payload p"
  shows "\<exists>p1. timer_demo_main cpu pr now p = Some p1 \<and> timer_running p1 \<and> timer_irq_handler p1 = UserFunction 0 \<and>
    user_vars p1 = user_vars p"
proof -
  obtain p1 where p1: "notifyPayloadStarted cpu p = Some p1" "wf_payload p1" "user_vars p1 = user_vars p"
    using assms by (simp add: notifyPayloadStarted_def smc_def handleSmc_def Let_def smc_ids wf_payload_def)
  let ?p2 = "pr (''hello from payload'' @ [newline]) p1"
  have len: "30 < length (user_interrupt_handlers ?p2)"
    using pr_wf [OF p1(2)] by (simp add: wf_payload_def routed_size_def GIC_MAX_USER_INTERRUPT_ID_def GIC_MIN_USER_INTERRUPT_ID_def)
  obtain p3 where p3: "setupPeriodicInterrupt cpu 1000000 (UserFunction 0) ?p2 = Some p3" "timer_irq_handler p3 = UserFunction 0"
      "user_interrupt_handlers p3 ! 30 = TimerIrq" "user_vars p3 = user_vars p"
    using setupPeriodicInterrupt_eq [of cpu 1000000 "UserFunction 0" ?p2]
      len p1(3) by (auto simp: pr_vars)
  with p1(1) startPeriodicInterrupt_eq [of cpu "p3\<lparr>CNTPCT_EL0 := now\<rparr>"] show ?thesis
    by (auto simp: timer_demo_main_def timer_running_def)
qed

end

text \<open>
  \<open>printf\<close> through the runtime: the text is put into the library's line buffer at \<open>buf\<close> and passed to \<open>_write\<close>.
\<close>

definition printf_write :: "nat \<Rightarrow> u64 \<Rightarrow> string \<Rightarrow> payload \<Rightarrow> payload" where
  "printf_write cpu buf t p =
     (let m = p_mon p; p1 = p\<lparr>p_mon := m\<lparr>phys_mem := mem_write (phys_mem m) buf (ascii t)\<rparr>\<rparr> in
      case sys_write cpu 1 buf (int (length t)) p1 of None \<Rightarrow> p | Some (q, _) \<Rightarrow> q)"

lemma sys_write_payload:
  "sys_write cpu fd ptr n p = Some (q, x) \<Longrightarrow> q = p\<lparr>p_mon := p_mon q\<rparr> \<and> (wf_payload p \<longrightarrow> wf_payload q)"
  using handleSmc_frame [of "p_mon p" cpu EL3 "smc_regs [SMC_WRITE_STDOUT, ptr, u64_of_int32 n]" "p_mon q"]
  by (auto simp: sys_write_def writeToStdout_payload_def smc_def wf_payload_def split: el3_outcome.splits)

lemma printf_write_frame:
  "printf_write cpu buf t p = p\<lparr>p_mon := p_mon (printf_write cpu buf t p)\<rparr>"
  "wf_payload p \<Longrightarrow> wf_payload (printf_write cpu buf t p)"
proof -
  let ?p1 = "p\<lparr>p_mon := (p_mon p)\<lparr>phys_mem := mem_write (phys_mem (p_mon p)) buf (ascii t)\<rparr>\<rparr>"
  have wf: "wf_payload ?p1 = wf_payload p" by (simp add: wf_payload_def wf_mon_def)
  have "q = p\<lparr>p_mon := p_mon q\<rparr> \<and> (wf_payload p \<longrightarrow> wf_payload q)"
    if "sys_write cpu 1 buf (int (length t)) ?p1 = Some (q, x)" for q x
    using sys_write_payload [OF that] wf by auto
  then show "printf_write cpu buf t p = p\<lparr>p_mon := p_mon (printf_write cpu buf t p)\<rparr>"
    "wf_payload p \<Longrightarrow> wf_payload (printf_write cpu buf t p)"
    by (auto simp: printf_write_def Let_def split: option.splits)
qed

interpretation runtime_printf: c_printf "printf_write cpu buf" for cpu buf
proof unfold_locales
  fix q t
  show "leaves_timer q (printf_write cpu buf t q)"
    by (subst printf_write_frame(1)) (simp add: leaves_timer_def)
  show "user_vars (printf_write cpu buf t q) = user_vars q"
    by (subst printf_write_frame(1)) simp
  show "wf_payload q \<Longrightarrow> wf_payload (printf_write cpu buf t q)"
    by (rule printf_write_frame(2))
qed

section \<open>Properties\<close>

text \<open>
  C32: the periodic timer does not drift. With a handler that returns and leaves the timer alone, after
  \<open>setupPeriodicInterrupt\<close>, \<open>startPeriodicInterrupt\<close> at count \<open>now\<close> and \<open>n\<close> interrupts, the deadline is the first one plus
  \<open>n\<close> periods (modulo 2^64), however long the handlers took. The first deadline is not always one period after the
  start: the 32-bit timer value register takes the lower 32 bits of the period as a signed number. It is one period
  after the start if the period is below 2^31 ticks; for periods from 2^31 ticks (21.5 seconds at 100 MHz) to below 2^32
  ticks it has already passed; and for periods of 2^32 ticks and more it depends on the lower 32 bits only.
\<close>

theorem periodic_timer_no_drift:
  assumes "wf_payload p" and "h \<noteq> NoHandler" and "\<And>q. \<exists>q'. user h q = Some q' \<and> leaves_timer q q'"
  shows "let ticks = us * CNTFRQ_EL0 (p_mon p) div 1000000 in
    \<exists>p1 p2. setupPeriodicInterrupt cpu us h p = Some p1 \<and> startPeriodicInterrupt cpu (p1\<lparr>CNTPCT_EL0 := now\<rparr>) = Some p2 \<and>
      CNTP_CVAL_EL0 p2 = now + scast (ucast ticks :: 32 word) \<and>
      (ticks < 2 ^ 31 \<longrightarrow> CNTP_CVAL_EL0 p2 = now + ticks) \<and>
      (2 ^ 31 \<le> ticks \<and> ticks < 2 ^ 32 \<longrightarrow> CNTP_CVAL_EL0 p2 = now - (2 ^ 32 - ticks)) \<and>
      (\<forall>n. \<exists>q. timer_events cpu lit user n p2 = Some q \<and> CNTP_CVAL_EL0 q = CNTP_CVAL_EL0 p2 + of_nat n * ticks)"
proof -
  let ?ticks = "us * CNTFRQ_EL0 (p_mon p) div 1000000"
  obtain p1 where p1: "setupPeriodicInterrupt cpu us h p = Some p1" "timer_period_ticks p1 = ?ticks" "timer_irq_handler p1 = h"
      "user_interrupt_handlers p1 ! 30 = TimerIrq"
    using setupPeriodicInterrupt_eq [of cpu us h p] assms(1)
    by (auto simp: wf_payload_def routed_size_def GIC_MAX_USER_INTERRUPT_ID_def GIC_MIN_USER_INTERRUPT_ID_def)
  obtain p2 where p2: "startPeriodicInterrupt cpu (p1\<lparr>CNTPCT_EL0 := now\<rparr>) = Some p2" "timer_running p2"
      "CNTP_CVAL_EL0 p2 = now + scast (ucast ?ticks :: u32)" "timer_period_ticks p2 = ?ticks" "timer_irq_handler p2 = h"
    using startPeriodicInterrupt_eq [of cpu "p1\<lparr>CNTPCT_EL0 := now\<rparr>"] p1 by (auto simp: timer_running_def)
  have events: "\<exists>q. timer_events cpu lit user n p2 = Some q \<and> CNTP_CVAL_EL0 q = CNTP_CVAL_EL0 p2 + of_nat n * ?ticks \<and>
      timer_running q \<and> timer_period_ticks q = ?ticks \<and> timer_irq_handler q = h" for n
  proof (induction n)
    case 0
    then show ?case using p2 by simp
  next
    case (Suc n)
    then obtain q where q: "timer_events cpu lit user n p2 = Some q" "CNTP_CVAL_EL0 q = CNTP_CVAL_EL0 p2 + of_nat n * ?ticks"
      "timer_running q" "timer_period_ticks q = ?ticks" "timer_irq_handler q = h" by blast
    let ?q = "q\<lparr>CNTP_CTL_EL0 := 5, DAIF_EL1 := DAIF_EL1 q AND NOT DAIF_I_MASK\<rparr>"
    obtain r where r: "user h ?q = Some r" "leaves_timer ?q r" using assms(3) by blast
    with q assms(2) timer_event_running [of q user r cpu lit] show ?case
      by (auto simp: leaves_timer_def timer_running_def algebra_simps)
  qed
  show ?thesis unfolding Let_def
    using p1(1) p2(1,3) events scast_ucast_small [of ?ticks] scast_ucast_large [of ?ticks] by metis
qed

theorem periodic_timer_no_drift_witness:
  "\<exists>p1 p2 q. setupPeriodicInterrupt 1 1000 (UserFunction 0) (idle_payload\<lparr>p_mon := idle_mon\<lparr>CNTFRQ_EL0 := 100000000\<rparr>\<rparr>) = Some p1 \<and>
     startPeriodicInterrupt 1 (p1\<lparr>CNTPCT_EL0 := 7\<rparr>) = Some p2 \<and>
     timer_events 1 (\<lambda>_. 0) (\<lambda>_ q. Some q) 3 p2 = Some q \<and> CNTP_CVAL_EL0 q = 400007"
proof -
  let ?p = "idle_payload\<lparr>p_mon := idle_mon\<lparr>CNTFRQ_EL0 := 100000000\<rparr>\<rparr>"
  have "wf_payload ?p" using wf_idle_payload by (simp add: wf_payload_def wf_mon_def) (simp add: idle_payload_def)
  from periodic_timer_no_drift [OF this, of "UserFunction 0" "\<lambda>_ q. Some q" 1000 1 7 "\<lambda>_. 0"] obtain p1 p2 where
    p2: "setupPeriodicInterrupt 1 1000 (UserFunction 0) ?p = Some p1" "startPeriodicInterrupt 1 (p1\<lparr>CNTPCT_EL0 := 7\<rparr>) = Some p2"
    "CNTP_CVAL_EL0 p2 = 100007" and ev: "\<And>n. \<exists>q. timer_events 1 (\<lambda>_. 0) (\<lambda>_ q. Some q) n p2 = Some q \<and>
      CNTP_CVAL_EL0 q = CNTP_CVAL_EL0 p2 + of_nat n * 100000"
    by (auto simp: leaves_timer_def Let_def)
  from ev [of 3] p2 show ?thesis by auto
qed

text \<open>
  The timer demonstration counts to five: started on a fresh payload, its handler runs at each timer
  interrupt, the timer stays enabled until the fifth, and from then on it is disabled and the
  counter stands at five, however often the timer could have fired.
\<close>

lemma timer_demo_five_events:
  assumes "c_printf pr" and "wf_payload p" and "user_vars p ''cnt'' = 0"
  shows "\<exists>p1. timer_demo_main cpu pr now p = Some p1 \<and>
    (\<forall>n. \<exists>q. timer_events cpu lit (timer_demo_user cpu pr) n p1 = Some q \<and> user_vars q ''cnt'' = int (min n 5) \<and>
       CNTP_CTL_EL0 q = (if n < 5 then 1 else 0))"
proof -
  from c_printf.timer_demo_starts [OF assms(1,2)] obtain p1 where
    p1: "timer_demo_main cpu pr now p = Some p1" "timer_running p1" "timer_irq_handler p1 = UserFunction 0" "user_vars p1 = user_vars p"
    by blast
  then have "\<exists>q. timer_events cpu lit (timer_demo_user cpu pr) n p1 = Some q \<and> user_vars q ''cnt'' = int (min n 5) \<and>
      CNTP_CTL_EL0 q = (if n < 5 then 1 else 0)" for n
    using c_printf.timer_demo_events [OF assms(1) p1(2,3), of cpu lit n] assms(3) by auto
  with p1(1) show ?thesis by blast
qed

text \<open>The invariant of the handlers: which flags and counters belong to which program points.\<close>

definition irq_demo_inv :: "irq_demo \<Rightarrow> bool" where
  "irq_demo_inv s \<longleftrightarrow>
     (high_active s \<longleftrightarrow> hpc s \<in> {Some H_test, Some H_count, Some H_clear}) \<and>
     (low_active s \<longleftrightarrow> lpc s \<in> {Some L_test, Some L_count, Some L_usleep, Some L_clear}) \<and>
     low_nested s = 0 \<and> 0 \<le> high_nested s \<and> 
     high_nested s \<le> high_count s + (if hpc s = Some H_count then 1 else 0)"

lemma signalled_iff:
  "signalled priority_100us s \<longleftrightarrow> hpc s = None" "signalled priority_1000us s \<longleftrightarrow> hpc s = None \<and> lpc s = None"
  by (auto simp: signalled_def running_priority_def priority_100us_def priority_1000us_def)

lemma irq_demo_inv_step: "irq_demo_step s s' \<Longrightarrow> irq_demo_inv s \<Longrightarrow> irq_demo_inv s'"
  by (erule irq_demo_stepE) (simp_all add: irq_demo_inv_def signalled_iff)

lemma irq_demo_inv_reach: "irq_demo_reach s \<Longrightarrow> irq_demo_inv s"
proof (induction rule: irq_demo_reach.induct)
  case reach_init
  show ?case by (simp add: irq_demo_inv_def irq_demo_init_def)
next
  case (reach_step s s')
  then show ?case by (blast intro: irq_demo_inv_step)
qed

lemma irq_demo_nests: "\<exists>s. irq_demo_reach s \<and> high_nested s = 1"
proof -
  let ?s = "irq_demo_init\<lparr>low_active := True, lpc := Some L_test\<rparr>"
  have "irq_demo_reach (irq_demo_init\<lparr>lpc := Some L_set\<rparr>)"
    by (rule reach_step [OF reach_init enter_low]) (simp add: signalled_iff irq_demo_init_def)
  from reach_step [OF this low_set] have "irq_demo_reach ?s" by (simp add: irq_demo_init_def)
  from reach_step [OF this enter_high] have "irq_demo_reach (?s\<lparr>hpc := Some H_set\<rparr>)"
    by (simp add: signalled_iff irq_demo_init_def)
  from reach_step [OF this high_set] have "irq_demo_reach (?s\<lparr>high_active := True, hpc := Some H_test\<rparr>)" by simp
  from reach_step [OF this high_test] show ?thesis by (force simp: irq_demo_init_def)
qed

lemma notifyPayloadStarted_ok:
  "wf_payload p \<Longrightarrow> \<exists>q. notifyPayloadStarted cpu p = Some q \<and> wf_payload q \<and> q = p\<lparr>p_mon := reportPayloadStarted (p_mon p)\<rparr>"
  by (simp add: notifyPayloadStarted_def smc_def handleSmc_def Let_def smc_ids wf_payload_def)

text \<open>
  Preemption in the interrupt demonstration. \<open>main\<close> registers both handlers with the priorities \<open>p1\<close> and \<open>p0_min\<close>;
  with the interrupt controller's rule for preemption, in every interleaving of the two handlers the
  low-priority one never finds the high-priority one active (\<open>low_nested\<close> stays zero, as the comment of the program
  demands), nested interrupts are counted at most once per high-priority interrupt, and nesting does occur.
\<close>

lemma irq_demo_no_inversion:
  assumes "c_printf pr" and "wf_payload p"
  shows "(\<exists>q. irq_demo_main cpu pr p = Some q \<and> user_interrupt_handlers q ! 125 = UserFunction 1 \<and>
      user_interrupt_handlers q ! 126 = UserFunction 2) \<and>
    (\<forall>s. irq_demo_reach s \<longrightarrow> low_nested s = 0 \<and> 0 \<le> high_nested s \<and> high_nested s \<le> high_count s + 1) \<and>
    (\<exists>s. irq_demo_reach s \<and> high_nested s = 1)"
proof (intro conjI)
  obtain p1 where p1: "notifyPayloadStarted cpu p = Some p1" "wf_payload p1"
    using notifyPayloadStarted_ok [OF assms(2)] by blast
  define p2 where "p2 = pr (''Adrian IRQ demo'' @ [newline] @ ''NOTE: This code only works with a specific, unofficial gateware build.'' @ [newline, newline]) p1"
  have len: "length (user_interrupt_handlers p2) = 188"
    using c_printf.pr_wf [OF assms(1) p1(2)] by (simp add: p2_def wf_payload_def routed_size_def GIC_MAX_USER_INTERRUPT_ID_def GIC_MIN_USER_INTERRUPT_ID_def)
  obtain p3 where p3: "setupInterruptHandling cpu 125 0xE0 (UserFunction 1) p2 = Some (p3, True)"
      "user_interrupt_handlers p3 = (user_interrupt_handlers p2)[125 := UserFunction 1]"
    using setupInterruptHandling_ok [of 125 "0xE0" cpu "UserFunction 1" p2] by auto
  obtain p4 where p4: "setupInterruptHandling cpu 126 0xF0 (UserFunction 2) p3 = Some (p4, True)"
      "user_interrupt_handlers p4 = (user_interrupt_handlers p3)[126 := UserFunction 2]"
    using setupInterruptHandling_ok [of 126 "0xF0" cpu "UserFunction 2" p3] by auto
  obtain p5 where p5: "enableInterruptHandling cpu 125 p4 = Some p5" "user_interrupt_handlers p5 = user_interrupt_handlers p4"
    using enableInterruptHandling_eq [of 125 p4 cpu] by auto
  obtain p6 where p6: "enableInterruptHandling cpu 126 p5 = Some p6" "user_interrupt_handlers p6 = user_interrupt_handlers p5"
    using enableInterruptHandling_eq [of 126 p5 cpu] by auto
  have "irq_demo_main cpu pr p = Some p6"
    using p1(1) p3(1) p4(1) p5(1) p6(1) unfolding p2_def
    by (simp add: irq_demo_main_def INTERRUPT_ID_ADRIAN_100US_def INTERRUPT_ID_ADRIAN_1000US_def priority_100us_def
        priority_1000us_def)
  then show "\<exists>q. irq_demo_main cpu pr p = Some q \<and> user_interrupt_handlers q ! 125 = UserFunction 1 \<and>
      user_interrupt_handlers q ! 126 = UserFunction 2"
    using p3(2) p4(2) p5(2) p6(2) len by simp
next
  show "\<forall>s. irq_demo_reach s \<longrightarrow> low_nested s = 0 \<and> 0 \<le> high_nested s \<and> high_nested s \<le> high_count s + 1"
    using irq_demo_inv_reach by (fastforce simp: irq_demo_inv_def split: if_splits)
qed (rule irq_demo_nests)

end
