(* ===== verification/Core_Reader.thy ===== *)
theory Core_Reader
  imports Coredump
begin

text \<open>
  The reading side of a core dump, as a debugger does it: an ELF reader that finds the notes and the memory
  segments from the headers alone. It is the specification against which the writer of theory Coredump is
  proved: what is read from a complete dump is what was given to the writer.
\<close>

section \<open>The reader\<close>

definition rd :: "nat \<Rightarrow> bytes \<Rightarrow> nat \<Rightarrow> 'a::len word" where
  "rd n bs at = le_word (take n (drop at bs))"

definition decode_phdr :: "bytes \<Rightarrow> Elf64_Phdr" where
  "decode_phdr bs = \<lparr>p_type = rd 4 bs 0, p_flags = rd 4 bs 4, p_offset = rd 8 bs 8, p_vaddr = rd 8 bs 16,
     p_paddr = rd 8 bs 24, p_filesz = rd 8 bs 32, p_memsz = rd 8 bs 40, p_align = rd 8 bs 48\<rparr>"

definition pad4 :: "nat \<Rightarrow> nat" where
  "pad4 n = (n + 3) div 4 * 4"

text \<open>A note: size of the name with its terminator, size of the contents, type, name and contents padded to four.\<close>

record elf_note =
  n_name :: bytes
  n_type :: u32
  n_desc :: bytes

function read_notes :: "bytes \<Rightarrow> elf_note list option" where
  "read_notes bs =
     (if bs = [] then Some []
      else if length bs < 12 then None
      else
        let namesz = unat (rd 4 bs 0 :: u32); descsz = unat (rd 4 bs 4 :: u32);
            desc_at = 12 + pad4 namesz; next_at = desc_at + pad4 descsz in
        if namesz = 0 \<or> length bs < desc_at + descsz then None
        else map_option ((#) \<lparr>n_name = take (namesz - 1) (drop 12 bs), n_type = rd 4 bs 8, n_desc = take descsz (drop desc_at bs)\<rparr>)
               (read_notes (drop next_at bs)))"
  by auto
termination by (relation "measure length") (auto simp: Let_def)

declare read_notes.simps [simp del]

record core_view =
  cv_notes :: "elf_note list"
  cv_segments :: "MemorySegment list"

definition phdr_table :: "bytes \<Rightarrow> Elf64_Phdr list" where
  "phdr_table bs = map (\<lambda>i. decode_phdr (take 56 (drop (unat (rd 8 bs 32 :: u64) + i * 56) bs))) [0..<unat (rd 2 bs 56 :: 16 word)]"

definition seg_bytes :: "bytes \<Rightarrow> Elf64_Phdr \<Rightarrow> bytes" where
  "seg_bytes bs p = take (unat (p_filesz p)) (drop (unat (p_offset p)) bs)"

definition read_core :: "bytes \<Rightarrow> core_view option" where
  "read_core bs =
     (if length bs < 64 \<or> take 4 bs \<noteq> [0x7f, 0x45, 0x4c, 0x46] then None
      else
        let phs = phdr_table bs in
        case filter (\<lambda>p. p_type p = PT_NOTE) phs of
          [p] \<Rightarrow> map_option (\<lambda>ns. \<lparr>cv_notes = ns,
                    cv_segments = map (\<lambda>p. \<lparr>start_address = p_vaddr p, seg_data = seg_bytes bs p\<rparr>)
                      (filter (\<lambda>p. p_type p = PT_LOAD) phs)\<rparr>)
                  (read_notes (seg_bytes bs p))
        | _ \<Rightarrow> None)"

text \<open>The register image inside \<open>NT_PRSTATUS\<close>.\<close>

definition decode_regs :: "bytes \<Rightarrow> Aarch64_Regs" where
  "decode_regs bs = \<lparr>regs = map (\<lambda>i. rd 8 bs (i * 8)) [0..<31], sp = rd 8 bs 248, pc = rd 8 bs 256, pstate = rd 8 bs 264\<rparr>"

section \<open>Reading what was written\<close>

lemma le_word_le_bytes_u16 [simp]: "le_word (le_bytes 2 (w :: 16 word)) = w"
  by (rule le_word_le_bytes) simp

lemma decode_phdr_bytes [simp]: "decode_phdr (phdr_bytes p) = p"
  by (cases p) (simp add: decode_phdr_def phdr_bytes_def rd_def)

lemma decode_regs_bytes:
  assumes "length (regs r) = 31"
  shows "decode_regs (regs_bytes r @ rest) = r"
proof -
  have len: "length (concat (map (le_bytes 8) (regs r))) = 248"
    using assms by (subst concat_length_const [where n = 8]) simp_all
  have "rd 8 (regs_bytes r @ rest) (i * 8) = regs r ! i" if "i < 31" for i
  proof -
    have "8 \<le> length (drop (i * 8) (concat (map (le_bytes 8) (regs r))))" using len that by simp
    then have "take 8 (drop (i * 8) (regs_bytes r @ rest)) = take 8 (drop (i * 8) (concat (map (le_bytes 8) (regs r))))"
      using len that by (simp add: regs_bytes_def)
    also have "\<dots> = le_bytes 8 (regs r ! i)" using concat_const_at [of "regs r" "le_bytes 8" 8 i] assms that by simp
    finally show ?thesis by (simp add: rd_def)
  qed
  then have "map (\<lambda>i. rd 8 (regs_bytes r @ rest) (i * 8)) [0..<31] = regs r"
    using assms by (intro nth_equalityI) simp_all
  moreover have "rd 8 (regs_bytes r @ rest) 248 = sp r" "rd 8 (regs_bytes r @ rest) 256 = pc r"
      "rd 8 (regs_bytes r @ rest) 264 = pstate r"
    using len by (simp_all add: regs_bytes_def rd_def)
  ultimately show ?thesis by (simp add: decode_regs_def)
qed

lemma replicate_3: "replicate 3 x = [x, x, x]"
  by (simp add: numeral_3_eq_3)

text \<open>One step of the reader, over the parts of a note.\<close>

lemma read_notes_step:
  assumes "length nm = 4" and "4 dvd length desc" and "length desc < 2 ^ 32"
    and "bs = le_bytes 4 (5 :: u32) @ le_bytes 4 (of_nat (length desc) :: u32) @ le_bytes 4 t @ nm @ [0, 0, 0, 0] @ desc @ rest"
  shows "read_notes bs = map_option ((#) \<lparr>n_name = nm, n_type = t, n_desc = desc\<rparr>) (read_notes rest)"
proof -
  define pre where "pre = le_bytes 4 (5 :: u32) @ le_bytes 4 (of_nat (length desc) :: u32) @ le_bytes 4 t @ nm @ [0, 0, 0, 0]"
  have bs: "bs = pre @ desc @ rest" "length pre = 20" using assms(1,4) by (simp_all add: pre_def)
  have rds: "rd 4 bs 0 = (5 :: u32)" "rd 4 bs 4 = (of_nat (length desc) :: u32)" "rd 4 bs 8 = t" "take 4 (drop 12 bs) = nm"
    using assms(1) unfolding assms(4) by (simp_all add: rd_def)
  have d: "unat (of_nat (length desc) :: u32) = length desc" "pad4 (length desc) = length desc" "pad4 5 = 8"
    using assms(2,3) by (auto simp: unat_of_nat take_bit_eq_mod pad4_def)
  have desc: "take (length desc) (drop 20 bs) = desc" "drop (20 + length desc) bs = rest" "20 + length desc \<le> length bs"
    using bs by simp_all
  then have "bs \<noteq> []" by auto
  then show ?thesis
    using rds d desc by (subst read_notes.simps) (simp add: Let_def)
qed

lemma read_one_note:
  assumes "4 dvd length desc" and "length desc < 2 ^ 32"
  shows "read_notes (concat (write_note (ascii ''CORE'') t desc) @ rest) =
    map_option ((#) \<lparr>n_name = ascii ''CORE'', n_type = t, n_desc = desc\<rparr>) (read_notes rest)"
  by (rule read_notes_step [OF _ assms])
    (simp_all add: write_note_def make_padding_span_def ascii_def replicate_3)

lemma filter_load_phdrs:
  "filter (\<lambda>p. p_type p = PT_NOTE) (load_phdrs o1 fsz segs) = []"
  "filter (\<lambda>p. p_type p = PT_LOAD) (load_phdrs o1 fsz segs) = load_phdrs o1 fsz segs"
  by (induction segs arbitrary: o1 fsz) (simp_all add: PT_NOTE_def PT_LOAD_def)

lemma ehdr_fields:
  "take 4 (ehdr_bytes n @ rest) = [0x7f, 0x45, 0x4c, 0x46]" "rd 8 (ehdr_bytes n @ rest) 32 = (64 :: u64)"
  "rd 2 (ehdr_bytes n @ rest) 56 = n"
  by (simp_all add: ehdr_bytes_def rd_def sizeof_Ehdr_def)

lemma phdr_table_written:
  assumes "length phs < 2 ^ 16"
  shows "phdr_table (ehdr_bytes (of_nat (length phs)) @ concat (map phdr_bytes phs) @ rest) = phs"
proof -
  let ?bs = "ehdr_bytes (of_nat (length phs)) @ concat (map phdr_bytes phs) @ rest"
  have len: "length (concat (map phdr_bytes phs)) = 56 * length phs"
    by (subst concat_length_const [where n = 56]) (simp_all add: sizeof_Phdr_def)
  have n: "unat (of_nat (length phs) :: 16 word) = length phs"
    using assms by (simp add: unat_of_nat take_bit_eq_mod)
  have "take 56 (drop (64 + i * 56) ?bs) = phdr_bytes (phs ! i)" if "i < length phs" for i
  proof -
    have "drop (64 + i * 56) ?bs = drop (i * 56) (concat (map phdr_bytes phs)) @ rest"
      using len that by (simp add: sizeof_Ehdr_def)
    moreover have "56 \<le> length (drop (i * 56) (concat (map phdr_bytes phs)))" using len that by simp
    ultimately show ?thesis
      using concat_const_at [of phs phdr_bytes 56 i] that by (simp add: sizeof_Phdr_def)
  qed
  then show ?thesis
    unfolding phdr_table_def ehdr_fields n by (intro nth_equalityI) simp_all
qed


text \<open>The segments are found again at the offsets the headers give.\<close>

lemma load_segments_read:
  assumes "o1 + fsz + length (concat (map seg_data segs)) < 2 ^ 64" and "length pre = o1 + fsz"
  shows "map (\<lambda>p. \<lparr>start_address = p_vaddr p, seg_data = seg_bytes (pre @ concat (map seg_data segs)) p\<rparr>) (load_phdrs o1 fsz segs) = segs"
  using assms
proof (induction segs arbitrary: o1 fsz pre)
  case (Cons s segs)
  let ?n = "length (seg_data s)"
  have u: "unat (of_nat (o1 + fsz) :: u64) = o1 + fsz" "unat (of_nat ?n :: u64) = ?n"
    using Cons.prems(1) by (simp_all add: unat_of_nat take_bit_eq_mod del: of_nat_add)
  have "map (\<lambda>p. \<lparr>start_address = p_vaddr p, seg_data = seg_bytes ((pre @ seg_data s) @ concat (map seg_data segs)) p\<rparr>)
      (load_phdrs (o1 + fsz) ?n segs) = segs"
    using Cons.prems by (intro Cons.IH) simp_all
  then show ?case
    using u Cons.prems(2) by (simp add: seg_bytes_def del: of_nat_add)
qed simp

definition note_segment :: "bytes \<Rightarrow> bytes \<Rightarrow> bytes \<Rightarrow> bytes" where
  "note_segment prpsinfo ps fp = concat (write_note (ascii ''CORE'') NT_PRPSINFO prpsinfo @
      write_note (ascii ''CORE'') NT_PRSTATUS ps @ write_note (ascii ''CORE'') NT_FPREGSET fp)"

definition dumped_notes :: "bytes \<Rightarrow> bytes \<Rightarrow> bytes \<Rightarrow> elf_note list" where
  "dumped_notes prpsinfo ps fp =
     [\<lparr>n_name = ascii ''CORE'', n_type = NT_PRPSINFO, n_desc = prpsinfo\<rparr>,
      \<lparr>n_name = ascii ''CORE'', n_type = NT_PRSTATUS, n_desc = ps\<rparr>,
      \<lparr>n_name = ascii ''CORE'', n_type = NT_FPREGSET, n_desc = fp\<rparr>]"

lemma note_segment_length: "length (note_segment prpsinfo ps fp) = note_filesz (length prpsinfo) (length ps) (length fp)"
  unfolding note_segment_def concat_append length_append note_bytes_length by (simp add: note_filesz_def)

lemma note_segment_read:
  assumes "4 dvd length prpsinfo" "4 dvd length ps" "4 dvd length fp" and "length (note_segment prpsinfo ps fp) < 2 ^ 32"
  shows "read_notes (note_segment prpsinfo ps fp) = Some (dumped_notes prpsinfo ps fp)"
proof -
  have l: "length prpsinfo < 2 ^ 32" "length ps < 2 ^ 32" "length fp < 2 ^ 32"
    using assms(4) by (simp_all add: note_segment_length note_filesz_def)
  have "read_notes (concat (write_note (ascii ''CORE'') NT_FPREGSET fp)) =
      Some [\<lparr>n_name = ascii ''CORE'', n_type = NT_FPREGSET, n_desc = fp\<rparr>]"
    using read_one_note [OF assms(3) l(3), of NT_FPREGSET "[]"] by (simp add: read_notes.simps [of "[]"])
  then show ?thesis
    using read_one_note [OF assms(1) l(1)] read_one_note [OF assms(2) l(2)]
    by (simp only: note_segment_def concat_append append_assoc dumped_notes_def option.map)
qed

text \<open>A file made of header, program headers, notes, filling and data, as the reader sees it.\<close>

lemma read_core_written:
  assumes "length segs + 1 < 2 ^ 16" and "read_notes nts = Some ns"
  defines "at \<equiv> 64 + 56 * (length segs + 1)"
  assumes "at + length nts + al + length (concat (map seg_data segs)) < 2 ^ 64"
  assumes bs: "bs = ehdr_bytes (of_nat (length segs + 1)) @
      concat (map phdr_bytes (note_phdr at (length nts) # load_phdrs (at + al) (length nts) segs)) @
      nts @ replicate al 0 @ concat (map seg_data segs)"
  shows "read_core bs = Some \<lparr>cv_notes = ns, cv_segments = segs\<rparr>"
    and "phdr_table bs = note_phdr at (length nts) # load_phdrs (at + al) (length nts) segs"
proof -
  let ?phs = "note_phdr at (length nts) # load_phdrs (at + al) (length nts) segs"
  define pre where "pre = ehdr_bytes (of_nat (length segs + 1)) @ concat (map phdr_bytes ?phs)"
  have bs_def: "bs = pre @ nts @ replicate al 0 @ concat (map seg_data segs)" using bs by (simp add: pre_def)
  have "length (concat (map phdr_bytes ?phs)) = 56 * (length segs + 1)"
    by (subst concat_length_const [where n = 56]) (simp_all add: sizeof_Phdr_def)
  then have pre: "length pre = at" by (simp add: pre_def at_def sizeof_Ehdr_def)
  have "length ?phs = length segs + 1" by simp
  then show tab: "phdr_table bs = ?phs"
    using phdr_table_written [of ?phs] assms(1) by (simp only: bs_def pre_def append_assoc)
  have hd: "\<not> length bs < 64" "take 4 bs = [0x7f, 0x45, 0x4c, 0x46]"
    using pre by (simp_all add: bs_def at_def) (simp only: pre_def append_assoc ehdr_fields)
  have u: "unat (of_nat at :: u64) = at" "unat (of_nat (length nts) :: u64) = length nts"
    using assms(4) by (simp_all add: unat_of_nat take_bit_eq_mod)
  have nb: "seg_bytes bs (note_phdr at (length nts)) = nts"
    using u pre by (simp add: seg_bytes_def note_phdr_def bs_def)
  have "length (pre @ nts @ replicate al 0) = at + al + length nts" using pre by simp
  then have segs: "map (\<lambda>p. \<lparr>start_address = p_vaddr p, seg_data = seg_bytes bs p\<rparr>) (load_phdrs (at + al) (length nts) segs) = segs"
    using load_segments_read [of "at + al" "length nts" segs "pre @ nts @ replicate al 0"] assms(4)
    by (simp add: bs_def)
  have n: "p_type (note_phdr at (length nts)) = PT_NOTE" by (simp add: note_phdr_def)
  show "read_core bs = Some \<lparr>cv_notes = ns, cv_segments = segs\<rparr>"
    using hd tab nb segs n assms(2) by (simp add: read_core_def Let_def filter_load_phdrs) (simp add: PT_NOTE_def PT_LOAD_def)
qed

lemma dump_reads_back:
  assumes "length segs + 1 < 2 ^ 16" and "length (concat (dump_chunks prpsinfo prstatus pad segs r fr)) \<le> room"
    and "room < 2 ^ 32"
    and "4 dvd length prpsinfo" and "4 dvd length (prstatus (regs_bytes r))" and "4 dvd length (fpregs_bytes pad fr)"
  shows "\<exists>f. writeCoreDump prpsinfo prstatus pad (Some room) segs r fr = Some f \<and> f_closed f \<and>
    read_core (f_bytes f) =
      Some \<lparr>cv_notes = dumped_notes prpsinfo (prstatus (regs_bytes r)) (fpregs_bytes pad fr), cv_segments = segs\<rparr> \<and>
    (segs \<noteq> [] \<longrightarrow> unat (p_offset (phdr_table (f_bytes f) ! 1)) mod 4096 = 0)"
proof -
  let ?all = "concat (dump_chunks prpsinfo prstatus pad segs r fr)"
  let ?ps = "prstatus (regs_bytes r)" and ?fp = "fpregs_bytes pad fr"
  let ?nts = "note_segment prpsinfo ?ps ?fp" and ?at = "64 + 56 * (length segs + 1)"
  let ?al = "note_align (?at + length ?nts)"
  have "unat (phnum segs) = length segs + 1"
    using assms(1) by (simp add: phnum_def unat_of_nat take_bit_eq_mod del: of_nat_add of_nat_Suc)
  then have at: "note_offset segs = ?at" by (simp add: note_offset_def sizeof_Ehdr_def sizeof_Phdr_def)
  have all: "?all = ehdr_bytes (of_nat (length segs + 1)) @
      concat (map phdr_bytes (note_phdr ?at (length ?nts) # load_phdrs (?at + ?al) (length ?nts) segs)) @
      ?nts @ replicate ?al 0 @ concat (map seg_data segs)"
    unfolding note_segment_length at [symmetric] unfolding note_segment_def
    by (simp add: dump_chunks_def Let_def phnum_def)
  have len: "length ?nts < 2 ^ 32" "?at + length ?nts + ?al + length (concat (map seg_data segs)) < 2 ^ 64"
  proof -
    have "length ?all = ?at + length ?nts + ?al + length (concat (map seg_data segs))"
      unfolding all by (simp add: sizeof_Ehdr_def sizeof_Phdr_def concat_length_const [where n = sizeof_Phdr] del: length_concat)
    moreover have "(2 :: nat) ^ 32 < 2 ^ 64" by simp
    ultimately show "length ?nts < 2 ^ 32" "?at + length ?nts + ?al + length (concat (map seg_data segs)) < 2 ^ 64"
      using assms(2,3) by linarith+
  qed
  note rc = read_core_written [OF assms(1) note_segment_read [OF assms(4-6) len(1)] len(2) all]
  have "unat (p_offset (phdr_table ?all ! 1)) mod 4096 = 0" if "segs \<noteq> []"
  proof -
    have "p_offset (phdr_table ?all ! 1) = of_nat (?at + length ?nts + ?al)"
      unfolding rc(2) using that by (cases segs) (simp_all add: ac_simps)
    moreover have "unat (of_nat (?at + length ?nts + ?al) :: u64) = ?at + length ?nts + ?al"
      using len(2) by (simp add: unat_of_nat take_bit_eq_mod del: of_nat_add)
    moreover have "(?at + length ?nts + ?al) mod 4096 = 0"
      using note_align_page [of "?at + length ?nts"] by (simp add: PAGESIZE_def)
    ultimately show ?thesis by simp
  qed
  then show ?thesis
    using assms(2) rc(1) by (simp add: writeCoreDump_def fwrite_seq_bytes)
qed

section \<open>Properties\<close>

text \<open>
  C12: a core dump reads back as what was dumped. If the medium has room for the file (and the register images have
  sizes divisible by four, as the structures of the target have), the finished file is accepted by an ELF
  reader that only follows the headers, and it finds exactly the three notes with the process information, the
  status image with the saved registers, and the floating point registers, and exactly the given segments with
  their addresses and contents, the first of them on a page boundary of the file.
\<close>

theorem core_dump_roundtrip:
  assumes "length segs + 1 < 2 ^ 16" and "length (concat (dump_chunks prpsinfo prstatus pad segs r fr)) \<le> room"
    and "room < 2 ^ 32"
    and "4 dvd length prpsinfo" and "4 dvd length (prstatus (regs_bytes r))" and "4 dvd length (fpregs_bytes pad fr)"
  shows "\<exists>f. writeCoreDump prpsinfo prstatus pad (Some room) segs r fr = Some f \<and> f_closed f \<and>
    read_core (f_bytes f) =
      Some \<lparr>cv_notes = dumped_notes prpsinfo (prstatus (regs_bytes r)) (fpregs_bytes pad fr), cv_segments = segs\<rparr> \<and>
    (segs \<noteq> [] \<longrightarrow> unat (p_offset (phdr_table (f_bytes f) ! 1)) mod 4096 = 0)"
  using assms by (rule dump_reads_back)

theorem core_dump_roundtrip_witness:
  "\<exists>f. writeCoreDump (replicate 136 0) (\<lambda>rs. replicate 112 0 @ rs @ replicate 8 0) (replicate 8 0) (Some 1000000)
       [\<lparr>start_address = 0x800100000, seg_data = [1, 2, 3]\<rparr>] zero_regs zero_fpregs = Some f \<and>
     map_option cv_segments (read_core (f_bytes f)) = Some [\<lparr>start_address = 0x800100000, seg_data = [1, 2, 3]\<rparr>]"
proof -
  let ?segs = "[\<lparr>start_address = 0x800100000, seg_data = [1, 2, 3]\<rparr>] :: MemorySegment list"
  let ?st = "\<lambda>rs. replicate 112 0 @ rs @ replicate 8 0 :: bytes"
  have len: "length (regs_bytes zero_regs) = 272" "length (fpregs_bytes (replicate 8 0) zero_fpregs) = 528"
    by (simp_all add: zero_image_lengths)
  then have "4 dvd length (?st (regs_bytes zero_regs))" "4 dvd length (fpregs_bytes (replicate 8 0) zero_fpregs)"
      "4 dvd length (replicate 136 0 :: bytes)"
    by simp_all
  from core_dump_roundtrip [OF _ demo_dump_fits _ this(3,1,2)] show ?thesis by auto
qed

end
