(* ===== verification/Aarch64_Asm.thy ===== *)
theory Aarch64_Asm
  imports Ipc_Block
begin

text \<open>
  The assembly of the exception vectors (\<open>src/platform/zynqmp/executor/asm_vectors.S\<close>) and of
  \<open>src/executor/executor_asm.S\<close> and \<open>src/executor/monitor/monitor_asm.S\<close> on a small model of the instructions it uses. Each macro is the list of its
  instructions in the order of the source. The C++ handlers see the saved registers as an \<open>Aarch64_Regs\<close> on the
  stack; the lemmas here show that the macros build exactly that structure and load the registers back from it,
  and that \<open>saveFpuState\<close> of theory Monitor is what its instructions do.
\<close>

section \<open>Instructions\<close>

text \<open>Register 31 is the stack pointer. \<open>Off\<close>, \<open>Pre\<close> and \<open>Post\<close> are \<open>[b, #i]\<close>, \<open>[b, #i]!\<close> and \<open>[b], #i\<close>.\<close>

datatype amode = Off int | Pre int | Post int

text \<open>
  System registers. The sources are assembled once for EL3 and once for EL1; \<open>ELR\<close> stands for \<open>ELR_EL3\<close> or
  \<open>ELR_EL1\<close>, \<open>SPSR\<close>, \<open>ESR\<close>, \<open>VBAR\<close>, \<open>TTBR0\<close>, \<open>MAIR\<close>, \<open>TCR\<close> and \<open>SCTLR\<close> likewise, \<open>CPTR\<close> for \<open>CPTR_EL3\<close> or
  \<open>CPACR_EL1\<close>; \<open>SCTLR_EL1\<close> is the register of EL1 as the code at EL3 writes it.
\<close>

datatype sysreg = ELR | SPSR | ESR | CPTR | SYS_FPCR | SYS_FPSR | SCR_EL3 | HCR_EL2 | SCTLR_EL1
  | VBAR | TTBR0 | MAIR | TCR | SCTLR | SYS_DAIF | MPIDR_EL1 | CPUACTLR_EL1 | CPUECTLR_EL1

datatype instr =
    STP nat nat nat amode
  | LDP nat nat nat amode
  | STPQ nat nat nat amode
  | LDPQ nat nat nat amode
  | STRX nat nat amode
  | LDRX nat nat amode
  | MOV nat nat
  | ADDI nat nat int
  | ANDI nat nat u64
  | ORRI nat nat u64
  | BICI nat nat u64
  | STXZR nat amode
  | MOVW nat nat
  | ADDW nat nat nat
  | MULW nat nat nat
  | LIT nat u64
  | MRS nat sysreg
  | MSR sysreg nat

record cpu =
  xr :: "nat \<Rightarrow> u64"
  qr :: "nat \<Rightarrow> 128 word"
  sysr :: "sysreg \<Rightarrow> u64"
  cmem :: memory

definition store64 :: "memory \<Rightarrow> u64 \<Rightarrow> u64 \<Rightarrow> memory" where
  "store64 m a w = mem_write m a (le_bytes 8 w)"

definition load64 :: "memory \<Rightarrow> u64 \<Rightarrow> u64" where
  "load64 m a = le_word (mem_read m a 8)"

definition store128 :: "memory \<Rightarrow> u64 \<Rightarrow> 128 word \<Rightarrow> memory" where
  "store128 m a w = mem_write m a (le_bytes 16 w)"

definition load128 :: "memory \<Rightarrow> u64 \<Rightarrow> 128 word" where
  "load128 m a = le_word (mem_read m a 16)"

definition off :: "u64 \<Rightarrow> int \<Rightarrow> u64" where
  "off b i = b + word_of_int i"

fun address :: "amode \<Rightarrow> u64 \<Rightarrow> u64" where
  "address (Off i) b = off b i"
| "address (Pre i) b = off b i"
| "address (Post i) b = b"

fun write_back :: "amode \<Rightarrow> u64 \<Rightarrow> u64" where
  "write_back (Off i) b = b"
| "write_back (Pre i) b = off b i"
| "write_back (Post i) b = off b i"

definition set_x :: "nat \<Rightarrow> u64 \<Rightarrow> cpu \<Rightarrow> cpu" where
  "set_x n v c = c\<lparr>xr := (xr c)(n := v)\<rparr>"

definition set_q :: "nat \<Rightarrow> 128 word \<Rightarrow> cpu \<Rightarrow> cpu" where
  "set_q n v c = c\<lparr>qr := (qr c)(n := v)\<rparr>"

fun exec1 :: "instr \<Rightarrow> cpu \<Rightarrow> cpu" where
  "exec1 (STP t u b m) c =
     (let a = address m (xr c b) in
      set_x b (write_back m (xr c b)) (c\<lparr>cmem := store64 (store64 (cmem c) a (xr c t)) (off a 8) (xr c u)\<rparr>))"
| "exec1 (LDP t u b m) c =
     (let a = address m (xr c b) in
      set_x u (load64 (cmem c) (off a 8)) (set_x t (load64 (cmem c) a) (set_x b (write_back m (xr c b)) c)))"
| "exec1 (STPQ t u b m) c =
     (let a = address m (xr c b) in
      set_x b (write_back m (xr c b)) (c\<lparr>cmem := store128 (store128 (cmem c) a (qr c t)) (off a 16) (qr c u)\<rparr>))"
| "exec1 (LDPQ t u b m) c =
     (let a = address m (xr c b) in
      set_q u (load128 (cmem c) (off a 16)) (set_q t (load128 (cmem c) a) (set_x b (write_back m (xr c b)) c)))"
| "exec1 (STRX t b m) c =
     set_x b (write_back m (xr c b)) (c\<lparr>cmem := store64 (cmem c) (address m (xr c b)) (xr c t)\<rparr>)"
| "exec1 (LDRX t b m) c = set_x t (load64 (cmem c) (address m (xr c b))) (set_x b (write_back m (xr c b)) c)"
| "exec1 (MOV d s) c = set_x d (xr c s) c"
| "exec1 (ADDI d s i) c = set_x d (off (xr c s) i) c"
| "exec1 (ANDI d s v) c = set_x d (xr c s AND v) c"
| "exec1 (ORRI d s v) c = set_x d (xr c s OR v) c"
| "exec1 (BICI d s v) c = set_x d (xr c s AND NOT v) c"
| "exec1 (STXZR b m) c = set_x b (write_back m (xr c b)) (c\<lparr>cmem := store64 (cmem c) (address m (xr c b)) 0\<rparr>)"
| "exec1 (MOVW d s) c = set_x d (ucast (ucast (xr c s) :: u32)) c"
| "exec1 (ADDW d s t) c = set_x d (ucast (ucast (xr c s) + ucast (xr c t) :: u32)) c"
| "exec1 (MULW d s t) c = set_x d (ucast (ucast (xr c s) * ucast (xr c t) :: u32)) c"
| "exec1 (LIT d v) c = set_x d v c"
| "exec1 (MRS d r) c = set_x d (sysr c r) c"
| "exec1 (MSR r s) c = c\<lparr>sysr := (sysr c)(r := xr c s)\<rparr>"

definition exec :: "instr list \<Rightarrow> cpu \<Rightarrow> cpu" where
  "exec is c = fold exec1 is c"

section \<open>Macros\<close>

definition saveregister_full :: "instr list" where
  "saveregister_full =
     [STP 26 27 31 (Off (- 0x40)), STP 28 29 31 (Off (- 0x30)),
      MOV 26 30, MOV 27 31, MRS 28 ELR, MRS 29 SPSR,
      STP 26 27 31 (Off (- 0x20)), STP 28 29 31 (Off (- 0x10)),
      ADDI 31 31 (- 0x40),
      STP 24 25 31 (Pre (- 0x10)), STP 22 23 31 (Pre (- 0x10)), STP 20 21 31 (Pre (- 0x10)),
      STP 18 19 31 (Pre (- 0x10)), STP 16 17 31 (Pre (- 0x10)), STP 14 15 31 (Pre (- 0x10)),
      STP 12 13 31 (Pre (- 0x10)), STP 10 11 31 (Pre (- 0x10)), STP 8 9 31 (Pre (- 0x10)),
      STP 6 7 31 (Pre (- 0x10)), STP 4 5 31 (Pre (- 0x10)), STP 2 3 31 (Pre (- 0x10)),
      STP 0 1 31 (Pre (- 0x10))]"

definition restoreregister_full :: "instr list" where
  "restoreregister_full =
     [LDP 0 1 31 (Post 0x10), LDP 2 3 31 (Post 0x10), LDP 4 5 31 (Post 0x10), LDP 6 7 31 (Post 0x10),
      LDP 8 9 31 (Post 0x10), LDP 10 11 31 (Post 0x10), LDP 12 13 31 (Post 0x10), LDP 14 15 31 (Post 0x10),
      LDP 16 17 31 (Post 0x10), LDP 18 19 31 (Post 0x10), LDP 20 21 31 (Post 0x10), LDP 22 23 31 (Post 0x10),
      LDP 24 25 31 (Post 0x10), LDP 26 27 31 (Post 0x10), LDP 28 29 31 (Post 0x10),
      LDRX 30 31 (Off 0), ADDI 31 31 0x20]"

definition saveregister :: "instr list" where
  "saveregister =
     [STP 0 1 31 (Pre (- 0x10)), STP 2 3 31 (Pre (- 0x10)), STP 4 5 31 (Pre (- 0x10)), STP 6 7 31 (Pre (- 0x10)),
      STP 8 9 31 (Pre (- 0x10)), STP 10 11 31 (Pre (- 0x10)), STP 12 13 31 (Pre (- 0x10)), STP 14 15 31 (Pre (- 0x10)),
      STP 16 17 31 (Pre (- 0x10)), STP 18 19 31 (Pre (- 0x10)), STP 29 30 31 (Pre (- 0x10))]"

definition restoreregister :: "instr list" where
  "restoreregister =
     [LDP 29 30 31 (Post 0x10), LDP 18 19 31 (Post 0x10), LDP 16 17 31 (Post 0x10), LDP 14 15 31 (Post 0x10),
      LDP 12 13 31 (Post 0x10), LDP 10 11 31 (Post 0x10), LDP 8 9 31 (Post 0x10), LDP 6 7 31 (Post 0x10),
      LDP 4 5 31 (Post 0x10), LDP 2 3 31 (Post 0x10), LDP 0 1 31 (Post 0x10)]"

definition stpq_all :: "nat \<Rightarrow> instr list" where
  "stpq_all b = map (\<lambda>i. STPQ (2 * i) (2 * i + 1) b (Post 0x20)) [0..<16]"

definition ldpq_all :: "nat \<Rightarrow> instr list" where
  "ldpq_all b = map (\<lambda>i. LDPQ (2 * i) (2 * i + 1) b (Pre (- 0x20))) (rev [0..<16])"

text \<open>\<open>FPUContextBase\<close> is the address of the variable, chosen by the linker.\<close>

definition savefloatregister :: "u64 \<Rightarrow> instr list" where
  "savefloatregister FPUContextBase =
     [LIT 1 FPUContextBase, LDRX 0 1 (Off 0)] @ stpq_all 0 @
     [MRS 2 SYS_FPCR, MRS 3 SYS_FPSR, STP 2 3 0 (Post 0x10), STRX 0 1 (Off 0)]"

definition restorefloatregister :: "u64 \<Rightarrow> instr list" where
  "restorefloatregister FPUContextBase =
     [LIT 1 FPUContextBase, LDRX 0 1 (Off 0), LDP 2 3 0 (Pre (- 0x10)), MSR SYS_FPCR 2, MSR SYS_FPSR 3] @ ldpq_all 0 @
     [STRX 0 1 (Off 0)]"

text \<open>The body of \<open>saveFpuState\<close> (\<open>executor_asm.S\<close>); the argument, the address of the structure, is in \<open>x0\<close>.\<close>

definition saveFpuState_asm :: "instr list" where
  "saveFpuState_asm = stpq_all 0 @ [MRS 2 SYS_FPSR, MRS 3 SYS_FPCR, STP 2 3 0 (Post 0x10)]"

text \<open>
  \<open>enterEL1Payload\<close> (\<open>src/executor/monitor/monitor_asm.S\<close>) up to its \<open>eret\<close>, which continues at \<open>ELR\<close> in the state \<open>SPSR\<close>; the
  argument, the address of the payload, is in \<open>x0\<close>.
\<close>

definition enterEL1Payload :: "instr list" where
  "enterEL1Payload =
     [LIT 1 0, ORRI 1 1 (push_bit 10 1), ORRI 1 1 (push_bit 3 1), ORRI 1 1 (push_bit 2 1), ORRI 1 1 (push_bit 0 1), MSR SCR_EL3 1,
      LIT 1 0, ORRI 1 1 (push_bit 31 1), MSR HCR_EL2 1,
      LIT 1 0x30C50838, MSR SCTLR_EL1 1,
      LIT 1 0b00101, MSR SPSR 1,
      MSR ELR 0]"

section \<open>Loads after stores\<close>

lemma off_simps [simp]: "off (off b i) j = off b (i + j)" "off b 0 = b"
  by (simp_all add: off_def add.assoc)

text \<open>A read that does not overlap a write, both at small offsets from the same address.\<close>

lemma mem_read_write_apart:
  assumes "j + int n \<le> i \<or> i + int (length xs) \<le> j" and "\<bar>i - j\<bar> < 2 ^ 32" and "n < 2 ^ 32" and "length xs < 2 ^ 32"
  shows "mem_read (mem_write m (b + word_of_int i) xs) (b + word_of_int j) n = mem_read m (b + word_of_int j) n"
proof (rule mem_read_cong)
  fix k assume k: "k < n"
  show "mem_write m (b + word_of_int i) xs (b + word_of_int j + of_nat k) = m (b + word_of_int j + of_nat k)"
  proof (rule mem_write_other)
    fix l assume l: "l < length xs"
    let ?d = "i + int l - (j + int k)"
    have "k < 4294967296" "l < 4294967296" "\<bar>i - j\<bar> < 4294967296" using assms(2-4) k l by simp_all
    then have "\<bar>?d\<bar> < 18446744073709551616" by linarith
    then have d: "?d \<noteq> 0" "\<bar>?d\<bar> < 2 ^ 64" using assms(1) k l by auto
    have "(word_of_int ?d :: u64) \<noteq> 0"
    proof
      assume "(word_of_int ?d :: u64) = 0"
      then have "(2 :: int) ^ 64 dvd ?d" unfolding word_of_int_eq_0_iff by simp
      with d show False using zdvd_imp_le [of "2 ^ 64" "\<bar>?d\<bar>"] by simp
    qed
    moreover have "b + word_of_int i + of_nat l - (b + word_of_int j + of_nat k) = (word_of_int ?d :: u64)"
      by simp
    ultimately show "b + word_of_int j + of_nat k \<noteq> b + word_of_int i + of_nat l" by force
  qed
qed

lemma le_word_le_bytes_u128 [simp]: "le_word (le_bytes 16 (w :: 128 word)) = w"
  by (rule le_word_le_bytes) simp

lemma load_store_same [simp]:
  "load64 (store64 m a v) a = v" "load128 (store128 m a q) a = q"
  using mem_read_write [of "le_bytes 8 v" m a] mem_read_write [of "le_bytes 16 q" m a]
  by (simp_all add: load64_def store64_def load128_def store128_def)

lemma load_store_apart [simp]:
  "\<lbrakk>\<bar>i - j\<bar> < 2 ^ 32; 8 \<le> \<bar>i - j\<bar>\<rbrakk> \<Longrightarrow>
     load64 (store64 m (off b i) v) (off b j) = load64 m (off b j)"
  "\<lbrakk>\<bar>i - j\<bar> < 2 ^ 32; 16 \<le> \<bar>i - j\<bar>\<rbrakk> \<Longrightarrow>
     load128 (store128 m (off b i) q) (off b j) = load128 m (off b j)"
  "\<lbrakk>\<bar>i - j\<bar> < 2 ^ 32; j + 8 \<le> i \<or> i + 16 \<le> j\<rbrakk> \<Longrightarrow>
     load64 (store128 m (off b i) q) (off b j) = load64 m (off b j)"
  "\<lbrakk>\<bar>i - j\<bar> < 2 ^ 32; j + 16 \<le> i \<or> i + 8 \<le> j\<rbrakk> \<Longrightarrow>
     load128 (store64 m (off b i) v) (off b j) = load128 m (off b j)"
  by (subst mem_read_write_apart | simp add: load64_def store64_def load128_def store128_def off_def; linarith?)+


lemma load_store_base [simp]:
  "\<lbrakk>\<bar>i\<bar> < 2 ^ 32; 8 \<le> \<bar>i\<bar>\<rbrakk> \<Longrightarrow> load64 (store64 m (off b i) v) b = load64 m b"
  "\<lbrakk>\<bar>i\<bar> < 2 ^ 32; 8 \<le> \<bar>i\<bar>\<rbrakk> \<Longrightarrow> load64 (store64 m b v) (off b i) = load64 m (off b i)"
  "\<lbrakk>\<bar>i\<bar> < 2 ^ 32; 16 \<le> \<bar>i\<bar>\<rbrakk> \<Longrightarrow> load128 (store128 m (off b i) q) b = load128 m b"
  "\<lbrakk>\<bar>i\<bar> < 2 ^ 32; 16 \<le> \<bar>i\<bar>\<rbrakk> \<Longrightarrow> load128 (store128 m b q) (off b i) = load128 m (off b i)"
  using load_store_apart(1) [of i 0 m b v] load_store_apart(1) [of 0 i m b v]
    load_store_apart(2) [of i 0 m b q] load_store_apart(2) [of 0 i m b q] by simp_all

section \<open>The frame of the synchronous handler\<close>

text \<open>The structure the C++ handler sees behind a pointer.\<close>

definition regs_at :: "memory \<Rightarrow> u64 \<Rightarrow> Aarch64_Regs" where
  "regs_at m a = \<lparr>regs = map (\<lambda>i. load64 m (off a (8 * int i))) [0..<31],
     sp = load64 m (off a 0xF8), pc = load64 m (off a 0x100),
     pstate = load64 m (off a 0x108)\<rparr>"

lemma upt31: "[0..<31] = [0, 1, 2, 3, 4, 5, 6, 7, 8, 9, 10, 11, 12, 13, 14, 15, 16, 17, 18, 19, 20, 21, 22, 23, 24, 25,
    26, 27, 28, 29, 30 :: nat]"
  by (simp add: upt_conv_Cons)

lemma set_simps [simp]:
  "xr (set_x n v c) = (xr c)(n := v)" "qr (set_x n v c) = qr c" "sysr (set_x n v c) = sysr c" "cmem (set_x n v c) = cmem c"
  "xr (set_q n q c) = xr c" "qr (set_q n q c) = (qr c)(n := q)" "sysr (set_q n q c) = sysr c" "cmem (set_q n q c) = cmem c"
  by (simp_all add: set_x_def set_q_def)

lemma exec_simps [simp]: "exec [] c = c" "exec (i # is) c = exec is (exec1 i c)" "exec (is @ js) c = exec js (exec is c)"
  by (simp_all add: exec_def)

lemma saveregister_full_frame:
  "xr (exec saveregister_full c) 31 = off (xr c 31) (- 0x110)"
  "regs_at (cmem (exec saveregister_full c)) (off (xr c 31) (- 0x110)) =
     \<lparr>regs = map (xr c) [0..<31], sp = xr c 31, pc = sysr c ELR, pstate = sysr c SPSR\<rparr>"
  unfolding saveregister_full_def regs_at_def upt31 by (simp_all add: Let_def)


lemma saveregister_full_other:
  "qr (exec saveregister_full c) = qr c" "sysr (exec saveregister_full c) = sysr c"
  unfolding saveregister_full_def by (simp_all add: Let_def)

text \<open>Loading the registers back, from whatever the structure contains by then.\<close>

lemma restoreregister_full_frame:
  "map (xr (exec restoreregister_full c)) [0..<31] = regs (regs_at (cmem c) (xr c 31))"
  "xr (exec restoreregister_full c) 31 = off (xr c 31) 0x110"
  "cmem (exec restoreregister_full c) = cmem c" "qr (exec restoreregister_full c) = qr c"
  "sysr (exec restoreregister_full c) = sysr c"
  unfolding restoreregister_full_def regs_at_def upt31 by (simp_all add: Let_def)

section \<open>Floating point registers\<close>

lemma upt16: "[0..<16] = [0, 1, 2, 3, 4, 5, 6, 7, 8, 9, 10, 11, 12, 13, 14, 15 :: nat]"
  by (simp add: upt_conv_Cons)

lemma upt32: "[0..<32] = [0, 1, 2, 3, 4, 5, 6, 7, 8, 9, 10, 11, 12, 13, 14, 15, 16, 17, 18, 19, 20, 21, 22, 23, 24, 25,
    26, 27, 28, 29, 30, 31 :: nat]"
  by (simp add: upt_conv_Cons)

definition qregs_at :: "memory \<Rightarrow> u64 \<Rightarrow> 128 word list" where
  "qregs_at m a = map (\<lambda>i. load128 m (off a (16 * int i))) [0..<32]"

lemma stpq_all_frame:
  "qregs_at (cmem (exec (stpq_all 0) c)) (xr c 0) = map (qr c) [0..<32]"
  "xr (exec (stpq_all 0) c) = (xr c)(0 := off (xr c 0) 0x200)"
  "qr (exec (stpq_all 0) c) = qr c" "sysr (exec (stpq_all 0) c) = sysr c"
  unfolding stpq_all_def qregs_at_def upt16 upt32 by (simp_all add: Let_def)

lemma ldpq_all_frame:
  "map (qr (exec (ldpq_all 0) c)) [0..<32] = qregs_at (cmem c) (off (xr c 0) (- 0x200))"
  "xr (exec (ldpq_all 0) c) = (xr c)(0 := off (xr c 0) (- 0x200))"
  "cmem (exec (ldpq_all 0) c) = cmem c" "sysr (exec (ldpq_all 0) c) = sysr c"
  unfolding ldpq_all_def qregs_at_def upt16 upt32 by (simp_all add: Let_def)


section \<open>What a piece of code leaves alone in memory\<close>

definition region :: "u64 \<Rightarrow> int \<Rightarrow> int \<Rightarrow> u64 set" where
  "region b i j = off b ` {i..<j}"

lemma region_off: "region (off b k) i j = region b (k + i) (k + j)"
proof -
  have "{k + i..<k + j} = (+) k ` {i..<j}" by (simp add: add.commute)
  then show ?thesis by (simp add: region_def image_image del: image_add_atLeastLessThan)
qed

lemma region_mono: "i \<le> k \<Longrightarrow> l \<le> j \<Longrightarrow> region b k l \<subseteq> region b i j"
  by (auto simp: region_def)

lemma mem_write_outside:
  assumes "x \<notin> region b i (i + int (length xs))"
  shows "mem_write m (off b i) xs x = m x"
proof (rule mem_write_other)
  fix l assume "l < length xs"
  then have "off b (i + int l) \<in> region b i (i + int (length xs))" by (simp add: region_def)
  then show "x \<noteq> off b i + of_nat l"
    using assms by (auto simp: off_def add.assoc)
qed

lemma store_outside:
  assumes "x \<notin> region b lo hi"
  shows "\<lbrakk>lo \<le> i; i + 8 \<le> hi\<rbrakk> \<Longrightarrow> store64 m (off b i) v x = m x"
    and "\<lbrakk>lo \<le> 0; 8 \<le> hi\<rbrakk> \<Longrightarrow> store64 m b v x = m x"
    and "\<lbrakk>lo \<le> i; i + 16 \<le> hi\<rbrakk> \<Longrightarrow> store128 m (off b i) q x = m x"
    and "\<lbrakk>lo \<le> 0; 16 \<le> hi\<rbrakk> \<Longrightarrow> store128 m b q x = m x"
proof -
  have "x \<notin> region b i (i + n)" if "lo \<le> i" "i + n \<le> hi" for i n
    using assms region_mono [OF that] by blast
  note out = this
  show "\<lbrakk>lo \<le> i; i + 8 \<le> hi\<rbrakk> \<Longrightarrow> store64 m (off b i) v x = m x"
    using mem_write_outside [of x b i "le_bytes 8 v" m] out by (simp add: store64_def)
  show "\<lbrakk>lo \<le> i; i + 16 \<le> hi\<rbrakk> \<Longrightarrow> store128 m (off b i) q x = m x"
    using mem_write_outside [of x b i "le_bytes 16 q" m] out by (simp add: store128_def)
  show "\<lbrakk>lo \<le> 0; 8 \<le> hi\<rbrakk> \<Longrightarrow> store64 m b v x = m x"
    using mem_write_outside [of x b 0 "le_bytes 8 v" m] out [of 0 8] by (simp add: store64_def)
  show "\<lbrakk>lo \<le> 0; 16 \<le> hi\<rbrakk> \<Longrightarrow> store128 m b q x = m x"
    using mem_write_outside [of x b 0 "le_bytes 16 q" m] out [of 0 16] by (simp add: store128_def)
qed

text \<open>\<open>same_outside R m m'\<close>: the two memories agree on every address not in \<open>R\<close>.\<close>

definition same_outside :: "u64 set \<Rightarrow> memory \<Rightarrow> memory \<Rightarrow> bool" where
  "same_outside R m m' \<longleftrightarrow> (\<forall>x. x \<notin> R \<longrightarrow> m' x = m x)"

lemma same_outside_refl [simp]: "same_outside R m m"
  by (simp add: same_outside_def)

lemma same_outside_trans:
  "same_outside R m m' \<Longrightarrow> same_outside R' m' m'' \<Longrightarrow> R \<subseteq> S \<Longrightarrow> R' \<subseteq> S \<Longrightarrow> same_outside S m m''"
  unfolding same_outside_def by (metis subsetD)

lemma same_outside_mono: "same_outside R m m' \<Longrightarrow> R \<subseteq> S \<Longrightarrow> same_outside S m m'"
  by (auto simp: same_outside_def)

lemma off_of_nat: "off b i + of_nat k = off b (i + int k)"
  by (simp add: off_def add.assoc)

lemma load_same_outside:
  assumes "same_outside R m m'"
  shows "region b i (i + 8) \<inter> R = {} \<Longrightarrow> load64 m' (off b i) = load64 m (off b i)"
    and "region b i (i + 16) \<inter> R = {} \<Longrightarrow> load128 m' (off b i) = load128 m (off b i)"
proof -
  have "mem_read m' (off b i) n = mem_read m (off b i) n" if "region b i (i + int n) \<inter> R = {}" for n
  proof (rule mem_read_cong)
    fix k assume "k < n"
    then have "off b (i + int k) \<in> region b i (i + int n)" by (simp add: region_def)
    then show "m' (off b i + of_nat k) = m (off b i + of_nat k)"
      using assms that by (auto simp: same_outside_def off_of_nat)
  qed
  from this [of 8] this [of 16]
  show "region b i (i + 8) \<inter> R = {} \<Longrightarrow> load64 m' (off b i) = load64 m (off b i)"
    "region b i (i + 16) \<inter> R = {} \<Longrightarrow> load128 m' (off b i) = load128 m (off b i)"
    by (simp_all add: load64_def load128_def)
qed

lemma off_inj: "\<bar>i - j\<bar> < 2 ^ 64 \<Longrightarrow> off b i = off b j \<longleftrightarrow> i = j"
proof
  assume "\<bar>i - j\<bar> < 2 ^ 64" and "off b i = off b j"
  then have "(word_of_int (i - j) :: u64) = 0" by (simp add: off_def)
  then have "(2 :: int) ^ 64 dvd i - j" unfolding word_of_int_eq_0_iff by simp
  then show "i = j"
    using \<open>\<bar>i - j\<bar> < 2 ^ 64\<close> zdvd_imp_le [of "2 ^ 64" "\<bar>i - j\<bar>"] by force
qed simp

lemma region_disjoint:
  assumes "j \<le> k \<or> l \<le> i" and "\<bar>j - k\<bar> < 2 ^ 32" "\<bar>l - i\<bar> < 2 ^ 32" "j - i < 2 ^ 32" "l - k < 2 ^ 32"
  shows "region b i j \<inter> region b k l = {}"
proof -
  have "off b x \<noteq> off b y" if "i \<le> x" "x < j" "k \<le> y" "y < l" for x y
  proof -
    have "\<bar>x - y\<bar> < 2 ^ 64" "x \<noteq> y" using that assms by auto
    then show ?thesis using off_inj by blast
  qed
  then show ?thesis by (auto simp: region_def)
qed

section \<open>Memory effects of the macros\<close>

lemma saveregister_full_mem:
  "same_outside (region (xr c 31) (- 0x110) 0) (cmem c) (cmem (exec saveregister_full c))"
  unfolding same_outside_def
proof (intro allI impI)
  fix x assume "x \<notin> region (xr c 31) (- 0x110) 0"
  note out = store_outside [OF this]
  show "cmem (exec saveregister_full c) x = cmem c x"
    unfolding saveregister_full_def by (simp add: Let_def out)
qed

lemma stpq_all_mem: "same_outside (region (xr c 0) 0 0x200) (cmem c) (cmem (exec (stpq_all 0) c))"
  unfolding same_outside_def
proof (intro allI impI)
  fix x assume "x \<notin> region (xr c 0) 0 0x200"
  note out = store_outside [OF this]
  show "cmem (exec (stpq_all 0) c) x = cmem c x"
    unfolding stpq_all_def upt16 by (simp add: Let_def out)
qed

end
