(* ===== verification/Mmu.thy ===== *)
theory Mmu
  imports Aarch64_Asm Memmap
begin

text \<open>
  The translation tables of \<open>src/platform/zynqmp/executor/translation_table.S\<close>, which both the monitor and every
  payload carry, and the table walk of the processor on them. The tables are generated by the assembler's
  \<open>.rept\<close> directive, with a symbol \<open>SECT\<close> that advances by the size of a section. The result is a flat map; the
  theory derives it from the entries and compares it with the table in the file's documentation.
\<close>

section \<open>The tables\<close>

definition reserved :: u64 where "reserved = 0"
definition Memory :: u64 where "Memory = 0x425 OR push_bit 8 2"
definition Device :: u64 where "Device = 0x409 OR push_bit 53 1 OR push_bit 54 1"

text \<open>\<open>.rept n\<close> of \<open>.8byte SECT + attr\<close> and \<open>.set SECT, SECT + step\<close>, and a sequence of them.\<close>

fun rept :: "nat \<Rightarrow> u64 \<Rightarrow> u64 \<Rightarrow> u64 \<Rightarrow> u64 list" where
  "rept 0 step attr SECT = []"
| "rept (Suc n) step attr SECT = (SECT + attr) # rept n step attr (SECT + step)"

fun rept_all :: "u64 \<Rightarrow> (nat \<times> u64) list \<Rightarrow> u64 \<Rightarrow> u64 list" where
  "rept_all step [] SECT = []"
| "rept_all step ((n, attr) # bs) SECT = rept n step attr SECT @ rept_all step bs (SECT + of_nat n * step)"

definition DDR_0_SIZE :: nat where "DDR_0_SIZE = 0x7FFFFFFF - 0x00000000 + 1"
definition DDR_1_SIZE :: nat where "DDR_1_SIZE = 0x87FFFFFFF - 0x800000000 + 1"

definition DDR_0_REG :: nat where
  "DDR_0_REG = (if DDR_0_SIZE > 0x80000000 then 0x400 else DDR_0_SIZE div 0x200000)"

definition DDR_1_REG :: nat where
  "DDR_1_REG = (if DDR_1_SIZE > 0x800000000 then 0x20 else DDR_1_SIZE div 0x40000000)"

text \<open>The addresses of the next level's tables, symbols of the linker, are arguments.\<close>

definition MMUTableL0 :: "u64 \<Rightarrow> u64 list" where
  "MMUTableL0 L1 = [L1 + 0x3, L1 + 0x1000 + 0x3]"

definition MMUTableL1_sections :: "(nat \<times> u64) list" where
  "MMUTableL1_sections =
     [(0xC, reserved), (0x10, Device), (DDR_1_REG, Memory), (0x20 - DDR_1_REG, reserved),
      (0x1C0, Device), (0x100, Device), (0x100, reserved)]"

definition MMUTableL1 :: "u64 \<Rightarrow> u64 list" where
  "MMUTableL1 L2 = (L2 + 0x3) # rept 3 0x1000 0x3 (L2 + 0x1000) @ rept_all 0x40000000 MMUTableL1_sections 0x100000000"

definition MMUTableL2_sections :: "(nat \<times> u64) list" where
  "MMUTableL2_sections =
     [(DDR_0_REG, Memory), (0x400 - DDR_0_REG, reserved), (0x200, Device), (0x100, Device), (0x80, Device),
      (0x40, reserved), (0x8, Device), (0x1, Device), (0x1F, reserved), (0x8, Device), (0xE, Device),
      (1, Device), (1, Memory)]"

definition MMUTableL2 :: "u64 list" where
  "MMUTableL2 = rept_all 0x200000 MMUTableL2_sections 0"

section \<open>The walk\<close>

text \<open>
  A stage 1 translation with 4 KB granule and 40-bit input addresses. The list holds the position of the
  index bits of this and the following levels. A descriptor is a table, or a block (a page on the last
  level) with access flag, or a fault.
\<close>

fun walk :: "memory \<Rightarrow> nat list \<Rightarrow> u64 \<Rightarrow> u64 \<Rightarrow> (u64 \<times> u64) option" where
  "walk m [] tbl va = None"
| "walk m (s # ss) tbl va =
     (let d = load64 m (tbl + 8 * (drop_bit s va AND 0x1FF)) in
      if d AND 3 = 3 \<and> ss \<noteq> [] then walk m ss (d AND 0xFFFFFFFFF000) va
      else if (d AND 3 = 3 \<and> ss = [] \<or> d AND 3 = 1 \<and> (s = 30 \<or> s = 21)) \<and> bit d 10
      then Some ((d AND mask 48 AND NOT (mask s)) OR (va AND mask s), d)
      else None)"

datatype mem_kind = Normal | StronglyOrdered | OtherKind u8

text \<open>The attribute byte that a descriptor selects in \<open>MAIR\<close>.\<close>

definition kind_of :: "u64 \<Rightarrow> u64 \<Rightarrow> mem_kind" where
  "kind_of mair d =
     (let b = ucast (drop_bit (8 * unat (drop_bit 2 d AND 7)) mair) :: u8 in
      if b = 0xFF then Normal else if b = 0 then StronglyOrdered else OtherKind b)"

text \<open>The translation of an address by a processor in state \<open>c\<close>; \<open>None\<close> is a fault.\<close>

definition translate :: "cpu \<Rightarrow> u64 \<Rightarrow> (u64 \<times> mem_kind) option" where
  "translate c va =
     (if \<not> bit (sysr c SCTLR) 0 then Some (va, StronglyOrdered)
      else if drop_bit (64 - unat (sysr c TCR AND 0x3F)) va \<noteq> 0 then None
      else map_option (\<lambda>(pa, d). (pa, kind_of (sysr c MAIR) d)) (walk (cmem c) [39, 30, 21, 12] (sysr c TTBR0) va))"

section \<open>The documented map\<close>

text \<open>The table in the documentation of the file; \<open>None\<close> is an unassigned range.\<close>

definition documented_map :: "(u64 \<times> u64 \<times> mem_kind option) list" where
  "documented_map =
     [(0x0000000000, 0x007FFFFFFF, Some Normal), (0x0080000000, 0x00BFFFFFFF, Some StronglyOrdered),
      (0x00C0000000, 0x00EFFFFFFF, Some StronglyOrdered), (0x00F0000000, 0x00F7FFFFFF, None),
      (0x00F8000000, 0x00F8FFFFFF, Some StronglyOrdered), (0x00F9000000, 0x00F91FFFFF, Some StronglyOrdered),
      (0x00F9200000, 0x00FCFFFFFF, None), (0x00FD000000, 0x00FFBFFFFF, Some StronglyOrdered),
      (0x00FFC00000, 0x00FFDFFFFF, Some StronglyOrdered), (0x00FFE00000, 0x00FFFFFFFF, Some Normal),
      (0x0100000000, 0x03FFFFFFFF, None), (0x0400000000, 0x07FFFFFFFF, Some StronglyOrdered),
      (0x0800000000, 0x0FFFFFFFFF, Some Normal), (0x1000000000, 0xBFFFFFFFFF, Some StronglyOrdered),
      (0xC000000000, 0xFFFFFFFFFF, None)]"

fun map_kind :: "(u64 \<times> u64 \<times> mem_kind option) list \<Rightarrow> u64 \<Rightarrow> mem_kind option" where
  "map_kind [] va = None"
| "map_kind ((lo, hi, k) # rs) va = (if lo \<le> va \<and> va \<le> hi then k else map_kind rs va)"

section \<open>Entries of the tables\<close>

text \<open>The attributes of the section with index \<open>i\<close>, when the sections start at index \<open>p\<close>.\<close>

fun section_attr :: "(nat \<times> u64) list \<Rightarrow> nat \<Rightarrow> nat \<Rightarrow> u64" where
  "section_attr [] p i = 0"
| "section_attr ((n, attr) # bs) p i = (if i < p + n then attr else section_attr bs (p + n) i)"

lemma length_rept [simp]: "length (rept n step attr SECT) = n"
  by (induction n step attr SECT rule: rept.induct) simp_all

lemma nth_rept: "i < n \<Longrightarrow> rept n step attr SECT ! i = SECT + of_nat i * step + attr"
  by (induction n step attr SECT arbitrary: i rule: rept.induct)
    (auto simp: nth_Cons algebra_simps split: nat.splits)

lemma length_rept_all [simp]: "length (rept_all step bs SECT) = sum_list (map fst bs)"
  by (induction step bs SECT rule: rept_all.induct) simp_all

lemma nth_rept_all:
  "i < sum_list (map fst bs) \<Longrightarrow> rept_all step bs SECT ! i = SECT + of_nat i * step + section_attr bs p (p + i)"
proof (induction step bs SECT arbitrary: i p rule: rept_all.induct)
  case (2 step n attr bs SECT)
  show ?case
  proof (cases "i < n")
    case False
    then obtain k where k: "i = n + k" using le_Suc_ex not_less by blast
    with 2(2) have "k < sum_list (map fst bs)" by simp
    from 2(1) [OF this, of "p + n"] k show ?thesis by (simp add: nth_append algebra_simps)
  qed (simp add: nth_append nth_rept)
qed simp

lemma DDR_sections [simp]: "DDR_0_REG = 0x400" "DDR_1_REG = 2"
  by (simp_all add: DDR_0_REG_def DDR_1_REG_def DDR_0_SIZE_def DDR_1_SIZE_def)

lemma table_lengths [simp]: "length (MMUTableL1 L2) = 1024" "length MMUTableL2 = 2048" "length (MMUTableL0 L1) = 2"
  by (simp_all add: MMUTableL1_def MMUTableL1_sections_def MMUTableL2_def MMUTableL2_sections_def MMUTableL0_def)

lemma L1_sections: "section_attr MMUTableL1_sections 4 i =
    (if i < 0x10 then reserved else if i < 0x20 then Device else if i < 0x22 then Memory else if i < 0x40 then reserved
     else if i < 0x300 then Device else reserved)"
  by (simp add: MMUTableL1_sections_def reserved_def)

lemma L2_sections: "section_attr MMUTableL2_sections 0 i =
    (if i < 0x400 then Memory else if i < 0x780 then Device else if i < 0x7C0 then reserved else if i < 0x7C9 then Device
     else if i < 0x7E8 then reserved else if i < 0x7FF then Device else if i < 0x800 then Memory else reserved)"
  by (simp add: MMUTableL2_sections_def reserved_def)

lemma L2_nth: "i < 2048 \<Longrightarrow> MMUTableL2 ! i = of_nat i * 0x200000 + section_attr MMUTableL2_sections 0 i"
proof -
  have "sum_list (map fst MMUTableL2_sections) = 2048" by (simp add: MMUTableL2_sections_def)
  then show "i < 2048 \<Longrightarrow> MMUTableL2 ! i = of_nat i * 0x200000 + section_attr MMUTableL2_sections 0 i"
    by (simp add: MMUTableL2_def nth_rept_all [where p = 0])
qed

lemma L1_nth:
  "i < 4 \<Longrightarrow> MMUTableL1 L2 ! i = L2 + of_nat i * 0x1000 + 3"
  "4 \<le> i \<Longrightarrow> i < 1024 \<Longrightarrow> MMUTableL1 L2 ! i = of_nat i * 0x40000000 + section_attr MMUTableL1_sections 4 i"
proof -
  assume "i < 4"
  then have "i = 0 \<or> (\<exists>k < 3. i = Suc k)" by (cases i) auto
  then show "MMUTableL1 L2 ! i = L2 + of_nat i * 0x1000 + 3"
    by (auto simp: MMUTableL1_def nth_append nth_rept algebra_simps)
next
  assume i: "4 \<le> i" "i < 1024"
  then obtain k where k: "i = k + 4" by (metis le_add_diff_inverse2)
  have "sum_list (map fst MMUTableL1_sections) = 1020" by (simp add: MMUTableL1_sections_def)
  then have "MMUTableL1 L2 ! i = 0x100000000 + of_nat k * 0x40000000 + section_attr MMUTableL1_sections 4 (4 + k)"
    using i k by (simp add: MMUTableL1_def nth_append nth_rept_all [where p = 4])
  then show "MMUTableL1 L2 ! i = of_nat i * 0x40000000 + section_attr MMUTableL1_sections 4 i"
    using k by (simp add: algebra_simps)
qed

section \<open>Descriptors\<close>

lemma low_part: "of_nat (unat va div 2 ^ s) * 2 ^ s = va AND NOT (mask s)" for va :: u64
proof -
  have "unat va div 2 ^ s = unat (drop_bit s va)" by (metis drop_bit_eq_div unat_drop_bit_eq)
  then have "of_nat (unat va div 2 ^ s) * 2 ^ s = push_bit s (drop_bit s va)"
    by (simp add: push_bit_eq_mult)
  also have "\<dots> = va AND NOT (mask s)"
    by (rule bit_word_eqI) (auto simp: bit_simps)
  finally show ?thesis .
qed

lemma attr_bits:
  assumes "attr \<in> {Memory, Device, reserved}" and "bit attr i"
  shows "i < 11 \<or> 53 \<le> i"
proof -
  have "attr AND (mask 11 OR push_bit 53 (mask 2)) = attr"
    using assms(1) by (auto simp: Memory_def Device_def reserved_def mask_numeral)
  then have "bit (attr AND (mask 11 OR push_bit 53 (mask 2))) i" using assms(2) by simp
  then show ?thesis by (auto simp: bit_and_iff bit_or_iff bit_mask_iff bit_push_bit_iff)
qed

text \<open>A block descriptor of the tables leads to the address it was looked up for.\<close>

lemma block_descriptor:
  assumes "drop_bit 40 va = 0" and "s = 21 \<or> s = 30" and "d = (va AND NOT (mask s)) + attr" and "attr \<in> {Memory, Device, reserved}"
  shows "d AND 3 = attr AND 3" "bit d 10 = bit attr 10" "drop_bit 2 d AND 7 = drop_bit 2 attr AND 7"
    "(d AND mask 48 AND NOT (mask s)) OR (va AND mask s) = va"
proof -
  have hi: "bit va i \<Longrightarrow> i < 40" for i
  proof (rule ccontr)
    assume "bit va i" "\<not> i < 40"
    then have "bit (drop_bit 40 va) (i - 40)" by (simp add: bit_drop_bit_eq)
    then show False using assms(1) by simp
  qed
  note attr = attr_bits [OF assms(4)]
  have low: "\<not> bit (mask s :: u64) i \<Longrightarrow> 21 \<le> i" if "bit va i" for i
    using assms(2) hi [OF that] by (auto simp: bit_mask_iff possible_bit_word)
  have "(va AND NOT (mask s)) AND attr = 0"
  proof (rule bit_word_eqI)
    fix i show "bit ((va AND NOT (mask s)) AND attr) i = bit 0 i"
      using hi [of i] attr [of i] low [of i] by (auto simp: bit_and_iff bit_not_iff)
  qed
  then have d: "d = (va AND NOT (mask s)) OR attr" using assms(3) by (simp add: disjunctive_add_eq_or)
  show "bit d 10 = bit attr 10" using assms(2) by (auto simp: d bit_or_iff bit_and_iff bit_not_iff bit_mask_iff)
  have m: "(3 :: u64) = mask 2" "(7 :: u64) = mask 3" by (simp_all add: mask_numeral)
  show "d AND 3 = attr AND 3" "drop_bit 2 d AND 7 = drop_bit 2 attr AND 7"
    unfolding m by (rule bit_word_eqI, use assms(2) in \<open>auto simp: d bit_or_iff bit_and_iff bit_not_iff bit_mask_iff bit_drop_bit_eq\<close>)+
  show "(d AND mask 48 AND NOT (mask s)) OR (va AND mask s) = va"
  proof (rule bit_word_eqI)
    fix i show "bit ((d AND mask 48 AND NOT (mask s)) OR (va AND mask s)) i = bit va i"
      using hi [of i] attr [of i] assms(2) by (auto simp: d bit_or_iff bit_and_iff bit_not_iff bit_mask_iff)
  qed
qed

section \<open>The walk on the tables\<close>

text \<open>The tables lie in memory, the second and third on a boundary of 4 KB and within the 48 bits of a physical address.\<close>

definition words_at :: "memory \<Rightarrow> u64 \<Rightarrow> u64 list \<Rightarrow> bool" where
  "words_at m a ws \<longleftrightarrow> (\<forall>i < length ws. load64 m (a + 8 * of_nat i) = ws ! i)"

definition tables_at :: "memory \<Rightarrow> u64 \<Rightarrow> u64 \<Rightarrow> u64 \<Rightarrow> bool" where
  "tables_at m L0 L1 L2 \<longleftrightarrow>
     words_at m L0 (MMUTableL0 L1) \<and> words_at m L1 (MMUTableL1 L2) \<and> words_at m L2 MMUTableL2 \<and>
     L1 AND mask 12 = 0 \<and> L2 AND mask 12 = 0 \<and> unat L1 + 0x2000 \<le> 2 ^ 48 \<and> unat L2 + 0x4000 \<le> 2 ^ 48"

text \<open>A table descriptor leads to the table whose address it contains.\<close>

lemma table_descriptor:
  fixes t d :: u64
  assumes "t AND mask 12 = 0" and "unat t + n * 0x1000 \<le> 2 ^ 48" and "i < n" and "n \<le> 4" and "d = t + of_nat i * 0x1000 + 3"
  shows "d AND 3 = 3" "d AND 0xFFFFFFFFF000 = t + of_nat i * 0x1000"
proof -
  define u where "u = t + of_nat i * 0x1000"
  have "unat (of_nat i * 0x1000 :: u64) = i * 0x1000"
    using assms(3,4) by (simp add: unat_word_ariths unat_of_nat take_bit_eq_mod)
  then have "unat u = unat t + i * 0x1000"
    unfolding u_def using assms(2,3) by (subst unat_add_lem [THEN iffD1]) auto
  then have "unat u < 2 ^ 48" using assms(2,3) by simp
  then have "unat (take_bit 48 u) = unat u" by (simp add: unsigned_take_bit_eq take_bit_nat_eq_self)
  then have "take_bit 48 u = u" by (rule unsigned_word_eqI)
  moreover have "take_bit 12 u = 0"
  proof -
    have "take_bit 12 t = 0" using assms(1) by (simp add: take_bit_eq_mask)
    then have "t = push_bit 12 (drop_bit 12 t)" using bits_ident [of 12 t] by simp
    then have "u = push_bit 12 (drop_bit 12 t + of_nat i)" by (simp add: u_def push_bit_add) (simp add: push_bit_eq_mult)
    then show ?thesis by (simp add: take_bit_push_bit)
  qed
  ultimately have u: "u AND mask 48 = u" "u AND mask 12 = 0" by (simp_all add: take_bit_eq_mask)
  have b: "bit u i \<Longrightarrow> 12 \<le> i \<and> i < 48" for i
    using arg_cong [OF u(1), of "\<lambda>w. bit w i"] arg_cong [OF u(2), of "\<lambda>w. bit w i"]
    by (auto simp: bit_and_iff bit_mask_iff)
  have m: "(3 :: u64) = mask 2" "(0xFFFFFFFFF000 :: u64) = mask 48 AND NOT (mask 12)" by (simp_all add: mask_numeral)
  have "u AND mask 2 = 0"
  proof (rule bit_word_eqI)
    fix j show "bit (u AND mask 2) j = bit 0 j" using b [of j] by (auto simp: bit_and_iff bit_mask_iff)
  qed
  then have d: "d = u OR mask 2" using assms(5) by (simp add: disjunctive_add_eq_or m(1) u_def [symmetric])
  show "d AND 3 = 3" unfolding m d by (rule bit_word_eqI) (auto simp: bit_simps)
  show "d AND 0xFFFFFFFFF000 = t + of_nat i * 0x1000" unfolding m d u_def [symmetric]
  proof (rule bit_word_eqI)
    fix j show "bit ((u OR mask 2) AND (mask 48 AND NOT (mask 12))) j = bit u j"
      using b [of j] by (auto simp: bit_and_iff bit_or_iff bit_not_iff bit_mask_iff)
  qed
qed

text \<open>The index of a table on the second or third level continues the index of the level before.\<close>

lemma level_index:
  fixes va :: u64
  assumes "tbl = t + of_nat (unat va div 2 ^ (s + 9)) * 0x1000"
  shows "tbl + 8 * (drop_bit s va AND 0x1FF) = t + 8 * of_nat (unat va div 2 ^ s)"
proof -
  have "drop_bit s va AND 0x1FF = of_nat (unat va div 2 ^ s mod 512)"
  proof -
    have "drop_bit s va AND mask 9 = of_nat (unat (drop_bit s va) mod 512)"
      by (simp add: take_bit_eq_mask [symmetric] take_bit_eq_mod word_arith_nat_mod)
    moreover have "unat (drop_bit s va) = unat va div 2 ^ s" by (metis drop_bit_eq_div unat_drop_bit_eq)
    ultimately show ?thesis by (simp add: mask_numeral)
  qed
  moreover have "unat va div 2 ^ (s + 9) = unat va div 2 ^ s div 512"
    by (simp add: power_add div_mult2_eq)
  moreover have "of_nat (n div 512) * 0x1000 + 8 * of_nat (n mod 512) = (8 * of_nat n :: u64)" for n
  proof -
    have "n = 512 * (n div 512) + n mod 512" by simp
    then have "of_nat n = (512 * of_nat (n div 512) + of_nat (n mod 512) :: u64)"
      by (metis of_nat_add of_nat_mult of_nat_numeral)
    then show ?thesis by (simp add: algebra_simps)
  qed
  ultimately show ?thesis using assms by (simp add: add.assoc)
qed

text \<open>What a descriptor means.\<close>

definition block_result :: "nat \<Rightarrow> u64 \<Rightarrow> u64 \<Rightarrow> (u64 \<times> u64) option" where
  "block_result s va attr = (if attr = reserved then None else Some (va, (va AND NOT (mask s)) + attr))"

lemma walk_block:
  assumes "drop_bit 40 va = 0" and "s = 21 \<or> s = 30" and "attr \<in> {Memory, Device, reserved}"
    and "load64 m (tbl + 8 * (drop_bit s va AND 0x1FF)) = (va AND NOT (mask s)) + attr"
  shows "walk m (s # ss) tbl va = block_result s va attr"
proof -
  note d = block_descriptor [OF assms(1,2) refl assms(3)]
  have "reserved AND 3 = 0" "Memory AND 3 = 1" "Device AND 3 = 1" "bit Memory 10" "bit Device 10" "Memory \<noteq> reserved" "Device \<noteq> reserved"
    by (simp_all add: reserved_def Memory_def Device_def bit_simps)
  with assms(2-4) d show ?thesis by (auto simp: block_result_def Let_def)
qed

lemma walk_table:
  assumes "load64 m (tbl + 8 * (drop_bit s va AND 0x1FF)) = d" and "d AND 3 = 3" and "ss \<noteq> []"
  shows "walk m (s # ss) tbl va = walk m ss (d AND 0xFFFFFFFFF000) va"
  using assms by simp

declare walk.simps(2) [simp del]

definition section_kind :: "u64 \<Rightarrow> u64" where
  "section_kind va =
     (if unat va < 0x100000000 then section_attr MMUTableL2_sections 0 (unat va div 2 ^ 21)
      else section_attr MMUTableL1_sections 4 (unat va div 2 ^ 30))"

lemma section_attr_values: "section_attr MMUTableL1_sections 4 i \<in> {Memory, Device, reserved}"
   "section_attr MMUTableL2_sections 0 i \<in> {Memory, Device, reserved}"
  by (simp_all add: L1_sections L2_sections)

lemma section_kind_values: "section_kind va \<in> {Memory, Device, reserved}"
  using section_attr_values by (simp add: section_kind_def)

lemma walk_tables:
  assumes "tables_at m L0 L1 L2" and "drop_bit 40 va = 0"
  shows "walk m [39, 30, 21, 12] L0 va = block_result (if unat va < 0x100000000 then 21 else 30) va (section_kind va)"
proof -
  have v: "unat va < 2 ^ 40"
    using assms(2) by (metis drop_bit_eq_div drop_bit_nat_def unat_drop_bit_eq unat_0 div_eq_0_iff power_not_zero zero_neq_numeral)
  have t: "words_at m L0 (MMUTableL0 L1)" "words_at m L1 (MMUTableL1 L2)" "words_at m L2 MMUTableL2"
     "L1 AND mask 12 = 0" "L2 AND mask 12 = 0" "unat L1 + 2 * 0x1000 \<le> 2 ^ 48" "unat L2 + 4 * 0x1000 \<le> 2 ^ 48"
    using assms(1) by (simp_all add: tables_at_def)
  define i j where "i = unat va div 2 ^ 39" and "j = unat va div 2 ^ 30"
  have i: "i < 2" using v by (simp add: i_def less_mult_imp_div_less)
  have j: "j < 1024" using v by (simp add: j_def less_mult_imp_div_less)
  have "load64 m (L0 + 8 * (drop_bit 39 va AND 0x1FF)) = MMUTableL0 L1 ! i"
    using level_index [of L0 L0 va 39] t(1) i v by (simp add: words_at_def i_def)
  also have "\<dots> = L1 + of_nat i * 0x1000 + 3" using i by (auto simp: MMUTableL0_def less_2_cases_iff)
  finally have w0: "walk m [39, 30, 21, 12] L0 va = walk m [30, 21, 12] (L1 + of_nat i * 0x1000) va"
    using table_descriptor [OF t(4,6) i _ refl] by (simp add: walk_table)
  have l1: "load64 m (L1 + of_nat i * 0x1000 + 8 * (drop_bit 30 va AND 0x1FF)) = MMUTableL1 L2 ! j"
    using level_index [of "L1 + of_nat i * 0x1000" L1 va 30] t(2) j by (simp add: words_at_def i_def j_def add.assoc)
  show ?thesis
  proof (cases "unat va < 0x100000000")
    case True
    then have j4: "j < 4" by (simp add: j_def less_mult_imp_div_less)
    note d = table_descriptor [OF t(5,7) j4 _ refl]
    have k: "unat va div 2 ^ 21 < 2048" using True by (simp add: less_mult_imp_div_less)
    have w1: "walk m [30, 21, 12] (L1 + of_nat i * 0x1000) va = walk m [21, 12] (L2 + of_nat j * 0x1000) va"
      using l1 L1_nth(1) [OF j4] d by (simp add: walk_table)
    have "load64 m (L2 + of_nat j * 0x1000 + 8 * (drop_bit 21 va AND 0x1FF)) = MMUTableL2 ! (unat va div 2 ^ 21)"
      using level_index [of "L2 + of_nat j * 0x1000" L2 va 21] t(3) k by (simp add: words_at_def j_def add.assoc)
    also have "\<dots> = (va AND NOT (mask 21)) + section_kind va"
      using L2_nth [OF k] low_part [of va 21] True by (simp add: section_kind_def)
    finally have "walk m [21, 12] (L2 + of_nat j * 0x1000) va = block_result 21 va (section_kind va)"
      by (rule walk_block [OF assms(2) _ section_kind_values, rotated]) simp
    then show ?thesis using w0 w1 True by simp
  next
    case False
    then have "4 \<le> j" by (simp add: j_def less_eq_div_iff_mult_less_eq)
    then have "MMUTableL1 L2 ! j = (va AND NOT (mask 30)) + section_kind va"
      using L1_nth(2) [OF _ j] low_part [of va 30] False by (simp add: section_kind_def j_def)
    then have "walk m [30, 21, 12] (L1 + of_nat i * 0x1000) va = block_result 30 va (section_kind va)"
      by (intro walk_block [OF assms(2) _ section_kind_values]) (simp_all add: l1)
    then show ?thesis using w0 False by simp
  qed
qed

text \<open>The kind of each address in the documentation, and in the tables.\<close>

lemma documented_kind:
  "map_kind documented_map va =
     (if unat va < 0x80000000 then Some Normal else if unat va < 0xF0000000 then Some StronglyOrdered
      else if unat va < 0xF8000000 then None else if unat va < 0xF9200000 then Some StronglyOrdered
      else if unat va < 0xFD000000 then None else if unat va < 0xFFE00000 then Some StronglyOrdered
      else if unat va < 0x100000000 then Some Normal else if unat va < 0x400000000 then None
      else if unat va < 0x800000000 then Some StronglyOrdered else if unat va < 0x1000000000 then Some Normal
      else if unat va < 0xC000000000 then Some StronglyOrdered else None)"
  by (auto simp: documented_map_def word_le_nat_alt)

lemma section_kind_ranges:
  assumes "unat va < 2 ^ 40"
  shows "section_kind va =
     (if unat va < 0x80000000 then Memory else if unat va < 0xF0000000 then Device
      else if unat va < 0xF8000000 then reserved else if unat va < 0xF9200000 then Device
      else if unat va < 0xFD000000 then reserved else if unat va < 0xFFE00000 then Device
      else if unat va < 0x100000000 then Memory else if unat va < 0x400000000 then reserved
      else if unat va < 0x800000000 then Device else if unat va < 0x880000000 then Memory
      else if unat va < 0x1000000000 then reserved else if unat va < 0xC000000000 then Device else reserved)"
proof -
  have d: "n div 2 ^ s < k \<longleftrightarrow> n < k * 2 ^ s" for n s k :: nat
    by (rule div_less_iff_less_mult) simp
  show ?thesis unfolding section_kind_def L1_sections L2_sections d using assms by simp
qed

text \<open>The value that the start-up code writes to \<open>MAIR\<close>.\<close>

lemma kind_of_block:
  assumes "drop_bit 40 va = 0" and "s = 21 \<or> s = 30" and "mair = 0x000000BB0400FF44"
  shows "kind_of mair ((va AND NOT (mask s)) + Memory) = Normal"
    and "kind_of mair ((va AND NOT (mask s)) + Device) = StronglyOrdered"
proof -
  have "drop_bit 2 Memory AND 7 = 1" "drop_bit 2 Device AND 7 = 2" by (simp_all add: Memory_def Device_def)
  then show "kind_of mair ((va AND NOT (mask s)) + Memory) = Normal"
      "kind_of mair ((va AND NOT (mask s)) + Device) = StronglyOrdered"
    using block_descriptor(3) [OF assms(1,2) refl, of Memory] block_descriptor(3) [OF assms(1,2) refl, of Device] assms(3)
    by (simp_all add: kind_of_def)
qed

text \<open>
  Every address is translated to itself, with the attributes the documentation says, or faults, with one
  exception: of the 32 GB for the upper DDR memory only the 2 GB that are present are mapped.
\<close>

definition address_map :: "u64 \<Rightarrow> mem_kind option" where
  "address_map va = (if 0x880000000 \<le> va \<and> va \<le> 0xFFFFFFFFF then None else map_kind documented_map va)"

lemma translate_flat:
  assumes "tables_at (cmem c) (sysr c TTBR0) L1 L2" and "bit (sysr c SCTLR) 0" and "sysr c TCR AND 0x3F = 24"
    and "sysr c MAIR = 0x000000BB0400FF44"
  shows "translate c va = map_option (\<lambda>k. (va, k)) (address_map va)"
proof (cases "drop_bit 40 va = 0")
  case True
  have v: "unat va < 2 ^ 40"
    using True by (metis drop_bit_eq_div drop_bit_nat_def unat_drop_bit_eq unat_0 div_eq_0_iff power_not_zero zero_neq_numeral)
  let ?s = "if unat va < 0x100000000 then 21 else 30 :: nat"
  have s: "?s = 21 \<or> ?s = 30" by simp
  note k = kind_of_block [OF True s assms(4)]
  have "translate c va = map_option (\<lambda>(pa, d). (pa, kind_of (sysr c MAIR) d)) (block_result ?s va (section_kind va))"
    using walk_tables [OF assms(1) True] assms(2,3) True by (simp add: translate_def)
  also have "\<dots> = map_option (\<lambda>k. (va, k)) (if section_kind va = reserved then None
      else Some (if section_kind va = Memory then Normal else StronglyOrdered))"
    using section_kind_values [of va] k by (auto simp: block_result_def)
  also have "(if section_kind va = reserved then None else Some (if section_kind va = Memory then Normal else StronglyOrdered)) =
      address_map va"
  proof -
    have "Memory \<noteq> reserved" "Device \<noteq> reserved" "Device \<noteq> Memory" by (simp_all add: Memory_def Device_def reserved_def)
    then show ?thesis
      by (simp add: section_kind_ranges [OF v] address_map_def documented_kind word_le_nat_alt)
  qed
  finally show ?thesis .
next
  case False
  then have "2 ^ 40 \<le> unat va"
    by (metis drop_bit_eq_div div_less not_le unat_drop_bit_eq unat_eq_zero)
  then have "address_map va = None" by (simp add: address_map_def documented_kind word_le_nat_alt)
  with False assms(2,3) show ?thesis by (simp add: translate_def)
qed

section \<open>What the program uses\<close>

text \<open>
  All regions of the memory map are normal memory, the registers of the interrupt controller, of the
  inter-processor interrupts and of the reset control are device memory, and the address that the crash
  demonstration writes to is not mapped.
\<close>

lemma regions_are_memory:
  "r \<in> set all_regions \<Longrightarrow> in_region a r \<Longrightarrow> address_map a = Some Normal"
  by (auto simp: all_regions_eq in_region_def address_map_def documented_kind word_le_nat_alt word_less_nat_alt)

lemma devices_are_mapped:
  "0xF9000000 \<le> a \<Longrightarrow> a < 0xF9200000 \<Longrightarrow> address_map a = Some StronglyOrdered"
  "0xFD000000 \<le> a \<Longrightarrow> a < 0xFFE00000 \<Longrightarrow> address_map a = Some StronglyOrdered"
  by (auto simp: address_map_def documented_kind word_le_nat_alt word_less_nat_alt)

lemma hole_faults: "address_map 0xF0000000 = None"
  by (simp add: address_map_def documented_kind)

end
