(* ===== verification/Vectors.thy ===== *)
theory Vectors
  imports Aarch64_Asm Monitor
begin

text \<open>
  The exception handlers of \<open>src/platform/zynqmp/executor/asm_vectors.S\<close> around the C++ handlers, and their lazy
  switching of the floating point registers: an interrupt handler starts with floating point instructions
  trapped; only if it uses one, the trap saves the registers of the interrupted code on a stack of contexts
  (\<open>FPUContext\<close>), from which they are reloaded at the end of the interrupt. The lemmas give the effect of each
  handler on registers and memory.
\<close>

section \<open>The handlers\<close>

text \<open>Addresses chosen by the linker, and whether the sources are assembled for EL3.\<close>

record labels =
  at_EL3 :: bool
  FPUContext :: u64
  FPUContextBase :: u64
  FPUStatus :: u64

definition FPUContextSize :: int where "FPUContextSize = 4224"

definition fp_bit :: "labels \<Rightarrow> u64" where
  "fp_bit L = (if at_EL3 L then push_bit 10 1 else push_bit 20 1)"

text \<open>\<open>CPTR_EL3\<close> has a trap bit, \<open>CPACR_EL1\<close> an enable bit.\<close>

definition fp_untrap :: "labels \<Rightarrow> instr list" where
  "fp_untrap L = [MRS 1 CPTR, if at_EL3 L then BICI 1 1 (fp_bit L) else ORRI 1 1 (fp_bit L), MSR CPTR 1]"

definition fp_trap :: "labels \<Rightarrow> instr list" where
  "fp_trap L = [MRS 1 CPTR, if at_EL3 L then ORRI 1 1 (fp_bit L) else BICI 1 1 (fp_bit L), MSR CPTR 1]"

definition fp_enabled :: "labels \<Rightarrow> cpu \<Rightarrow> bool" where
  "fp_enabled L c \<longleftrightarrow> (if at_EL3 L then sysr c CPTR AND fp_bit L = 0 else sysr c CPTR AND fp_bit L \<noteq> 0)"

definition storefloat :: "labels \<Rightarrow> cpu \<Rightarrow> cpu" where
  "storefloat L c =
     (let c1 = exec [LIT 0 (FPUStatus L)] c;
          c2 = set_x 1 (ucast (cmem c1 (xr c1 0))) c1 in
      if xr c2 1 \<noteq> 0 then exec (savefloatregister (FPUContextBase L)) c2
      else
        let c3 = set_x 1 1 c2;
            c4 = c3\<lparr>cmem := (cmem c3)(xr c3 0 := ucast (xr c3 1))\<rparr> in
        exec [LIT 0 (FPUContext L), LIT 1 (FPUContextBase L), STRX 0 1 (Off 0)] c4)"

text \<open>\<open>handler\<close> is the C++ function, called with the address of the saved registers in \<open>x0\<close>.\<close>

definition SynchronousInterruptHandler :: "labels \<Rightarrow> (cpu \<Rightarrow> cpu) \<Rightarrow> cpu \<Rightarrow> cpu" where
  "SynchronousInterruptHandler L handler c =
     (let c1 = exec (saveregister_full @ [MRS 0 ESR, ANDI 0 0 (push_bit 26 0x3F), LIT 1 (push_bit 26 7)]) c;
          c2 = (if xr c1 0 \<noteq> xr c1 1 then handler (exec [MOV 0 31] c1)
                else storefloat L (exec (fp_untrap L) c1)) in
      exec restoreregister_full c2)"

definition irq_entry :: "labels \<Rightarrow> instr list" where
  "irq_entry L = saveregister @ [MRS 0 CPTR, MRS 1 ELR, MRS 2 SPSR, STP 0 1 31 (Pre (- 0x10)), STRX 2 31 (Pre (- 0x10))] @
     fp_trap L"

definition irq_exit :: "instr list" where
  "irq_exit = [LDRX 2 31 (Post 0x10), LDP 0 1 31 (Post 0x10), MSR CPTR 0, MSR ELR 1, MSR SPSR 2] @ restoreregister"

definition IRQInterruptHandler :: "labels \<Rightarrow> (cpu \<Rightarrow> cpu) \<Rightarrow> cpu \<Rightarrow> cpu" where
  "IRQInterruptHandler L handler c =
     (let c1 = handler (exec (irq_entry L) c);
          c2 = exec [MRS 0 CPTR, ANDI 0 0 (fp_bit L)] c1;
          c3 = (if (if at_EL3 L then xr c2 0 \<noteq> 0 else xr c2 0 = 0) then c2
                else exec (restorefloatregister (FPUContextBase L)) c2) in
      exec irq_exit c3)"

definition FIQInterruptHandler :: "labels \<Rightarrow> (cpu \<Rightarrow> cpu) \<Rightarrow> cpu \<Rightarrow> cpu" where
  "FIQInterruptHandler L handler c =
     (let c1 = handler (exec (irq_entry L) c);
          c2 = exec [MRS 0 CPTR, ANDI 0 0 (fp_bit L)] c1;
          c3 = (if (if at_EL3 L then xr c2 0 \<noteq> 0 else xr c2 0 = 0) then c2
                else exec (restorefloatregister (FPUContextBase L)) c2) in
      exec irq_exit c3)"

definition SErrorInterruptHandler :: "(cpu \<Rightarrow> cpu) \<Rightarrow> cpu \<Rightarrow> cpu" where
  "SErrorInterruptHandler handler c = exec restoreregister (handler (exec saveregister c))"

text \<open>
  The 32 bytes at the start of a payload image: the jump to \<open>_boot\<close> (8 bytes of code), then the fields the monitor
  checks. \<open>vector_table\<close> and \<open>PROGRAM_SIZE\<close> are symbols of the linker.
\<close>

definition image_header :: "bytes \<Rightarrow> u64 \<Rightarrow> u64 \<Rightarrow> bytes" where
  "image_header jump vector_table PROGRAM_SIZE =
     jump @ le_bytes 4 ABI_MAGIC_NUMBER @ [ABI_MAJOR, ABI_MINOR] @ le_bytes 2 (0 :: 16 word) @
     le_bytes 8 vector_table @ le_bytes 8 PROGRAM_SIZE"

section \<open>Code that is interrupted\<close>

text \<open>
  What runs at one exception level: stretches of code without floating point instructions, stretches with them,
  and interrupts with what their handler does. An exception sets \<open>ELR\<close> and \<open>SPSR\<close> to values that depend on the
  interrupted code, here arbitrary; a stretch with floating point instructions starts with a trap if they are
  trapped.
\<close>

datatype activity = Compute "cpu \<Rightarrow> cpu" | Float u64 u64 "cpu \<Rightarrow> cpu" | Interrupt u64 u64 "activity list"

definition take_exception :: "u64 \<Rightarrow> u64 \<Rightarrow> cpu \<Rightarrow> cpu" where
  "take_exception elr spsr c = c\<lparr>sysr := (sysr c)(ELR := elr, SPSR := spsr)\<rparr>"

definition fp_trap_taken :: "labels \<Rightarrow> u64 \<Rightarrow> u64 \<Rightarrow> cpu \<Rightarrow> cpu" where
  "fp_trap_taken L elr spsr c =
     (let c1 = take_exception elr spsr c in
      SynchronousInterruptHandler L (\<lambda>c. c) (c1\<lparr>sysr := (sysr c1)(ESR := push_bit 26 7)\<rparr>))"

fun run :: "labels \<Rightarrow> activity \<Rightarrow> cpu \<Rightarrow> cpu"
  and run_all :: "labels \<Rightarrow> activity list \<Rightarrow> cpu \<Rightarrow> cpu" where
  "run L (Compute f) c = f c"
| "run L (Float elr spsr f) c = f (if fp_enabled L c then c else fp_trap_taken L elr spsr c)"
| "run L (Interrupt elr spsr body) c = IRQInterruptHandler L (run_all L body) (take_exception elr spsr c)"
| "run_all L [] c = c"
| "run_all L (a # as) c = run_all L as (run L a c)"

section \<open>Trapping\<close>

lemma fp_bits: "(x OR b) AND b = b" "(x AND NOT b) AND b = 0" for x b :: u64
  by (auto intro: bit_word_eqI simp: bit_simps)

lemma fp_bit_nonzero [simp]: "fp_bit L \<noteq> 0"
  by (simp add: fp_bit_def)

lemma fp_untrap_effect:
  "fp_enabled L (exec (fp_untrap L) c)" "cmem (exec (fp_untrap L) c) = cmem c" "qr (exec (fp_untrap L) c) = qr c"
  "n \<noteq> 1 \<Longrightarrow> xr (exec (fp_untrap L) c) n = xr c n" "r \<noteq> CPTR \<Longrightarrow> sysr (exec (fp_untrap L) c) r = sysr c r"
  by (simp_all add: fp_untrap_def fp_enabled_def fp_bits)

lemma fp_trap_effect:
  "\<not> fp_enabled L (exec (fp_trap L) c)" "cmem (exec (fp_trap L) c) = cmem c" "qr (exec (fp_trap L) c) = qr c"
  "n \<noteq> 1 \<Longrightarrow> xr (exec (fp_trap L) c) n = xr c n" "r \<noteq> CPTR \<Longrightarrow> sysr (exec (fp_trap L) c) r = sysr c r"
  by (simp_all add: fp_trap_def fp_enabled_def fp_bits)

lemma fp_enabled_cong: "sysr c CPTR = sysr c' CPTR \<Longrightarrow> fp_enabled L c = fp_enabled L c'"
  by (simp add: fp_enabled_def)


section \<open>Saving and reloading a floating point context\<close>

type_synonym fp_context = "128 word list \<times> u64 \<times> u64"

definition fp_ctx :: "cpu \<Rightarrow> fp_context" where
  "fp_ctx c = (map (qr c) [0..<32], sysr c SYS_FPCR, sysr c SYS_FPSR)"

definition fp_ctx_at :: "memory \<Rightarrow> u64 \<Rightarrow> fp_context" where
  "fp_ctx_at m a = (qregs_at m a, load64 m (off a 0x200), load64 m (off a 0x208))"

lemma disjoint_mono: "A \<inter> B = {} \<Longrightarrow> A' \<subseteq> A \<Longrightarrow> A' \<inter> B = {}"
  by blast

lemma fp_ctx_at_same_outside:
  assumes "same_outside R m m'" and "region a 0 0x210 \<inter> R = {}"
  shows "fp_ctx_at m' a = fp_ctx_at m a"
proof -
  have sub: "region a i (i + n) \<inter> R = {}" if "0 \<le> i" "i + n \<le> 0x210" for i n
    using disjoint_mono [OF assms(2) region_mono [OF that]] .
  have "load128 m' (off a (16 * int i)) = load128 m (off a (16 * int i))" if "i < 32" for i
    using load_same_outside(2) [OF assms(1)] sub [of "16 * int i" 16] that by simp
  moreover have "load64 m' (off a 0x200) = load64 m (off a 0x200)" "load64 m' (off a 0x208) = load64 m (off a 0x208)"
    using load_same_outside(1) [OF assms(1)] sub [of "0x200" 8] sub [of "0x208" 8] by simp_all
  ultimately show ?thesis by (simp add: fp_ctx_at_def qregs_at_def)
qed

lemma store64_same_outside: "same_outside (region b i (i + 8)) m (store64 m (off b i) v)"
  using store_outside(1) [of _ b i "i + 8"] by (simp add: same_outside_def)

lemma qregs_at_store_after: "qregs_at (store64 m (off a (0x200 + 8 * int k)) v) a = qregs_at m a" if "k < 2"
  using that unfolding qregs_at_def by simp

text \<open>A pair of 64-bit stores behind the vector registers completes a context.\<close>

lemma fp_ctx_at_stores:
  "fp_ctx_at (store64 (store64 m (off a 0x200) v) (off a 0x208) w) a = (qregs_at m a, v, w)"
  using qregs_at_store_after [of 0 m a v] qregs_at_store_after [of 1 "store64 m (off a 0x200) v" a w]
  by (simp add: fp_ctx_at_def)

lemma savefloat_effect:
  assumes "load64 (cmem c) V = B" and "region B 0 0x210 \<inter> region V 0 8 = {}"
  defines "c' \<equiv> exec (savefloatregister V) c"
  shows "fp_ctx_at (cmem c') B = fp_ctx c" "load64 (cmem c') V = off B 0x210"
    "same_outside (region B 0 0x210 \<union> region V 0 8) (cmem c) (cmem c')"
    "qr c' = qr c" "sysr c' = sysr c" "3 < n \<Longrightarrow> xr c' n = xr c n"
proof -
  define c0 where "c0 = exec [LIT 1 V, LDRX 0 1 (Off 0)] c"
  define c1 where "c1 = exec (stpq_all 0) c0"
  define m where "m = store64 (store64 (cmem c1) (off B 0x200) (sysr c SYS_FPCR)) (off B 0x208) (sysr c SYS_FPSR)"
  have x0: "xr c0 0 = B" "cmem c0 = cmem c" "qr c0 = qr c" "sysr c0 = sysr c" "xr c0 1 = V"
    using assms(1) by (simp_all add: c0_def)
  note q = stpq_all_frame [of c0, folded c1_def, unfolded x0]
  have x1: "xr c1 1 = V" "xr c1 0 = off B 0x200" using q(2) x0(5) by simp_all
  have c': "c' = exec [MRS 2 SYS_FPCR, MRS 3 SYS_FPSR, STP 2 3 0 (Post 0x10), STRX 0 1 (Off 0)] c1"
    by (simp add: c'_def savefloatregister_def c1_def c0_def)
  have mem': "cmem c' = store64 m V (off B 0x210)"
    using x1 q(4) by (simp add: c' m_def Let_def)
  have outV: "same_outside (region V 0 8) m (store64 m V (off B 0x210))"
    using store64_same_outside [of V 0] by simp
  have "fp_ctx_at m B = fp_ctx c"
    unfolding m_def fp_ctx_at_stores using q(1) by (simp add: fp_ctx_def)
  then show "fp_ctx_at (cmem c') B = fp_ctx c"
    using fp_ctx_at_same_outside [OF outV assms(2)] mem' by simp
  show "load64 (cmem c') V = off B 0x210" by (simp add: mem')
  have "same_outside (region B 0 0x210) (cmem c) m"
  proof (rule same_outside_trans)
    show "same_outside (region B 0 0x200) (cmem c) (cmem c1)" using stpq_all_mem [of c0, folded c1_def] x0 by simp
    show "same_outside (region B 0x200 0x210) (cmem c1) m"
      unfolding same_outside_def m_def using store_outside(1) [of _ B "0x200" "0x210"] by simp
  qed (simp_all add: region_mono)
  then show "same_outside (region B 0 0x210 \<union> region V 0 8) (cmem c) (cmem c')"
    unfolding mem' by (rule same_outside_trans [OF _ outV]) auto
  show "qr c' = qr c" "sysr c' = sysr c" using q(3,4) by (simp_all add: c' Let_def)
  show "3 < n \<Longrightarrow> xr c' n = xr c n" using q(2) by (simp add: c' Let_def c0_def)
qed

lemma restorefloat_effect:
  assumes "load64 (cmem c) V = B"
  defines "c' \<equiv> exec (restorefloatregister V) c"
  shows "fp_ctx c' = fp_ctx_at (cmem c) (off B (- 0x210))" "load64 (cmem c') V = off B (- 0x210)"
    "same_outside (region V 0 8) (cmem c) (cmem c')"
    "r \<noteq> SYS_FPCR \<Longrightarrow> r \<noteq> SYS_FPSR \<Longrightarrow> sysr c' r = sysr c r" "3 < n \<Longrightarrow> xr c' n = xr c n"
proof -
  define c0 where "c0 = exec [LIT 1 V, LDRX 0 1 (Off 0), LDP 2 3 0 (Pre (- 0x10)), MSR SYS_FPCR 2, MSR SYS_FPSR 3] c"
  define c1 where "c1 = exec (ldpq_all 0) c0"
  have x0: "xr c0 0 = off B (- 0x10)" "xr c0 1 = V" "cmem c0 = cmem c" "qr c0 = qr c"
    "sysr c0 = (sysr c)(SYS_FPCR := load64 (cmem c) (off B (- 0x10)), SYS_FPSR := load64 (cmem c) (off B (- 8)))"
    "3 < n \<Longrightarrow> xr c0 n = xr c n"
    using assms(1) by (simp_all add: c0_def Let_def)
  note q = ldpq_all_frame [of c0, folded c1_def, unfolded x0(3)]
  have c': "c' = exec [STRX 0 1 (Off 0)] c1"
    by (simp add: c'_def restorefloatregister_def c1_def c0_def)
  have mem': "cmem c' = store64 (cmem c) V (off B (- 0x210))" using q(2,3) x0(1,2) by (simp add: c')
  show "fp_ctx c' = fp_ctx_at (cmem c) (off B (- 0x210))"
    using q(1,4) x0(1,5) by (simp add: c' fp_ctx_def fp_ctx_at_def)
  show "load64 (cmem c') V = off B (- 0x210)" by (simp add: mem')
  show "same_outside (region V 0 8) (cmem c) (cmem c')"
    unfolding mem' using store64_same_outside [of V 0] by simp
  show "r \<noteq> SYS_FPCR \<Longrightarrow> r \<noteq> SYS_FPSR \<Longrightarrow> sysr c' r = sysr c r" using q(4) x0(5) by (simp add: c')
  show "3 < n \<Longrightarrow> xr c' n = xr c n" using q(2) x0(6) by (simp add: c')
qed


section \<open>The frame of an interrupt\<close>

text \<open>The words an interrupt pushes, below the stack pointer \<open>s\<close>, in the order of the pushes.\<close>

definition irq_saved :: "memory \<Rightarrow> u64 \<Rightarrow> u64 list" where
  "irq_saved m s = map (\<lambda>i. load64 m (off s i))
     [- 0x10, - 0x8, - 0x20, - 0x18, - 0x30, - 0x28, - 0x40, - 0x38, - 0x50, - 0x48, - 0x60, - 0x58, - 0x70, - 0x68, - 0x80, - 0x78, - 0x90, - 0x88, - 0xa0, - 0x98, - 0xb0, - 0xa8, - 0xc0, - 0xb8, - 0xd0]"

definition irq_registers :: "cpu \<Rightarrow> u64 list" where
  "irq_registers c = map (xr c) ([0..<20] @ [29, 30]) @ [sysr c CPTR, sysr c ELR, sysr c SPSR]"

lemma upt20: "[0..<20] = [0, 1, 2, 3, 4, 5, 6, 7, 8, 9, 10, 11, 12, 13, 14, 15, 16, 17, 18, 19 :: nat]"
  by (simp add: upt_conv_Cons)

definition irq_push :: "instr list" where
  "irq_push = saveregister @ [MRS 0 CPTR, MRS 1 ELR, MRS 2 SPSR, STP 0 1 31 (Pre (- 0x10)), STRX 2 31 (Pre (- 0x10))]"

lemma irq_push_frame:
  "irq_saved (cmem (exec irq_push c)) (xr c 31) = irq_registers c"
  "xr (exec irq_push c) 31 = off (xr c 31) (- 0xD0)"
  "2 < n \<Longrightarrow> n < 31 \<Longrightarrow> xr (exec irq_push c) n = xr c n"
  "qr (exec irq_push c) = qr c" "sysr (exec irq_push c) = sysr c"
  unfolding irq_push_def saveregister_def irq_saved_def irq_registers_def upt20 by (simp_all add: Let_def)

lemma irq_push_mem: "same_outside (region (xr c 31) (- 0xD0) 0) (cmem c) (cmem (exec irq_push c))"
  unfolding same_outside_def
proof (intro allI impI)
  fix x assume "x \<notin> region (xr c 31) (- 0xD0) 0"
  note out = store_outside [OF this]
  show "cmem (exec irq_push c) x = cmem c x"
    unfolding irq_push_def saveregister_def by (simp add: Let_def out)
qed

lemma irq_entry_effect:
  "irq_saved (cmem (exec (irq_entry L) c)) (xr c 31) = irq_registers c"
  "xr (exec (irq_entry L) c) 31 = off (xr c 31) (- 0xD0)"
  "2 < n \<Longrightarrow> n < 31 \<Longrightarrow> xr (exec (irq_entry L) c) n = xr c n"
  "qr (exec (irq_entry L) c) = qr c" "r \<noteq> CPTR \<Longrightarrow> sysr (exec (irq_entry L) c) r = sysr c r"
  "\<not> fp_enabled L (exec (irq_entry L) c)"
  "same_outside (region (xr c 31) (- 0xD0) 0) (cmem c) (cmem (exec (irq_entry L) c))"
proof -
  have "exec (irq_entry L) c = exec (fp_trap L) (exec irq_push c)"
    by (simp add: irq_entry_def irq_push_def)
  then show "irq_saved (cmem (exec (irq_entry L) c)) (xr c 31) = irq_registers c"
    "xr (exec (irq_entry L) c) 31 = off (xr c 31) (- 0xD0)"
    "2 < n \<Longrightarrow> n < 31 \<Longrightarrow> xr (exec (irq_entry L) c) n = xr c n"
    "qr (exec (irq_entry L) c) = qr c" "r \<noteq> CPTR \<Longrightarrow> sysr (exec (irq_entry L) c) r = sysr c r"
    "\<not> fp_enabled L (exec (irq_entry L) c)"
    "same_outside (region (xr c 31) (- 0xD0) 0) (cmem c) (cmem (exec (irq_entry L) c))"
    by (simp_all add: fp_trap_effect irq_push_frame irq_push_mem)
qed

lemma irq_exit_effect:
  assumes "xr c 31 = off s (- 0xD0)"
  shows "irq_registers (exec irq_exit c) = irq_saved (cmem c) s" "xr (exec irq_exit c) 31 = s"
    "19 < n \<Longrightarrow> n < 29 \<Longrightarrow> xr (exec irq_exit c) n = xr c n"
    "cmem (exec irq_exit c) = cmem c" "qr (exec irq_exit c) = qr c"
    "r \<notin> {CPTR, ELR, SPSR} \<Longrightarrow> sysr (exec irq_exit c) r = sysr c r"
  using assms unfolding irq_exit_def restoreregister_def irq_saved_def irq_registers_def upt20
  by (simp_all add: Let_def)


section \<open>The floating point trap\<close>

lemma regs_at_same_outside:
  assumes "same_outside R m m'" and "region a 0 0x110 \<inter> R = {}"
  shows "regs_at m' a = regs_at m a"
proof -
  have "load64 m' (off a i) = load64 m (off a i)" if "0 \<le> i" "i + 8 \<le> 0x110" for i
    using load_same_outside(1) [OF assms(1)] disjoint_mono [OF assms(2) region_mono [OF that]] by simp
  then show ?thesis by (simp add: regs_at_def)
qed

lemma ucast_byte_eq_0: "(ucast (b :: u8) :: u64) = 0 \<longleftrightarrow> b = 0"
proof -
  have "uint (ucast b :: u64) = uint b" by (simp add: uint_up_ucast is_up)
  then show ?thesis by (metis unsigned_0 word_uint_eq_iff)
qed

lemma savefloat_path:
  assumes "cmem c (FPUStatus L) \<noteq> 0" and "load64 (cmem c) (FPUContextBase L) = B"
    and "region B 0 0x210 \<inter> region (FPUContextBase L) 0 8 = {}"
  defines "c' \<equiv> storefloat L c"
  shows "fp_ctx_at (cmem c') B = fp_ctx c" "load64 (cmem c') (FPUContextBase L) = off B 0x210"
    "same_outside (region B 0 0x210 \<union> region (FPUContextBase L) 0 8) (cmem c) (cmem c')"
    "qr c' = qr c" "sysr c' = sysr c" "3 < n \<Longrightarrow> xr c' n = xr c n"
proof -
  define c2 where "c2 = set_x 1 (ucast (cmem c (FPUStatus L))) (set_x 0 (FPUStatus L) c)"
  have c2: "cmem c2 = cmem c" "fp_ctx c2 = fp_ctx c" "qr c2 = qr c" "sysr c2 = sysr c" "3 < n \<Longrightarrow> xr c2 n = xr c n"
    by (simp_all add: c2_def fp_ctx_def)
  have "(ucast (cmem c (FPUStatus L)) :: u64) \<noteq> 0"
    using assms(1) ucast_byte_eq_0 by blast
  then have c': "c' = exec (savefloatregister (FPUContextBase L)) c2"
    by (simp add: c'_def storefloat_def c2_def)
  note eff = savefloat_effect [of c2 "FPUContextBase L" B, unfolded c2(1), OF assms(2,3), folded c']
  show "fp_ctx_at (cmem c') B = fp_ctx c" "load64 (cmem c') (FPUContextBase L) = off B 0x210"
    "same_outside (region B 0 0x210 \<union> region (FPUContextBase L) 0 8) (cmem c) (cmem c')"
    "qr c' = qr c" "sysr c' = sysr c" "3 < n \<Longrightarrow> xr c' n = xr c n"
    using eff c2 by simp_all
qed

lemma sync_fp_branch:
  assumes "sysr c ESR = push_bit 26 7"
  shows "\<exists>c3. SynchronousInterruptHandler L h c = exec restoreregister_full (storefloat L c3) \<and>
    cmem c3 = cmem (exec saveregister_full c) \<and> xr c3 31 = off (xr c 31) (- 0x110) \<and> qr c3 = qr c \<and>
    fp_enabled L c3 \<and> (\<forall>r. r \<noteq> CPTR \<longrightarrow> sysr c3 r = sysr c r)"
proof -
  let ?c1 = "exec (saveregister_full @ [MRS 0 ESR, ANDI 0 0 (push_bit 26 0x3F), LIT 1 (push_bit 26 7)]) c"
  have x: "xr ?c1 0 = xr ?c1 1" "cmem ?c1 = cmem (exec saveregister_full c)" "xr ?c1 31 = off (xr c 31) (- 0x110)"
    "qr ?c1 = qr c" "sysr ?c1 = sysr c"
    using assms saveregister_full_frame(1) [of c] saveregister_full_other [of c] by simp_all
  have "SynchronousInterruptHandler L h c = exec restoreregister_full (storefloat L (exec (fp_untrap L) ?c1))"
    unfolding SynchronousInterruptHandler_def Let_def using x(1) by simp
  then show ?thesis
    using x(2-5) by (intro exI [of _ "exec (fp_untrap L) ?c1"]) (simp add: fp_untrap_effect del: exec_simps)
qed

text \<open>
  The trap around \<open>storefloat\<close>, which runs in some state \<open>c3\<close>: if \<open>storefloat\<close> writes outside the frame of saved
  registers, all registers come back.
\<close>

lemma fp_trap_taken_frame:
  fixes c :: cpu and L :: labels and elr spsr :: u64
  defines "s \<equiv> xr c 31" and "c' \<equiv> fp_trap_taken L elr spsr c"
  shows "\<exists>c3. fp_ctx c3 = fp_ctx c \<and> same_outside (region s (- 0x110) 0) (cmem c) (cmem c3) \<and>
    (\<forall>R. same_outside R (cmem c3) (cmem (storefloat L c3)) \<and> region s (- 0x110) 0 \<inter> R = {} \<and>
       (\<forall>n > 3. xr (storefloat L c3) n = xr c3 n) \<and> qr (storefloat L c3) = qr c3 \<and> sysr (storefloat L c3) = sysr c3 \<longrightarrow>
       (\<forall>n \<le> 31. xr c' n = xr c n) \<and> fp_ctx c' = fp_ctx c \<and> fp_enabled L c' \<and> cmem c' = cmem (storefloat L c3))"
proof -
  define c0 where "c0 = (take_exception elr spsr c)\<lparr>sysr := (sysr (take_exception elr spsr c))(ESR := push_bit 26 7)\<rparr>"
  have c0: "xr c0 = xr c" "cmem c0 = cmem c" "qr c0 = qr c" "fp_ctx c0 = fp_ctx c" "sysr c0 ESR = push_bit 26 7"
    by (simp_all add: c0_def take_exception_def fp_ctx_def)
  have "c' = SynchronousInterruptHandler L (\<lambda>c. c) c0"
    by (simp add: c'_def fp_trap_taken_def Let_def c0_def)
  then obtain c3 where c': "c' = exec restoreregister_full (storefloat L c3)"
    and m3: "cmem c3 = cmem (exec saveregister_full c0)" and x3: "xr c3 31 = off s (- 0x110)"
    and q3: "qr c3 = qr c0" "fp_enabled L c3" "\<forall>r. r \<noteq> CPTR \<longrightarrow> sysr c3 r = sysr c0 r"
    using sync_fp_branch [OF c0(5), of L "\<lambda>c. c"] c0(1) by (auto simp: s_def)
  have ctx3: "fp_ctx c3 = fp_ctx c" using q3 c0(4) by (simp add: fp_ctx_def)
  have out3: "same_outside (region s (- 0x110) 0) (cmem c) (cmem c3)"
    using saveregister_full_mem [of c0] m3 c0(1,2) by (simp add: s_def)
  have "(\<forall>n \<le> 31. xr c' n = xr c n) \<and> fp_ctx c' = fp_ctx c \<and> fp_enabled L c' \<and> cmem c' = cmem c4"
    if c4: "c4 = storefloat L c3" and R: "same_outside R (cmem c3) (cmem c4)" "region s (- 0x110) 0 \<inter> R = {}"
      and x4: "\<forall>n > 3. xr c4 n = xr c3 n" and q4: "qr c4 = qr c3" "sysr c4 = sysr c3" for R c4
  proof -
    have sp: "xr c4 31 = off s (- 0x110)" using x4 x3 by simp
    have "region (off s (- 0x110)) 0 0x110 \<inter> R = {}" using R(2) by (simp add: region_off)
    then have "regs (regs_at (cmem c4) (xr c4 31)) = map (xr c) [0..<31]"
      using regs_at_same_outside [OF R(1)] saveregister_full_frame(2) [of c0] m3 c0(1) sp by (simp add: s_def)
    note frame = trans [OF restoreregister_full_frame(1) [of c4] this]
    note r = restoreregister_full_frame(2-5) [of c4]
    have "xr c' n = xr c n" if le: "n \<le> 31" for n
    proof (cases "n = 31")
      case True
      then show ?thesis using r(1) sp by (simp add: c' c4 [symmetric] s_def)
    next
      case False
      then have "n < 31" using le by simp
      then show ?thesis using arg_cong [OF frame, of "\<lambda>xs. xs ! n"] by (simp add: c' c4 [symmetric] del: upt_Suc)
    qed
    moreover have "fp_ctx c' = fp_ctx c" using r(3,4) q4 ctx3 by (simp add: c' c4 [symmetric] fp_ctx_def)
    moreover have "fp_enabled L c'" using r(4) q4(2) q3(2) fp_enabled_cong [of c' c3 L] by (simp add: c' c4 [symmetric])
    ultimately show ?thesis using r(2) by (simp add: c' c4 [symmetric])
  qed
  with ctx3 out3 show ?thesis by (intro exI [of _ c3]) blast
qed

lemma fp_trap_taken_effect:
  fixes c :: cpu and L :: labels and elr spsr :: u64
  defines "s \<equiv> xr c 31" and "V \<equiv> FPUContextBase L"
  assumes "cmem c (FPUStatus L) \<noteq> 0" and B: "load64 (cmem c) V = B"
    and "region B 0 0x210 \<inter> region V 0 8 = {}" and "region s (- 0x110) 0 \<inter> region V 0 8 = {}"
    and "region s (- 0x110) 0 \<inter> region B 0 0x210 = {}" and "FPUStatus L \<notin> region s (- 0x110) 0"
  defines "c' \<equiv> fp_trap_taken L elr spsr c"
  shows "n \<le> 31 \<Longrightarrow> xr c' n = xr c n" "fp_ctx c' = fp_ctx c" "fp_enabled L c'"
    "fp_ctx_at (cmem c') B = fp_ctx c" "load64 (cmem c') V = off B 0x210"
    "same_outside (region s (- 0x110) 0 \<union> (region B 0 0x210 \<union> region V 0 8)) (cmem c) (cmem c')"
proof -
  let ?R = "region B 0 0x210 \<union> region V 0 8"
  obtain c3 where ctx3: "fp_ctx c3 = fp_ctx c" and out3: "same_outside (region s (- 0x110) 0) (cmem c) (cmem c3)"
    and fr: "\<forall>R. same_outside R (cmem c3) (cmem (storefloat L c3)) \<and> region s (- 0x110) 0 \<inter> R = {} \<and>
       (\<forall>n > 3. xr (storefloat L c3) n = xr c3 n) \<and> qr (storefloat L c3) = qr c3 \<and> sysr (storefloat L c3) = sysr c3 \<longrightarrow>
       (\<forall>n \<le> 31. xr c' n = xr c n) \<and> fp_ctx c' = fp_ctx c \<and> fp_enabled L c' \<and> cmem c' = cmem (storefloat L c3)"
    using fp_trap_taken_frame [of c L elr spsr, folded s_def c'_def] by blast
  have "region V 0 8 \<inter> region s (- 0x110) 0 = {}" using assms(6) by blast
  then have B3: "load64 (cmem c3) V = B" using load_same_outside(1) [OF out3, of V 0] B by simp
  have st3: "cmem c3 (FPUStatus L) \<noteq> 0" using out3 assms(3,8) by (simp add: same_outside_def)
  note sf = savefloat_path [OF st3 B3 [unfolded V_def] assms(5) [unfolded V_def], folded V_def]
  have "region s (- 0x110) 0 \<inter> ?R = {}" using assms(6,7) by blast
  then have c': "(\<forall>n \<le> 31. xr c' n = xr c n) \<and> fp_ctx c' = fp_ctx c \<and> fp_enabled L c' \<and> cmem c' = cmem (storefloat L c3)"
    using spec [OF fr, of ?R] sf(3-6) by blast
  then show "n \<le> 31 \<Longrightarrow> xr c' n = xr c n" "fp_ctx c' = fp_ctx c" "fp_enabled L c'" by simp_all
  show "fp_ctx_at (cmem c') B = fp_ctx c" "load64 (cmem c') V = off B 0x210" using c' sf(1,2) ctx3 by simp_all
  show "same_outside (region s (- 0x110) 0 \<union> ?R) (cmem c) (cmem c')"
    using c' same_outside_trans [OF out3 sf(3)] by (simp add: le_supI1 le_supI2)
qed

section \<open>The first floating point instruction of all\<close>

text \<open>With \<open>FPUStatus\<close> clear the trap saves nothing and initialises the context stack as empty.\<close>

lemma storefloat_first:
  assumes "cmem c (FPUStatus L) = 0" and "FPUStatus L \<notin> region (FPUContextBase L) 0 8"
  shows "load64 (cmem (storefloat L c)) (FPUContextBase L) = FPUContext L" "cmem (storefloat L c) (FPUStatus L) = 1"
    "same_outside ({FPUStatus L} \<union> region (FPUContextBase L) 0 8) (cmem c) (cmem (storefloat L c))"
    "qr (storefloat L c) = qr c" "sysr (storefloat L c) = sysr c" "3 < n \<Longrightarrow> xr (storefloat L c) n = xr c n"
proof -
  let ?m = "(cmem c)(FPUStatus L := 1)"
  have m: "cmem (storefloat L c) = store64 ?m (FPUContextBase L) (FPUContext L)"
    using assms(1) by (simp add: storefloat_def Let_def)
  have out: "same_outside (region (FPUContextBase L) 0 8) ?m (cmem (storefloat L c))"
    unfolding m using store64_same_outside [of "FPUContextBase L" 0] by simp
  show "load64 (cmem (storefloat L c)) (FPUContextBase L) = FPUContext L" by (simp add: m)
  show "cmem (storefloat L c) (FPUStatus L) = 1" using out assms(2) by (simp add: same_outside_def)
  show "same_outside ({FPUStatus L} \<union> region (FPUContextBase L) 0 8) (cmem c) (cmem (storefloat L c))"
    using out by (simp add: same_outside_def)
  show "qr (storefloat L c) = qr c" "sysr (storefloat L c) = sysr c" "3 < n \<Longrightarrow> xr (storefloat L c) n = xr c n"
    using assms(1) by (simp_all add: storefloat_def Let_def)
qed


lemma fp_trap_taken_first:
  fixes c :: cpu and L :: labels and elr spsr :: u64
  defines "s \<equiv> xr c 31" and "V \<equiv> FPUContextBase L"
  assumes "cmem c (FPUStatus L) = 0" and "FPUStatus L \<notin> region V 0 8"
    and "region s (- 0x110) 0 \<inter> region V 0 8 = {}" and "FPUStatus L \<notin> region s (- 0x110) 0"
  defines "c' \<equiv> fp_trap_taken L elr spsr c"
  shows "n \<le> 31 \<Longrightarrow> xr c' n = xr c n" "fp_enabled L c'" "load64 (cmem c') V = FPUContext L" "cmem c' (FPUStatus L) = 1"
    "same_outside (region s (- 0x110) 0 \<union> ({FPUStatus L} \<union> region V 0 8)) (cmem c) (cmem c')"
proof -
  let ?R = "{FPUStatus L} \<union> region V 0 8"
  obtain c3 where out3: "same_outside (region s (- 0x110) 0) (cmem c) (cmem c3)"
    and fr: "\<forall>R. same_outside R (cmem c3) (cmem (storefloat L c3)) \<and> region s (- 0x110) 0 \<inter> R = {} \<and>
       (\<forall>n > 3. xr (storefloat L c3) n = xr c3 n) \<and> qr (storefloat L c3) = qr c3 \<and> sysr (storefloat L c3) = sysr c3 \<longrightarrow>
       (\<forall>n \<le> 31. xr c' n = xr c n) \<and> fp_ctx c' = fp_ctx c \<and> fp_enabled L c' \<and> cmem c' = cmem (storefloat L c3)"
    using fp_trap_taken_frame [of c L elr spsr, folded s_def c'_def] by blast
  have "cmem c3 (FPUStatus L) = 0" using out3 assms(3,6) by (simp add: same_outside_def)
  note sf = storefloat_first [OF this assms(4) [unfolded V_def], folded V_def]
  have "region s (- 0x110) 0 \<inter> ?R = {}" using assms(5,6) by blast
  then have c': "(\<forall>n \<le> 31. xr c' n = xr c n) \<and> fp_ctx c' = fp_ctx c \<and> fp_enabled L c' \<and> cmem c' = cmem (storefloat L c3)"
    using spec [OF fr, of ?R] sf(3-6) by blast
  then show "n \<le> 31 \<Longrightarrow> xr c' n = xr c n" "fp_enabled L c'" "load64 (cmem c') V = FPUContext L" "cmem c' (FPUStatus L) = 1"
    using sf(1,2) by simp_all
  have "same_outside (region s (- 0x110) 0 \<union> ?R) (cmem c) (cmem (storefloat L c3))"
    by (rule same_outside_trans [OF out3 sf(3)]) auto
  with c' show "same_outside (region s (- 0x110) 0 \<union> ?R) (cmem c) (cmem c')" by simp
qed


section \<open>What the C++ side sees\<close>

lemma sync_handler_frame:
  assumes "sysr c ESR AND push_bit 26 0x3F \<noteq> push_bit 26 7"
  shows "\<exists>c1. SynchronousInterruptHandler L h c = exec restoreregister_full (h c1) \<and> xr c1 0 = xr c1 31 \<and>
    xr c1 31 = off (xr c 31) (- 0x110) \<and> qr c1 = qr c \<and> sysr c1 = sysr c \<and>
    regs_at (cmem c1) (xr c1 31) = \<lparr>regs = map (xr c) [0..<31], sp = xr c 31, pc = sysr c ELR, pstate = sysr c SPSR\<rparr>"
proof -
  let ?c = "exec saveregister_full c"
  let ?c0 = "exec (saveregister_full @ [MRS 0 ESR, ANDI 0 0 (push_bit 26 0x3F), LIT 1 (push_bit 26 7)]) c"
  have x: "xr ?c0 0 \<noteq> xr ?c0 1" "cmem ?c0 = cmem ?c" "xr ?c0 31 = off (xr c 31) (- 0x110)" "qr ?c0 = qr c" "sysr ?c0 = sysr c"
    using assms saveregister_full_frame(1) [of c] saveregister_full_other [of c] by simp_all
  have "SynchronousInterruptHandler L h c = exec restoreregister_full (h (exec [MOV 0 31] ?c0))"
    unfolding SynchronousInterruptHandler_def Let_def using x(1) by simp
  moreover have "cmem (exec [MOV 0 31] ?c0) = cmem ?c" "xr (exec [MOV 0 31] ?c0) 31 = off (xr c 31) (- 0x110)"
      "xr (exec [MOV 0 31] ?c0) 0 = xr (exec [MOV 0 31] ?c0) 31" "qr (exec [MOV 0 31] ?c0) = qr c" "sysr (exec [MOV 0 31] ?c0) = sysr c"
    using x(2-5) by simp_all
  ultimately show ?thesis
    using saveregister_full_frame(2) [of c] by (intro exI [of _ "exec [MOV 0 31] ?c0"]) simp
qed

text \<open>\<open>Aarch64_FpRegs\<close> behind a pointer.\<close>

definition fpregs_at :: "memory \<Rightarrow> u64 \<Rightarrow> Aarch64_FpRegs" where
  "fpregs_at m a = \<lparr>vregs = qregs_at m a, fpsr = le_word (mem_read m (off a 0x200) 4), fpcr = le_word (mem_read m (off a 0x204) 4)\<rparr>"

lemma store64_halves:
  "(le_word (mem_read (store64 m a v) a 4) :: u32) = ucast v"
  "(le_word (mem_read (store64 m a v) (off a 4) 4) :: u32) = ucast (drop_bit 32 v)"
proof -
  have shift: "32 + (8 * (i - 4) + n) = 8 * i + n" if "\<not> i < 4" for i n :: nat using that by arith
  have "mem_read (store64 m a v) a 8 = le_bytes 8 v"
    using mem_read_write [of "le_bytes 8 v" m a] by (simp add: store64_def)
  moreover have "mem_read (store64 m a v) a 8 = mem_read (store64 m a v) a 4 @ mem_read (store64 m a v) (off a 4) 4"
    using mem_read_append [of "store64 m a v" a 4 4] by (simp add: off_def)
  moreover have "le_bytes 8 v = le_bytes 4 (ucast v :: u32) @ le_bytes 4 (ucast (drop_bit 32 v) :: u32)"
    by (rule nth_equalityI) (auto simp: le_bytes_def nth_append drop_bit_drop_bit bit_simps shift intro!: bit_word_eqI)
  ultimately have "mem_read (store64 m a v) a 4 = le_bytes 4 (ucast v :: u32)"
    "mem_read (store64 m a v) (off a 4) 4 = le_bytes 4 (ucast (drop_bit 32 v) :: u32)"
    by (simp_all add: append_eq_append_conv)
  then show "(le_word (mem_read (store64 m a v) a 4) :: u32) = ucast v"
    "(le_word (mem_read (store64 m a v) (off a 4) 4) :: u32) = ucast (drop_bit 32 v)" by simp_all
qed


text \<open>
  The instructions of \<open>saveFpuState\<close> compute what theory Monitor says, with the pair of 64-bit stores overlapping
  the two 32-bit fields.
\<close>

lemma saveFpuState_asm_layout:
  "fpregs_at (cmem (exec saveFpuState_asm c)) (xr c 0) =
     saveFpuState \<lparr>Q = map (qr c) [0..<32], FPSR = sysr c SYS_FPSR, FPCR = sysr c SYS_FPCR\<rparr>"
proof -
  define c1 where "c1 = exec (stpq_all 0) c"
  note q = stpq_all_frame [of c, folded c1_def]
  let ?m1 = "store64 (cmem c1) (off (xr c 0) 0x200) (sysr c SYS_FPSR)"
  let ?m = "store64 ?m1 (off (xr c 0) 0x208) (sysr c SYS_FPCR)"
  have m: "cmem (exec saveFpuState_asm c) = ?m"
    using q(2,4) by (simp add: saveFpuState_asm_def Let_def c1_def [symmetric])
  have "qregs_at ?m (xr c 0) = map (qr c) [0..<32]"
    using qregs_at_store_after [of 0 "cmem c1" "xr c 0"] qregs_at_store_after [of 1 ?m1 "xr c 0"] q(1) by simp
  moreover have "mem_read ?m (off (xr c 0) i) 4 = mem_read ?m1 (off (xr c 0) i) 4" if "i \<le> 0x204" "0 \<le> i" for i
    using mem_read_write_apart [of i 4 "0x208" "le_bytes 8 (sysr c SYS_FPCR)" ?m1 "xr c 0"] that
    by (simp add: store64_def off_def)
  moreover have "(le_word (mem_read ?m1 (off (xr c 0) 0x200) 4) :: u32) = ucast (sysr c SYS_FPSR)"
    "(le_word (mem_read ?m1 (off (xr c 0) 0x204) 4) :: u32) = ucast (drop_bit 32 (sysr c SYS_FPSR))"
    using store64_halves [of "cmem c1" "off (xr c 0) 0x200" "sysr c SYS_FPSR"] by simp_all
  ultimately show ?thesis by (simp add: m fpregs_at_def saveFpuState_def)
qed

text \<open>Fast interrupts are entered and left like interrupts: the two handlers differ in the function they call.\<close>

lemma FIQ_like_IRQ: "FIQInterruptHandler = IRQInterruptHandler"
  by (intro ext) (simp add: FIQInterruptHandler_def IRQInterruptHandler_def)

text \<open>
  The system error handler returns the registers it saves: \<open>x0\<close> to \<open>x19\<close>, \<open>x29\<close>, \<open>x30\<close> and the stack pointer; the others are
  preserved by the C++ function according to the calling convention.
\<close>

lemma saveregister_frame:
  "map (xr c) ([0..<20] @ [29, 30]) = take 22 (irq_saved (cmem (exec saveregister c)) (xr c 31))"
  "xr (exec saveregister c) 31 = off (xr c 31) (- 0xB0)" "n \<noteq> 31 \<Longrightarrow> xr (exec saveregister c) n = xr c n"
  unfolding saveregister_def irq_saved_def upt20 by (simp_all add: Let_def)

lemma restoreregister_frame:
  assumes "xr c 31 = off s (- 0xB0)"
  shows "map (xr (exec restoreregister c)) ([0..<20] @ [29, 30]) = take 22 (irq_saved (cmem c) s)"
    and "xr (exec restoreregister c) 31 = s" and "19 < n \<Longrightarrow> n < 29 \<Longrightarrow> xr (exec restoreregister c) n = xr c n"
  using assms unfolding restoreregister_def irq_saved_def upt20 by (simp_all add: Let_def)

lemma SError_registers:
  assumes "xr (handler c1) 31 = xr c1 31" and "c1 = exec saveregister c" and "\<And>n. 20 \<le> n \<Longrightarrow> n < 29 \<Longrightarrow> xr (handler c1) n = xr c1 n"
    and "same_outside (- region (xr c1 31) 0 0xB0) (cmem c1) (cmem (handler c1))"
  shows "map (xr (SErrorInterruptHandler handler c)) ([0..<20] @ [29, 30]) = map (xr c) ([0..<20] @ [29, 30])"
      "xr (SErrorInterruptHandler handler c) 31 = xr c 31"
    and "20 \<le> n \<Longrightarrow> n < 29 \<Longrightarrow> xr (SErrorInterruptHandler handler c) n = xr c n"
proof -
  let ?s = "xr c 31"
  have sp: "xr c1 31 = off ?s (- 0xB0)" using saveregister_frame(2) assms(2) by simp
  have "load64 (cmem (handler c1)) (off ?s i) = load64 (cmem c1) (off ?s i)" if "- 0xB0 \<le> i" "i + 8 \<le> 0" for i
    using load_same_outside(1) [OF assms(4), of ?s i] region_mono [OF that, of ?s] by (auto simp: sp region_off)
  then have saved: "take 22 (irq_saved (cmem (handler c1)) ?s) = take 22 (irq_saved (cmem c1) ?s)"
    by (simp add: irq_saved_def)
  have h: "xr (handler c1) 31 = off ?s (- 0xB0)" using assms(1) sp by simp
  note re = restoreregister_frame [OF h]
  show "map (xr (SErrorInterruptHandler handler c)) ([0..<20] @ [29, 30]) = map (xr c) ([0..<20] @ [29, 30])"
      "xr (SErrorInterruptHandler handler c) 31 = xr c 31"
    using re(1,2) saved saveregister_frame(1) [of c] assms(2) unfolding SErrorInterruptHandler_def by metis+
  show "20 \<le> n \<Longrightarrow> n < 29 \<Longrightarrow> xr (SErrorInterruptHandler handler c) n = xr c n"
    using re(3) [of n] assms(2,3) saveregister_frame(3) [of n c] by (simp add: SErrorInterruptHandler_def)
qed

text \<open>The header that is assembled into every payload passes the monitor's check.\<close>

lemma image_header_ok:
  assumes "length jump = 8"
  shows "header_ok (decode_header (image_header jump v n @ rest))" and "length (image_header jump v n) = 32"
proof -
  have "image_header jump v n = encode_header \<lparr>thunk = jump, magic = ABI_MAGIC_NUMBER, abi_major = ABI_MAJOR,
      abi_minor = ABI_MINOR, res0 = le_bytes 2 (0 :: 16 word), load_address = v, program_size = n\<rparr>"
    by (simp add: image_header_def encode_header_def)
  then show "header_ok (decode_header (image_header jump v n @ rest))"
    using assms decode_encode_header by (simp add: header_ok_def)
  show "length (image_header jump v n) = 32" using assms by (simp add: image_header_def)
qed

text \<open>
  What \<open>enterEL1Payload\<close> sets up: execution continues at the payload's address at EL1 with the stack pointer of that
  level and no exception masked; from there external aborts, system errors and fast interrupts are taken to EL3,
  other interrupts are not, and EL1 is not secure and executes AArch64 code.
\<close>

lemma enterEL1Payload_effect:
  defines "c' c \<equiv> exec enterEL1Payload c"
  shows "sysr (c' c) ELR = xr c 0" "sysr (c' c) SPSR AND 0b11111 = 0b00101" "sysr (c' c) SPSR AND 0x3C0 = 0"
    and "bit (sysr (c' c) SCR_EL3) 3" "bit (sysr (c' c) SCR_EL3) 2" "\<not> bit (sysr (c' c) SCR_EL3) 1"
    and "bit (sysr (c' c) SCR_EL3) 0" "bit (sysr (c' c) SCR_EL3) 10" "bit (sysr (c' c) HCR_EL2) 31"
    and "cmem (c' c) = cmem c" "xr (c' c) 0 = xr c 0"
  by (simp_all add: c'_def enterEL1Payload_def bit_simps)

text \<open>
  C25: the registers of the interrupted code reach the C++ handler and come back from it. On a synchronous exception
  that is not a floating point trap, the handler is called with a pointer to an \<open>Aarch64_Regs\<close> on the stack that
  holds exactly the 31 registers, the stack pointer at the exception, the exception return address and the saved
  processor state; when it returns with its stack pointer restored, the interrupted code continues with the 31
  register values the structure holds by then, so that the result of a service call written to \<open>regs[0]\<close> arrives
  in \<open>x0\<close>, and with its own stack pointer.
\<close>

theorem exception_frame:
  assumes "sysr c ESR AND push_bit 26 0x3F \<noteq> push_bit 26 7" and "\<forall>c. xr (handler c) 31 = xr c 31"
  shows "\<exists>c1. xr c1 0 = xr c1 31 \<and>
    regs_at (cmem c1) (xr c1 0) = \<lparr>regs = map (xr c) [0..<31], sp = xr c 31, pc = sysr c ELR, pstate = sysr c SPSR\<rparr> \<and>
    map (xr (SynchronousInterruptHandler L handler c)) [0..<31] = regs (regs_at (cmem (handler c1)) (xr c1 0)) \<and>
    xr (SynchronousInterruptHandler L handler c) 31 = xr c 31"
proof -
  obtain c1 where c1: "SynchronousInterruptHandler L handler c = exec restoreregister_full (handler c1)"
      "xr c1 0 = xr c1 31" "xr c1 31 = off (xr c 31) (- 0x110)"
      "regs_at (cmem c1) (xr c1 31) = \<lparr>regs = map (xr c) [0..<31], sp = xr c 31, pc = sysr c ELR, pstate = sysr c SPSR\<rparr>"
    using sync_handler_frame [OF assms(1)] by blast
  then show ?thesis
    using restoreregister_full_frame(1,2) [of "handler c1"] assms(2) by (intro exI [of _ c1]) (simp del: upt_Suc)
qed

text \<open>A handler that writes 77 to \<open>regs[0]\<close>.\<close>

theorem exception_frame_witness:
  "xr (SynchronousInterruptHandler \<lparr>at_EL3 = True, FPUContext = 0, FPUContextBase = 0, FPUStatus = 0\<rparr>
      (\<lambda>c. c\<lparr>cmem := store64 (cmem c) (xr c 0) 77\<rparr>)
      \<lparr>xr = of_nat, qr = of_nat, sysr = (\<lambda>_. push_bit 26 0x17), cmem = (\<lambda>_. 0)\<rparr>) 0 = 77"
proof -
  let ?h = "\<lambda>c :: cpu. c\<lparr>cmem := store64 (cmem c) (xr c 0) 77\<rparr>"
  let ?c = "\<lparr>xr = of_nat, qr = of_nat, sysr = (\<lambda>_. push_bit 26 0x17), cmem = (\<lambda>_. 0)\<rparr>"
  let ?L = "\<lparr>at_EL3 = True, FPUContext = 0, FPUContextBase = 0, FPUStatus = 0\<rparr>"
  obtain c1 where c1: "map (xr (SynchronousInterruptHandler ?L ?h ?c)) [0..<31] = regs (regs_at (cmem (?h c1)) (xr c1 0))"
    using exception_frame [of ?c ?h ?L] by auto
  have "regs (regs_at (cmem (?h c1)) (xr c1 0)) ! 0 = 77"
    by (simp add: regs_at_def del: upt_Suc)
  with arg_cong [OF c1, of "\<lambda>xs. xs ! 0"] show ?thesis by (simp del: upt_Suc)
qed

end
