(* ===== verification/Boot.thy ===== *)
theory Boot
  imports Mmu Vectors
begin

text \<open>
  Start-up code: \<open>boot.S\<close> and \<open>xil-crt0.S\<close> of \<open>src/platform/zynqmp/executor\<close>, assembled once for the monitor (EL3) and
  once for payloads (EL1, not secure). The code sets up vectors, stack, floating point trap, translation and
  caches, then clears the uninitialised data. The lemmas say what state the C++ code finds.
\<close>

section \<open>boot.S\<close>

text \<open>\<open>boot_labs\<close> are the addresses of the vectors' data; the others are symbols of the linker.\<close>

record boot_labels =
  boot_labs :: labels
  vector_base :: u64
  EL_stack :: u64
  L0Table :: u64

definition InitEL3_first :: "boot_labels \<Rightarrow> instr list" where
  "InitEL3_first B =
     [LIT 1 (vector_base B), MSR VBAR 1,
      MRS 0 MPIDR_EL1, ANDI 0 0 0xFF, MOVW 0 0, LIT 2 0xFD5C0040, LIT 3 8, MULW 0 0 3, ADDW 2 2 0, STRX 1 2 (Off 0),
      LIT 2 (EL_stack B), MOV 31 2,
      LIT 0 0, ORRI 0 0 (push_bit 10 1), MSR CPTR 0,
      LIT 0 (FPUStatus (boot_labs B)), STXZR 0 (Off 0),
      LIT 1 0, ORRI 1 1 (push_bit 11 1), ORRI 1 1 (push_bit 10 1), ORRI 1 1 (push_bit 3 1), ORRI 1 1 (push_bit 2 1),
      ORRI 1 1 (push_bit 1 1), MSR SCR_EL3 1,
      LIT 0 0x80CA000, MSR CPUACTLR_EL1 0,
      MRS 0 CPUECTLR_EL1, ORRI 0 0 (push_bit 6 1), MSR CPUECTLR_EL1 0]"

definition InitEL3_second :: "boot_labels \<Rightarrow> instr list" where
  "InitEL3_second B =
     [LIT 1 (L0Table B), MSR TTBR0 1, LIT 1 0x000000BB0400FF44, MSR MAIR 1, LIT 1 0x80823518, MSR TCR 1,
      MRS 1 SYS_DAIF, BICI 1 1 (push_bit 8 1), MSR SYS_DAIF 1,
      LIT 1 0, ORRI 1 1 (push_bit 12 1), ORRI 1 1 (push_bit 3 1), ORRI 1 1 (push_bit 2 1), ORRI 1 1 (push_bit 0 1), MSR SCTLR 1]"

definition InitEL1_first :: "boot_labels \<Rightarrow> instr list" where
  "InitEL1_first B =
     [LIT 1 (vector_base B), MSR VBAR 1,
      MRS 0 CPTR, BICI 0 0 (push_bit 20 3), MSR CPTR 0,
      LIT 0 (FPUStatus (boot_labs B)), STXZR 0 (Off 0),
      LIT 2 (EL_stack B), MOV 31 2,
      LIT 1 0, MSR SCTLR 1]"

definition InitEL1_second :: "boot_labels \<Rightarrow> instr list" where
  "InitEL1_second B =
     [LIT 1 (L0Table B), MSR TTBR0 1, LIT 1 0x000000BB0400FF44, MSR MAIR 1, LIT 1 0x285800518, MSR TCR 1,
      MRS 1 SYS_DAIF, BICI 1 1 (push_bit 8 1), MSR SYS_DAIF 1,
      LIT 1 0, ORRI 1 1 (push_bit 18 1), ORRI 1 1 (push_bit 17 1), ORRI 1 1 (push_bit 5 1), ORRI 1 1 (push_bit 12 1),
      ORRI 1 1 (push_bit 2 1), ORRI 1 1 (push_bit 0 1), MSR SCTLR 1]"

text \<open>
  Between the two parts the caches are invalidated by \<open>invalidate_dcaches\<close> (below), which uses \<open>x0\<close> to \<open>x9\<close>; \<open>scratch\<close> is
  what it leaves there, and in the link register.
\<close>

definition clobber :: "(nat \<Rightarrow> u64) \<Rightarrow> cpu \<Rightarrow> cpu" where
  "clobber scratch c = c\<lparr>xr := (\<lambda>n. if n < 10 \<or> n = 30 then scratch n else xr c n)\<rparr>"

text \<open>\<open>None\<close>: the endless loop at \<open>error\<close>.\<close>

definition boot :: "boot_labels \<Rightarrow> u64 \<Rightarrow> (nat \<Rightarrow> u64) \<Rightarrow> cpu \<Rightarrow> cpu option" where
  "boot B currentEL scratch c =
     (let c1 = set_x 0 currentEL (exec (map (\<lambda>i. LIT i 0) [0..<31]) c) in
      if currentEL = 0xC then
        if at_EL3 (boot_labs B) then Some (exec (InitEL3_second B) (clobber scratch (exec (InitEL3_first B) c1))) else None
      else if currentEL = 0x4 then
        if at_EL3 (boot_labs B) then None else Some (exec (InitEL1_second B) (clobber scratch (exec (InitEL1_first B) c1)))
      else None)"

section \<open>Cache invalidation\<close>

definition ubfx :: "nat \<Rightarrow> nat \<Rightarrow> u32 \<Rightarrow> u32" where
  "ubfx lsb width w = drop_bit lsb w AND mask width"

definition clz :: "u32 \<Rightarrow> nat" where
  "clz w = length (takeWhile (\<lambda>i. \<not> bit w i) (rev [0..<32]))"

text \<open>A loop that counts down to zero and tests at its end.\<close>

fun countdown :: "nat \<Rightarrow> nat list" where
  "countdown 0 = [0]"
| "countdown (Suc n) = Suc n # countdown n"

text \<open>The operand of \<open>dc cisw\<close>; \<open>lsl\<close> by a register uses the amount modulo 32.\<close>

definition cisw_operand :: "u32 \<Rightarrow> u32 \<Rightarrow> nat \<Rightarrow> u32 \<Rightarrow> u32 \<Rightarrow> u32" where
  "cisw_operand w1 w3 w6 w5 w8 = push_bit 1 w1 OR push_bit (unat w3 mod 32) w5 OR push_bit (w6 mod 32) w8"

text \<open>The operands for one level, in order; \<open>w4\<close> is the value of \<open>CCSIDR_EL1\<close> for the level.\<close>

definition flush_level :: "u32 \<Rightarrow> u32 \<Rightarrow> u32 list" where
  "flush_level w1 w4 =
     (let w3 = ubfx 0 3 w4 + 2;
          w5 = ubfx 13 15 w4;
          w4' = ubfx 3 10 w4;
          w6 = clz w4' in
      concat (map (\<lambda>s. map (\<lambda>w. cisw_operand w1 w3 w6 (of_nat s) (of_nat w)) (countdown (unat w4'))) (countdown (unat w5))))"

text \<open>All levels below the level of coherence \<open>w2\<close> that have a data cache.\<close>

function flush_levels :: "u32 \<Rightarrow> (nat \<Rightarrow> u32) \<Rightarrow> nat \<Rightarrow> nat \<Rightarrow> u32 list" where
  "flush_levels clidr ccsidr w2 w1 =
     (if w1 < w2 then
        (if drop_bit (3 * w1) clidr AND 7 < 2 then [] else flush_level (of_nat w1) (ccsidr w1)) @
        flush_levels clidr ccsidr w2 (Suc w1)
      else [])"
  by auto

termination flush_levels
  by (relation "measure (\<lambda>(clidr, ccsidr, w2, w1). w2 - w1)") auto

definition invalidate_dcaches :: "u32 \<Rightarrow> (nat \<Rightarrow> u32) \<Rightarrow> u32 list" where
  "invalidate_dcaches clidr ccsidr = flush_levels clidr ccsidr (unat (ubfx 24 3 clidr)) 0"

section \<open>xil-crt0.S\<close>

text \<open>The loops \<open>.Lloop_sbss\<close> and \<open>.Lloop_bss\<close>; \<open>bge\<close> compares signed numbers.\<close>

partial_function (option) clear_loop :: "u64 \<Rightarrow> u64 \<Rightarrow> memory \<Rightarrow> memory option" where
  "clear_loop x1 x2 m = (if sint x2 \<le> sint x1 then Some m else clear_loop (x1 + 8) x2 (store64 m x1 0))"

text \<open>
  \<open>_startup\<close> up to the calls of constructors and \<open>main\<close>. For EL3, \<open>PWRCTL\<close> is the value of the register at
  \<open>APU_PWRCTL\<close>; a bit that is set for this core keeps the data of the last run.
\<close>

definition startup_clear :: "bool \<Rightarrow> u32 \<Rightarrow> u64 \<Rightarrow> u64 \<times> u64 \<Rightarrow> u64 \<times> u64 \<Rightarrow> memory \<Rightarrow> memory option" where
  "startup_clear EL3 PWRCTL mpidr sbss bss m =
     (if EL3 \<and> PWRCTL AND push_bit (unat (mpidr AND 0xFF) mod 32) 1 \<noteq> 0 then Some m
      else Option.bind (clear_loop (fst sbss) (snd sbss) m) (clear_loop (fst bss) (snd bss)))"

section \<open>Clearing\<close>

lemma sint_small:
  fixes a :: u64
  assumes "unat a < 2 ^ 63"
  shows "sint a = int (unat a)"
proof -
  have "int (unat a) < int (2 ^ 63)" using assms by (simp only: of_nat_less_iff)
  then have "uint a < 2 ^ 63" by simp
  moreover have "0 \<le> uint a" by simp
  ultimately have "signed_take_bit 63 (uint a) = uint a"
    by (subst signed_take_bit_int_eq_self_iff) linarith
  then show ?thesis by (simp add: sint_uint)
qed

lemma le_bytes_zero: "le_bytes n 0 = replicate n 0"
  by (simp add: le_bytes_def map_replicate_const)

lemma clear_loop_clears:
  assumes "unat x1 + 8 * n < 2 ^ 63" and "unat x2 = unat x1 + 8 * n"
  shows "clear_loop x1 x2 m = Some (mem_write m x1 (replicate (8 * n) 0))"
  using assms
proof (induction n arbitrary: x1 m)
  case 0
  then show ?case by (subst clear_loop.simps) (simp add: sint_small)
next
  case (Suc n)
  have "unat (x1 + 8) = unat x1 + 8" using Suc.prems by (subst unat_add_lem [THEN iffD1]) simp_all
  then have "clear_loop (x1 + 8) x2 (store64 m x1 0) = Some (mem_write (store64 m x1 0) (x1 + 8) (replicate (8 * n) 0))"
    using Suc.prems by (intro Suc.IH) simp_all
  moreover have "\<not> sint x2 \<le> sint x1" using Suc.prems by (simp add: sint_small)
  moreover have "mem_write (store64 m x1 0) (x1 + 8) (replicate (8 * n) 0) = mem_write m x1 (replicate 8 0 @ replicate (8 * n) 0)"
    by (simp add: store64_def le_bytes_zero mem_write_append)
  ultimately show ?case by (subst clear_loop.simps) (simp add: replicate_add)
qed

section \<open>The state after boot.S\<close>

lemma region8: "region a 0 8 = {off a 0, off a 1, off a 2, off a 3, off a 4, off a 5, off a 6, off a 7}"
proof -
  have "{0..<8} = {0, 1, 2, 3, 4, 5, 6, 7 :: int}" by auto
  then show ?thesis by (simp add: region_def)
qed

lemma clobber_simps [simp]:
  "cmem (clobber s c) = cmem c" "sysr (clobber s c) = sysr c" "qr (clobber s c) = qr c" "xr (clobber s c) 31 = xr c 31"
  by (simp_all add: clobber_def)

lemma cleared_bits: "\<not> bit (x AND - 257 :: u64) 8" "(x AND - 3145729) AND 0x100000 = (0 :: u64)"
proof -
  have "- 257 = NOT (push_bit 8 1 :: u64)" by simp
  then show "\<not> bit (x AND - 257 :: u64) 8" by (simp only: bit_and_iff bit_not_iff bit_push_bit_iff) simp
  show "(x AND - 3145729) AND 0x100000 = (0 :: u64)" by (simp add: and.assoc)
qed

lemma InitEL1_first_effect:
  fixes B
  defines "c' \<equiv> exec (InitEL1_first B)"
  shows "xr (c' c) 31 = EL_stack B" "sysr (c' c) VBAR = vector_base B" "sysr (c' c) SYS_DAIF = sysr c SYS_DAIF"
    "sysr (c' c) CPTR AND push_bit 20 1 = 0" "cmem (c' c) = store64 (cmem c) (FPUStatus (boot_labs B)) 0"
  by (simp_all add: c'_def InitEL1_first_def cleared_bits)

lemma InitEL1_second_effect:
  fixes B
  defines "c' \<equiv> exec (InitEL1_second B)"
  shows "xr (c' c) 31 = xr c 31" "sysr (c' c) VBAR = sysr c VBAR" "sysr (c' c) TTBR0 = L0Table B"
    "sysr (c' c) MAIR = 0x000000BB0400FF44" "sysr (c' c) TCR AND 0x3F = 24" "\<not> bit (sysr (c' c) SYS_DAIF) 8"
    "bit (sysr (c' c) SCTLR) 0" "bit (sysr (c' c) SCTLR) 2" "bit (sysr (c' c) SCTLR) 12" "sysr (c' c) CPTR = sysr c CPTR" "cmem (c' c) = cmem c"
  by (simp_all add: c'_def InitEL1_second_def cleared_bits bit_simps)

lemma rvbar_address:
  "ucast (0xFD5C0040 + (ucast (ucast ((ucast (ucast (ucast (m AND 0xFF :: u64) :: u32) :: u64) :: u32) * 8) :: u64) :: u32)) =
     (0xFD5C0040 + 8 * (m AND 0xFF) :: u64)"
proof -
  have "unat (m AND 0xFF) < 256" using word_and_le1 [of m "0xFF"] by (simp add: word_le_nat_alt)
  then obtain n where n: "m AND 0xFF = of_nat n" "n < 256"
    using that [of "unat (m AND 0xFF)"] by simp
  have u: "ucast (of_nat k :: u64) = (of_nat k :: u32)" "ucast (of_nat k :: u32) = (of_nat k :: u64)" if "k < 2 ^ 32" for k
    using that by (simp_all add: unsigned_of_nat take_bit_nat_eq_self)
  have "of_nat n * 8 = (of_nat (n * 8) :: u32)" "0xFD5C0040 + of_nat (n * 8) = (of_nat (0xFD5C0040 + n * 8) :: u32)" by simp_all
  then show ?thesis using n u(1) [of n] u(2) [of n] u(1) [of "n * 8"] u(2) [of "n * 8"] u(2) [of "0xFD5C0040 + n * 8"] by simp
qed

lemma InitEL3_first_effect:
  fixes B
  defines "c' \<equiv> exec (InitEL3_first B)"
  shows "xr (c' c) 31 = EL_stack B" "sysr (c' c) VBAR = vector_base B" "sysr (c' c) SYS_DAIF = sysr c SYS_DAIF"
    "sysr (c' c) CPTR AND push_bit 10 1 \<noteq> 0"
    "cmem (c' c) = store64 (store64 (cmem c) (0xFD5C0040 + 8 * (sysr c MPIDR_EL1 AND 0xFF)) (vector_base B)) (FPUStatus (boot_labs B)) 0"
  by (simp_all add: c'_def InitEL3_first_def rvbar_address)

lemma InitEL3_second_effect:
  fixes B
  defines "c' \<equiv> exec (InitEL3_second B)"
  shows "xr (c' c) 31 = xr c 31" "sysr (c' c) VBAR = sysr c VBAR" "sysr (c' c) TTBR0 = L0Table B"
    "sysr (c' c) MAIR = 0x000000BB0400FF44" "sysr (c' c) TCR AND 0x3F = 24" "\<not> bit (sysr (c' c) SYS_DAIF) 8"
    "bit (sysr (c' c) SCTLR) 0" "bit (sysr (c' c) SCTLR) 2" "bit (sysr (c' c) SCTLR) 12" "sysr (c' c) CPTR = sysr c CPTR" "cmem (c' c) = cmem c"
  by (simp_all add: c'_def InitEL3_second_def cleared_bits bit_simps)

lemma exec_zero_regs: "cmem (exec (map (\<lambda>i. LIT i v) is) c) = cmem c" "sysr (exec (map (\<lambda>i. LIT i v) is) c) = sysr c"
  by (induction "is" arbitrary: c) simp_all

text \<open>
  What both variants establish, and which memory they write: the status of the floating point unit and, at EL3,
  the reset vector register of the core.
\<close>

lemma boot_effect:
  assumes "boot B el scratch c = Some c'"
  shows "xr c' 31 = EL_stack B" "sysr c' VBAR = vector_base B" "sysr c' TTBR0 = L0Table B" "sysr c' MAIR = 0x000000BB0400FF44"
    "sysr c' TCR AND 0x3F = 24" "bit (sysr c' SCTLR) 0" "\<not> bit (sysr c' SYS_DAIF) 8" "\<not> fp_enabled (boot_labs B) c'"
    "cmem c' = store64 (if at_EL3 (boot_labs B) then store64 (cmem c) (0xFD5C0040 + 8 * (sysr c MPIDR_EL1 AND 0xFF)) (vector_base B)
       else cmem c) (FPUStatus (boot_labs B)) 0"
proof -
  consider "at_EL3 (boot_labs B)" "c' = exec (InitEL3_second B) (clobber scratch (exec (InitEL3_first B) (set_x 0 el (exec (map (\<lambda>i. LIT i 0) [0..<31]) c))))"
    | "\<not> at_EL3 (boot_labs B)" "c' = exec (InitEL1_second B) (clobber scratch (exec (InitEL1_first B) (set_x 0 el (exec (map (\<lambda>i. LIT i 0) [0..<31]) c))))"
    using assms by (auto simp: boot_def Let_def split: if_splits)
  then show "xr c' 31 = EL_stack B" "sysr c' VBAR = vector_base B" "sysr c' TTBR0 = L0Table B" "sysr c' MAIR = 0x000000BB0400FF44"
    "sysr c' TCR AND 0x3F = 24" "bit (sysr c' SCTLR) 0" "\<not> bit (sysr c' SYS_DAIF) 8" "\<not> fp_enabled (boot_labs B) c'"
    "cmem c' = store64 (if at_EL3 (boot_labs B) then store64 (cmem c) (0xFD5C0040 + 8 * (sysr c MPIDR_EL1 AND 0xFF)) (vector_base B)
       else cmem c) (FPUStatus (boot_labs B)) 0"
    by (cases; simp add: InitEL3_second_effect InitEL3_first_effect InitEL1_second_effect InitEL1_first_effect fp_enabled_def
        fp_bit_def exec_zero_regs del: upt_Suc push_bit_of_1)+
qed

section \<open>Which sets and ways are invalidated\<close>

text \<open>
  The operand of \<open>dc cisw\<close> as the architecture defines it, for a cache whose ways are numbered in the bits from
  \<open>k\<close> on and whose lines have \<open>2 ^ (l + 4)\<close> bytes (\<open>l\<close> is the field LineSize of \<open>CCSIDR_EL1\<close>).
\<close>

definition cisw_way :: "nat \<Rightarrow> u32 \<Rightarrow> nat" where
  "cisw_way k op = unat (drop_bit k op)"

definition cisw_set :: "nat \<Rightarrow> nat \<Rightarrow> u32 \<Rightarrow> nat" where
  "cisw_set k l op = unat (drop_bit (l + 4) (take_bit k op))"

lemma cisw_fields:
  assumes "s * 2 ^ (l + 2) < 2 ^ k" and "w * 2 ^ k < 2 ^ 32" and "lv < 8" and "4 \<le> k" and "k < 32" and "l < 8"
  shows "cisw_way k (cisw_operand (of_nat lv) (of_nat (l + 2)) k (of_nat s) (of_nat w)) = w"
    and "cisw_set k l (cisw_operand (of_nat lv) (of_nat (l + 2)) k (of_nat s) (of_nat w)) = s div 4"
proof -
  define n where "n = (push_bit 1 lv OR push_bit (l + 2) s) OR push_bit k w"
  have kk: "(16 :: nat) \<le> 2 ^ k" using power_increasing [OF assms(4), of "2 :: nat"] by simp
  have "unat (of_nat (l + 2) :: u32) = l + 2" using assms(6) by (simp only: unat_of_nat take_bit_nat_eq_self) (simp add: take_bit_nat_eq_self)
  then have op: "cisw_operand (of_nat lv) (of_nat (l + 2)) k (of_nat s) (of_nat w) = of_nat n"
    using assms(5,6) by (simp add: cisw_operand_def n_def of_nat_or_eq of_nat_push_bit or.assoc del: of_nat_add)
  have small: "take_bit k (push_bit 1 lv) = push_bit 1 lv" "take_bit k (push_bit (l + 2) s) = push_bit (l + 2) s"
    using assms(1,3) kk by (simp_all add: take_bit_nat_eq_self_iff push_bit_eq_mult)
  then have low: "take_bit k n = push_bit 1 lv OR push_bit (l + 2) s"
    by (simp add: n_def take_bit_push_bit)
  have d: "drop_bit k (push_bit 1 lv) = 0" "drop_bit k (push_bit (l + 2) s) = 0" "drop_bit (l + 4) (push_bit 1 lv) = 0"
  proof -
    show "drop_bit k (push_bit 1 lv) = 0" "drop_bit k (push_bit (l + 2) s) = 0"
      using assms(1,3) kk by (simp_all add: drop_bit_eq_div push_bit_eq_mult)
    have "(16 :: nat) \<le> 2 ^ (l + 4)" using power_increasing [of 4 "l + 4" "2 :: nat"] by simp
    then show "drop_bit (l + 4) (push_bit 1 lv) = 0" using assms(3) by (simp add: drop_bit_eq_div push_bit_eq_mult del: power_add)
  qed
  have "drop_bit k (push_bit k w) = w" by (simp add: drop_bit_eq_div push_bit_eq_mult)
  then have high: "drop_bit k n = w" by (simp only: n_def drop_bit_or d or.left_neutral)
  have "n < 2 ^ 32"
  proof -
    have "n = push_bit k (drop_bit k n) + take_bit k n" by (simp add: bits_ident)
    also have "\<dots> < (w + 1) * 2 ^ k" using high by (simp add: push_bit_eq_mult add.commute)
    also have "\<dots> \<le> 2 ^ 32"
    proof -
      have p: "2 ^ 32 = 2 ^ (32 - k) * (2 ^ k :: nat)" using assms(5) by (simp only: power_add [symmetric]) simp
      with assms(2) have "w < 2 ^ (32 - k)" by (metis mult_less_cancel2)
      then have "w + 1 \<le> 2 ^ (32 - k)" by simp
      then show ?thesis unfolding p by (rule mult_le_mono1)
    qed
    finally show ?thesis .
  qed
  then have u: "unat (of_nat n :: u32) = n" by (simp add: unsigned_of_nat take_bit_nat_eq_self)
  show "cisw_way k (cisw_operand (of_nat lv) (of_nat (l + 2)) k (of_nat s) (of_nat w)) = w"
    unfolding op cisw_way_def unat_drop_bit_eq u high ..
  have "drop_bit (l + 4) (push_bit (l + 2) s) = s div 4"
    by (simp add: drop_bit_eq_div push_bit_eq_mult power_add div_mult2_eq)
  then show "cisw_set k l (cisw_operand (of_nat lv) (of_nat (l + 2)) k (of_nat s) (of_nat w)) = s div 4"
    by (simp only: op cisw_set_def unat_drop_bit_eq unsigned_take_bit_eq u low drop_bit_or d or.left_neutral)
qed

lemma set_countdown [simp]: "set (countdown n) = {0..n}"
  by (induction n) auto

lemma clz_above:
  assumes "32 - clz w \<le> i" and "i < 32"
  shows "\<not> bit w i"
proof -
  let ?P = "\<lambda>i. \<not> bit w i" and ?xs = "rev [0..<32]"
  have j: "31 - i < length (takeWhile ?P ?xs)" using assms by (simp add: clz_def)
  then have "?P (takeWhile ?P ?xs ! (31 - i))" by (metis nth_mem set_takeWhileD)
  moreover have "takeWhile ?P ?xs ! (31 - i) = i"
    using takeWhile_nth [OF j] assms(2) by (simp add: rev_nth)
  ultimately show ?thesis by simp
qed

lemma clz_bound: "unat w < 2 ^ (32 - clz w)"
proof -
  have "take_bit (32 - clz w) w = w"
  proof (rule bit_word_eqI)
    fix i assume "i < LENGTH(32)"
    then show "bit (take_bit (32 - clz w) w) i = bit w i"
      using clz_above [of w i] by (cases "i < 32 - clz w") (auto simp: bit_take_bit_iff not_less)
  qed
  then have "unat w = take_bit (32 - clz w) (unat w)" by (metis unsigned_take_bit_eq)
  then show ?thesis by (metis take_bit_nat_less_exp)
qed

lemma clz_small:
  assumes "w \<noteq> 0"
  shows "clz w < 32"
proof -
  have "\<not> 32 \<le> clz w" using clz_bound [of w] assms by (auto simp: unat_eq_0)
  then show ?thesis by simp
qed

lemma clz_ubfx: "32 - n \<le> clz (ubfx i n w)" if "n \<le> 32"
proof -
  let ?P = "\<lambda>j. \<not> bit (ubfx i n w) j"
  have "rev [0..<32] = rev [n..<32] @ rev [0..<n]" using that upt_add_eq_append [of 0 n "32 - n"] by simp
  moreover have "\<forall>j \<in> set (rev [n..<32]). ?P j" by (auto simp: ubfx_def bit_and_iff bit_mask_iff)
  ultimately have "takeWhile ?P (rev [0..<32]) = rev [n..<32] @ takeWhile ?P (rev [0..<n])"
    using takeWhile_append2 [of "rev [n..<32]" ?P "rev [0..<n]"] by metis
  then show ?thesis by (simp add: clz_def)
qed

text \<open>The sets and ways that are reached at one level.\<close>

lemma flush_level_reaches:
  fixes w4 :: u32
  defines "W \<equiv> unat (ubfx 3 10 w4)" and "N \<equiv> unat (ubfx 13 15 w4)" and "l \<equiv> unat (ubfx 0 3 w4)" and "k \<equiv> clz (ubfx 3 10 w4)"
  assumes "0 < W" and "(N + 1) * 2 ^ (l + 2) \<le> 2 ^ k" and "lv < 8"
  shows "(\<lambda>op. (cisw_set k l op, cisw_way k op)) ` set (flush_level (of_nat lv) w4) = {0..N div 4} \<times> {0..W}"
proof -
  have k: "22 \<le> k" "k < 32" using clz_ubfx [of 10 3 w4] clz_small [of "ubfx 3 10 w4"] assms(5) by (auto simp: k_def W_def unat_gt_0)
  have W: "W < 2 ^ (32 - k)" unfolding W_def k_def by (rule clz_bound)
  have l: "l < 8"
  proof -
    have "ubfx 0 3 w4 \<le> 7" by (simp add: ubfx_def mask_numeral word_and_le1)
    then show ?thesis by (simp add: l_def word_le_nat_alt)
  qed
  have w3: "ubfx 0 3 w4 + 2 = of_nat (l + 2)" by (simp add: l_def)
  have f: "cisw_set k l (cisw_operand (of_nat lv) (of_nat (l + 2)) k (of_nat s) (of_nat w)) = s div 4"
      "cisw_way k (cisw_operand (of_nat lv) (of_nat (l + 2)) k (of_nat s) (of_nat w)) = w" if "s \<le> N" "w \<le> W" for s w
  proof -
    have "s * 2 ^ (l + 2) < (N + 1) * 2 ^ (l + 2)" using that(1) by (intro mult_strict_right_mono) simp_all
    then have 1: "s * 2 ^ (l + 2) < 2 ^ k" using assms(6) by linarith
    have p: "2 ^ 32 = 2 ^ (32 - k) * (2 ^ k :: nat)" using k(2) by (simp only: power_add [symmetric]) simp
    have 2: "w * 2 ^ k < 2 ^ 32" unfolding p using that(2) W by simp
    show "cisw_set k l (cisw_operand (of_nat lv) (of_nat (l + 2)) k (of_nat s) (of_nat w)) = s div 4"
      "cisw_way k (cisw_operand (of_nat lv) (of_nat (l + 2)) k (of_nat s) (of_nat w)) = w"
      using cisw_fields [OF 1 2 assms(7) _ k(2) l] k(1) by simp_all
  qed
  have "set (flush_level (of_nat lv) w4) =
      (\<lambda>(s, w). cisw_operand (of_nat lv) (of_nat (l + 2)) k (of_nat s) (of_nat w)) ` ({0..N} \<times> {0..W})"
    by (force simp: flush_level_def Let_def w3 W_def N_def k_def)
  then have "(\<lambda>op. (cisw_set k l op, cisw_way k op)) ` set (flush_level (of_nat lv) w4) = (\<lambda>(s, w). (s div 4, w)) ` ({0..N} \<times> {0..W})"
    using f by (simp only: image_image) (rule image_cong, auto)
  also have "\<dots> = {0..N div 4} \<times> {0..W}"
  proof -
    have "s div 4 \<le> N div 4" if "s \<le> N" for s using that by (rule div_le_mono)
    moreover have "\<exists>s \<le> N. t = s div 4" if "t \<le> N div 4" for t
      using that by (intro exI [of _ "4 * t"]) auto
    ultimately show ?thesis by (force simp: image_iff)
  qed
  finally show ?thesis .
qed

section \<open>Tables in memory\<close>

lemma words_at_same_outside:
  assumes "same_outside R m m'" and "region a 0 (8 * int (length ws)) \<inter> R = {}" and "words_at m a ws"
  shows "words_at m' a ws"
proof -
  have "load64 m' (a + 8 * of_nat i) = load64 m (a + 8 * of_nat i)" if "i < length ws" for i
  proof -
    have "region a (8 * int i) (8 * int i + 8) \<subseteq> region a 0 (8 * int (length ws))" using that by (intro region_mono) simp_all
    then have "region a (8 * int i) (8 * int i + 8) \<inter> R = {}" using assms(2) by blast
    from load_same_outside(1) [OF assms(1) this] show ?thesis by (simp add: off_def)
  qed
  then show ?thesis using assms(3) by (simp add: words_at_def)
qed

lemma tables_at_same_outside:
  assumes "tables_at m L0 L1 L2" and "same_outside R m m'"
    and "region L0 0 0x10 \<inter> R = {}" and "region L1 0 0x2000 \<inter> R = {}" and "region L2 0 0x4000 \<inter> R = {}"
  shows "tables_at m' L0 L1 L2"
  using assms words_at_same_outside [OF assms(2), of L0 "MMUTableL0 L1"]
    words_at_same_outside [OF assms(2), of L1 "MMUTableL1 L2"] words_at_same_outside [OF assms(2), of L2 MMUTableL2]
  by (simp add: tables_at_def)

text \<open>A table that is written to memory word by word.\<close>

fun put_words :: "memory \<Rightarrow> u64 \<Rightarrow> u64 list \<Rightarrow> memory" where
  "put_words m a [] = m"
| "put_words m a (w # ws) = store64 (put_words m (a + 8) ws) a w"

lemma store64_word_outside: "same_outside (region a 0 8) m (store64 m a v)"
  unfolding same_outside_def using store_outside(2) [of _ a 0 8] by auto

lemma put_words_outside: "same_outside (region a 0 (8 * int (length ws))) m (put_words m a ws)"
proof (induction ws arbitrary: a)
  case (Cons w ws)
  have "a + 8 = off a 8" by (simp add: off_def)
  then have "region (a + 8) 0 (8 * int (length ws)) \<subseteq> region a 0 (8 * int (length (w # ws)))"
    by (simp add: region_off region_mono)
  moreover have "region a 0 8 \<subseteq> region a 0 (8 * int (length (w # ws)))" by (rule region_mono) simp_all
  ultimately show ?case using same_outside_trans [OF Cons store64_word_outside] by simp
qed simp

lemma words_at_put: "8 * length ws < 2 ^ 32 \<Longrightarrow> words_at (put_words m a ws) a ws"
proof (induction ws arbitrary: a)
  case (Cons w ws)
  let ?m = "put_words m (a + 8) ws"
  have a8: "a + 8 = off a 8" by (simp add: off_def)
  have "region (a + 8) 0 (8 * int (length ws)) \<inter> region a 0 8 = {}"
    unfolding a8 region_off by (rule region_disjoint) (use Cons.prems in simp_all)
  with Cons have t: "words_at (store64 ?m a w) (a + 8) ws"
    using words_at_same_outside [OF store64_word_outside, of "a + 8" ws a ?m w] by simp
  have "load64 (store64 ?m a w) a = w" by simp
  with t show ?case
    by (auto simp: words_at_def nth_Cons algebra_simps split: nat.splits)
qed (simp add: words_at_def)

section \<open>Properties\<close>

text \<open>The memory that the start-up code writes before the uninitialised data is cleared.\<close>

definition boot_writes :: "boot_labels \<Rightarrow> cpu \<Rightarrow> u64 set" where
  "boot_writes B c = region (FPUStatus (boot_labs B)) 0 8 \<union>
     (if at_EL3 (boot_labs B) then region (0xFD5C0040 + 8 * (sysr c MPIDR_EL1 AND 0xFF)) 0 8 else {})"

lemma boot_memory:
  assumes "boot B el scratch c = Some c'"
  shows "same_outside (boot_writes B c) (cmem c) (cmem c')" "cmem c' (FPUStatus (boot_labs B)) = 0"
proof -
  have "store64 m a 0 a = 0" for m a
  proof -
    have "mem_read (store64 m a 0) a (Suc 7) = replicate (Suc 7) 0"
      using mem_read_write [of "replicate 8 0" m a] by (simp add: store64_def le_bytes_zero)
    then show ?thesis by (simp only: mem_read_Suc replicate_Suc list.inject)
  qed
  then show "cmem c' (FPUStatus (boot_labs B)) = 0" using boot_effect(9) [OF assms] by simp
  show "same_outside (boot_writes B c) (cmem c) (cmem c')"
    unfolding boot_effect(9) [OF assms] boot_writes_def
    using same_outside_trans [OF store64_word_outside store64_word_outside] same_outside_mono [OF store64_word_outside] by auto
qed

lemma startup_translation:
  assumes "boot B el scratch c = Some c'" and "tables_at (cmem c) (L0Table B) L1 L2"
    and "(region (L0Table B) 0 0x10 \<union> region L1 0 0x2000 \<union> region L2 0 0x4000) \<inter> boot_writes B c = {}"
  shows "translate c' va = map_option (\<lambda>k. (va, k)) (address_map va)"
proof -
  note e = boot_effect [OF assms(1)]
  have "tables_at (cmem c') (sysr c' TTBR0) L1 L2"
    unfolding e(3) using tables_at_same_outside [OF assms(2) boot_memory(1) [OF assms(1)]] assms(3) by blast
  then show ?thesis using e(4,5,6) by (intro translate_flat)
qed

lemma startup_clears:
  assumes "unat sbss + 8 * n < 2 ^ 63" and "unat bss + 8 * k < 2 ^ 63"
  shows "startup_clear EL3 pwrctl mpidr (sbss, sbss + 8 * of_nat n) (bss, bss + 8 * of_nat k) m =
    Some (if EL3 \<and> bit pwrctl (unat (mpidr AND 0xFF) mod 32) then m
          else mem_write (mem_write m sbss (replicate (8 * n) 0)) bss (replicate (8 * k) 0))"
proof -
  have u: "unat (x + 8 * of_nat n) = unat x + 8 * n" if "unat x + 8 * n < 2 ^ 63" for x :: u64 and n
  proof -
    have "unat (x + of_nat (8 * n)) = unat x + 8 * n"
      using that by (simp add: unat_word_ariths unat_of_nat take_bit_eq_mod del: of_nat_mult)
    then show ?thesis by simp
  qed
  have "pwrctl AND push_bit j 1 \<noteq> 0 \<longleftrightarrow> bit pwrctl j" if "j < 32" for j
    using that by (simp add: bit_iff_and_push_bit_not_eq_0)
  then show ?thesis
    using clear_loop_clears [OF assms(1) u [OF assms(1)]] clear_loop_clears [OF assms(2) u [OF assms(2)]]
    by (simp add: startup_clear_def)
qed

text \<open>
  C13: the state that the start-up code leaves to the C++ code, for the monitor and for payloads. Every address is
  translated to itself with the attributes that the documentation of the tables gives, or faults, except that of
  the upper DDR memory only the 2 GB that are present are mapped; in particular all regions of the memory map are
  normal memory. Vectors and stack are those of the image, system errors are unmasked, floating point
  instructions are trapped and \<open>FPUStatus\<close> is clear. \<open>boot.S\<close> writes nothing else to memory, and \<open>_startup\<close> then fills exactly
  the two sections of uninitialised data with zeros, unless the monitor finds the core's bit set in the power
  control register.
\<close>

theorem startup_state:
  assumes "boot B el scratch c = Some c'" and "tables_at (cmem c) (L0Table B) L1 L2"
    and "(region (L0Table B) 0 0x10 \<union> region L1 0 0x2000 \<union> region L2 0 0x4000) \<inter> boot_writes B c = {}"
    and "unat sbss + 8 * n < 2 ^ 63" and "unat bss + 8 * k < 2 ^ 63"
  shows "translate c' va = map_option (\<lambda>k. (va, k)) (if 0x880000000 \<le> va \<and> va \<le> 0xFFFFFFFFF then None else map_kind documented_map va) \<and>
    (\<forall>r \<in> set all_regions. in_region va r \<longrightarrow> translate c' va = Some (va, Normal)) \<and>
    sysr c' VBAR = vector_base B \<and> xr c' 31 = EL_stack B \<and> \<not> bit (sysr c' SYS_DAIF) 8 \<and>
    \<not> fp_enabled (boot_labs B) c' \<and> cmem c' (FPUStatus (boot_labs B)) = 0 \<and>
    (x \<notin> boot_writes B c \<longrightarrow> cmem c' x = cmem c x) \<and>
    startup_clear (at_EL3 (boot_labs B)) pwrctl (sysr c MPIDR_EL1) (sbss, sbss + 8 * of_nat n) (bss, bss + 8 * of_nat k) (cmem c') =
      Some (if at_EL3 (boot_labs B) \<and> bit pwrctl (unat (sysr c MPIDR_EL1 AND 0xFF) mod 32) then cmem c'
            else mem_write (mem_write (cmem c') sbss (replicate (8 * n) 0)) bss (replicate (8 * k) 0))"
  using startup_translation [OF assms(1-3), of va] startup_clears [OF assms(4,5)] boot_effect [OF assms(1)] boot_memory [OF assms(1)] regions_are_memory
  by (auto simp: address_map_def same_outside_def)

text \<open>A payload image with its tables, just entered at EL1.\<close>

definition demo_boot_labels :: boot_labels where
  "demo_boot_labels =
     \<lparr>boot_labs = \<lparr>at_EL3 = False, FPUContext = off 0 0x800100900, FPUContextBase = off 0 0x800101980, FPUStatus = off 0 0x800101988\<rparr>,
      vector_base = 0x800100000, EL_stack = 0x801140000, L0Table = off 0 0x800110000\<rparr>"

definition demo_boot_cpu :: cpu where
  "demo_boot_cpu =
     \<lparr>xr = (\<lambda>_. 0), qr = (\<lambda>_. 0), sysr = (\<lambda>_. 0),
      cmem = put_words (put_words (put_words (\<lambda>_. 0) (off 0 0x800110000) (MMUTableL0 (off 0 0x800111000)))
        (off 0 0x800111000) (MMUTableL1 (off 0 0x800113000))) (off 0 0x800113000) MMUTableL2\<rparr>"

lemma demo_tables:
  "tables_at (cmem demo_boot_cpu) (off 0 0x800110000) (off 0 0x800111000) (off 0 0x800113000)"
proof -
  let ?m0 = "put_words (\<lambda>_. 0) (off 0 0x800110000) (MMUTableL0 (off 0 0x800111000))"
  let ?m1 = "put_words ?m0 (off 0 0x800111000) (MMUTableL1 (off 0 0x800113000))"
  let ?m2 = "put_words ?m1 (off 0 0x800113000) MMUTableL2"
  have d: "region (off 0 0x800110000) 0 0x10 \<inter> region (off 0 0x800111000) 0 0x2000 = {}"
    "region (off 0 0x800110000) 0 0x10 \<inter> region (off 0 0x800113000) 0 0x4000 = {}"
    "region (off 0 0x800111000) 0 0x2000 \<inter> region (off 0 0x800113000) 0 0x4000 = {}"
    unfolding region_off by (rule region_disjoint; simp)+
  have p: "same_outside (region (off 0 0x800111000) 0 0x2000) ?m0 ?m1" "same_outside (region (off 0 0x800113000) 0 0x4000) ?m1 ?m2"
    using put_words_outside [of _ "MMUTableL1 (off 0 0x800113000)"] put_words_outside [of _ MMUTableL2] by simp_all
  have "words_at ?m2 (off 0 0x800110000) (MMUTableL0 (off 0 0x800111000))"
    by (rule words_at_same_outside [OF p(2) _ words_at_same_outside [OF p(1) _ words_at_put]]) (use d in simp_all)
  moreover have "words_at ?m2 (off 0 0x800111000) (MMUTableL1 (off 0 0x800113000))"
    by (rule words_at_same_outside [OF p(2) _ words_at_put]) (use d in simp_all)
  moreover have "words_at ?m2 (off 0 0x800113000) MMUTableL2" by (rule words_at_put) simp
  ultimately show ?thesis by (simp add: tables_at_def demo_boot_cpu_def) (simp add: off_def mask_numeral)
qed

lemma demo_boots: "\<exists>c'. boot demo_boot_labels 0x4 (\<lambda>_. 0) demo_boot_cpu = Some c'"
  by (simp add: boot_def demo_boot_labels_def Let_def)

lemma demo_boot_tables:
  "tables_at (cmem demo_boot_cpu) (L0Table demo_boot_labels) (off 0 0x800111000) (off 0 0x800113000)"
  "(region (L0Table demo_boot_labels) 0 0x10 \<union> region (off 0 0x800111000) 0 0x2000 \<union> region (off 0 0x800113000) 0 0x4000) \<inter>
     boot_writes demo_boot_labels demo_boot_cpu = {}"
proof -
  show "tables_at (cmem demo_boot_cpu) (L0Table demo_boot_labels) (off 0 0x800111000) (off 0 0x800113000)"
    using demo_tables by (simp add: demo_boot_labels_def)
  show "(region (L0Table demo_boot_labels) 0 0x10 \<union> region (off 0 0x800111000) 0 0x2000 \<union> region (off 0 0x800113000) 0 0x4000) \<inter>
      boot_writes demo_boot_labels demo_boot_cpu = {}"
    unfolding Int_Un_distrib2 Un_empty boot_writes_def demo_boot_labels_def
    by (simp add: region_off) (intro conjI region_disjoint; simp)
qed

theorem startup_state_witness:
  "\<exists>c'. boot demo_boot_labels 0x4 (\<lambda>_. 0) demo_boot_cpu = Some c' \<and> translate c' 0x800100000 = Some (0x800100000, Normal) \<and>
     translate c' 0xF0000000 = None \<and> \<not> fp_enabled (boot_labs demo_boot_labels) c' \<and>
     startup_clear False 0 0 (0x801000000, 0x801000000) (0x801000000, 0x801000010) (cmem c') =
       Some (mem_write (cmem c') 0x801000000 (replicate 16 0))"
proof -
  let ?B = demo_boot_labels
  obtain c' where c': "boot ?B 0x4 (\<lambda>_. 0) demo_boot_cpu = Some c'" using demo_boots by blast
  have s: "translate c' va = map_option (\<lambda>k. (va, k)) (if 0x880000000 \<le> va \<and> va \<le> 0xFFFFFFFFF then None else map_kind documented_map va)"
      "\<not> fp_enabled (boot_labs ?B) c'"
      "startup_clear (at_EL3 (boot_labs ?B)) 0 (sysr demo_boot_cpu MPIDR_EL1) (0x801000000, 0x801000000 + 8 * of_nat 0)
         (0x801000000, 0x801000000 + 8 * of_nat 2) (cmem c') =
       Some (if at_EL3 (boot_labs ?B) \<and> bit (0 :: u32) (unat (sysr demo_boot_cpu MPIDR_EL1 AND 0xFF) mod 32) then cmem c'
             else mem_write (mem_write (cmem c') 0x801000000 (replicate (8 * 0) 0)) 0x801000000 (replicate (8 * 2) 0))" for va
    using startup_state [OF c' demo_boot_tables, of "0x801000000" 0 "0x801000000" 2 va 0 0] by simp_all
  have "startup_clear False 0 0 (0x801000000, 0x801000000) (0x801000000, 0x801000010) (cmem c') =
      Some (mem_write (cmem c') 0x801000000 (replicate 16 0))"
    using s(3) by (simp add: demo_boot_labels_def demo_boot_cpu_def)
  then show ?thesis using c' s(2) by (simp add: s(1) documented_kind)
qed

text \<open>
  C16: the start-up code cleans and invalidates only a quarter of a data cache. For a cache with \<open>N + 1\<close> sets and \<open>W + 1\<close>
  ways, as \<open>CCSIDR_EL1\<close> describes it, the sets that \<open>invalidate_dcaches\<close> names in its set/way operations are exactly
  those from 0 to \<open>N div 4\<close>, each with all ways: the position of the set number is computed from the line length in
  words instead of bytes, so that four consecutive numbers name the same set.
\<close>

theorem cache_sets_invalidated:
  fixes ccsidr :: u32
  defines "W \<equiv> unat (ubfx 3 10 ccsidr)" and "N \<equiv> unat (ubfx 13 15 ccsidr)" and "l \<equiv> unat (ubfx 0 3 ccsidr)"
    and "k \<equiv> clz (ubfx 3 10 ccsidr)"
  assumes "0 < W" and "(N + 1) * 2 ^ (l + 4) \<le> 2 ^ k" and "lv < 8"
  shows "(\<lambda>op. (cisw_set k l op, cisw_way k op)) ` set (flush_level (of_nat lv) ccsidr) = {0..N div 4} \<times> {0..W}"
proof -
  have "(N + 1) * 2 ^ (l + 2) \<le> (N + 1) * 2 ^ (l + 4)" by (intro mult_le_mono2 power_increasing) simp_all
  with assms(6) have "(N + 1) * 2 ^ (l + 2) \<le> 2 ^ k" by linarith
  then show ?thesis
    using flush_level_reaches [of ccsidr lv] assms(5,7) unfolding W_def N_def l_def k_def by simp
qed

text \<open>The first level data cache of the Cortex-A53 with 32 KB: 128 sets of 4 ways, of which sets 0 to 31 are reached.\<close>

theorem cache_sets_invalidated_witness:
  "(\<lambda>op. (cisw_set 30 2 op, cisw_way 30 op)) ` set (flush_level 0 0x700FE01A) = {0..31} \<times> {0..3}"
proof -
  have f: "ubfx 3 10 0x700FE01A = 3" "ubfx 13 15 0x700FE01A = 127" "ubfx 0 3 0x700FE01A = 2"
    by (simp_all add: ubfx_def mask_numeral)
  have "clz 3 = 30"
    by code_simp
  then show ?thesis using cache_sets_invalidated [of "0x700FE01A" 0] f by simp
qed

end
