(* ===== verification/Demo_Programs.thy ===== *)
theory Demo_Programs
  imports Payload_Demos Core_Reader Boot
begin

text \<open>
  The remaining demonstration payloads under \<open>src/payloads/\<close>: \<open>pmu_demo.cpp\<close> (the cycle counter),
  \<open>exception_caught_demo.cpp\<close> (a C++ exception that is caught), \<open>access_violation.cpp\<close> (a fault, for the core
  dump), and the printing loop of \<open>adrian_irq_demo.cpp\<close>. The C library's \<open>printf\<close> is the argument \<open>pr\<close> as in theory
  Payload_Demos.
\<close>

section \<open>\<open>pmu_demo.cpp\<close>\<close>

text \<open>
  The cycle counter advances with each cycle while bit 0 of \<open>PMCR_EL0\<close> and bit 31 of \<open>PMCNTENSET_EL0\<close> are set (Arm
  architecture, performance monitors).
\<close>

definition count_cycles :: "nat \<Rightarrow> payload \<Rightarrow> payload" where
  "count_cycles n p =
     (if bit (PMCR_EL0 p) 0 \<and> bit (PMCNTENSET_EL0 p) 31 then p\<lparr>PMCCNTR_EL0 := PMCCNTR_EL0 p + of_nat n\<rparr> else p)"

text \<open>\<open>%08X\<close> prints the low 32 bits of its argument.\<close>

definition upper_hex_digit :: "nat \<Rightarrow> char" where
  "upper_hex_digit n = (if n < 10 then char_of (48 + n) else char_of (55 + n))"

definition hex8 :: "u64 \<Rightarrow> string" where
  "hex8 w = map (\<lambda>i. upper_hex_digit (unat (drop_bit (4 * (7 - i)) (ucast w :: u32) AND 0xF))) [0..<8]"

text \<open>\<open>n0\<close> cycles pass between the start of the counter and the first reading, \<open>n1\<close> between the two readings.\<close>

definition pmu_demo_main :: "nat \<Rightarrow> (string \<Rightarrow> payload \<Rightarrow> payload) \<Rightarrow> nat \<Rightarrow> nat \<Rightarrow> payload \<Rightarrow> payload option" where
  "pmu_demo_main cpu pr n0 n1 p =
     Option.bind (notifyPayloadStarted cpu p) (\<lambda>p1.
       let p2 = pr (''Performance Monitor Unit demo'' @ [newline]) p1;
           p3 = pr (''PMCR_EL0 =     0x'' @ hex8 (PMCR_EL0 p2) @ [newline]) p2;
           p4 = pr (''PMCCFLTR_EL0 = 0x'' @ hex8 (PMCCFILTR_EL0 p3) @ [newline]) p3;
           p5 = pr (''PMCCNTR_EL0 =  '' @ signed_string (sint (PMCCNTR_EL0 p4)) @ [newline]) p4;
           p6 = count_cycles n0 (startCycleCounter p5);
           before = getCycleCounterValue p6;
           p7 = count_cycles n1 p6;
           after = getCycleCounterValue p7 in
       Some (pr (''before: '' @ signed_string (sint before) @ '', after: '' @ signed_string (sint after) @
         '', delta: '' @ signed_string (sint (after - before)) @ [newline]) p7))"

section \<open>\<open>exception_caught_demo.cpp\<close>\<close>

text \<open>The body of the \<open>try\<close> block: \<open>Inl\<close> is an exception with what its \<open>what()\<close> returns.\<close>

definition throw_runtime_error :: "string \<Rightarrow> string + unit" where
  "throw_runtime_error what = Inl what"

definition exception_caught_main :: "nat \<Rightarrow> (string \<Rightarrow> payload \<Rightarrow> payload) \<Rightarrow> payload \<Rightarrow> payload option" where
  "exception_caught_main cpu pr p =
     Option.bind (notifyPayloadStarted cpu p) (\<lambda>p1.
       let p2 = (case throw_runtime_error ''Runtime exception thrown'' of
                   Inl what \<Rightarrow> pr (''Caught exception: '' @ what @ ''.'' @ [newline]) p1
                 | Inr _ \<Rightarrow> p1) in
       Some (pr (''Application still responsive after exception handling.'' @ [newline]) p2))"

section \<open>The printing loop of \<open>adrian_irq_demo.cpp\<close>\<close>

text \<open>One iteration, after its \<open>sleep\<close>, on the counters as they are then.\<close>

definition irq_demo_print :: "(string \<Rightarrow> payload \<Rightarrow> payload) \<Rightarrow> irq_demo \<Rightarrow> payload \<Rightarrow> payload" where
  "irq_demo_print pr s p =
     pr (''high='' @ signed_string (high_count s) @ '', low='' @ signed_string (low_count s) @
         '' low-nested='' @ signed_string (low_nested s) @ '' high-nested='' @ signed_string (high_nested s) @ [newline]) p"

section \<open>\<open>access_violation.cpp\<close>\<close>

text \<open>\<open>fmov d\<close> sets the low half of a vector register to a double and clears the rest.\<close>

definition fmov_d :: "nat \<Rightarrow> u64 \<Rightarrow> fpu \<Rightarrow> fpu" where
  "fmov_d n bits f = f\<lparr>Q := (Q f)[n := ucast bits]\<rparr>"

definition double_0_5 :: u64 where "double_0_5 = 0x3FE0000000000000"
definition double_0_25 :: u64 where "double_0_25 = 0x3FD0000000000000"

text \<open>
  The store goes through the translation of addresses, \<open>mmu\<close> (\<open>translate\<close> of theory Mmu for the state of the
  processor). Where that faults, a data abort is taken at EL1 with the address of the store in \<open>ELR_EL1\<close>;
  otherwise the function, which is declared \<open>noreturn\<close>, runs off its end and nothing is known: \<open>None\<close>.
  \<open>timer\<close> are the successive values of the counter during \<open>usleep\<close>, \<open>f\<close> the floating point registers before the two
  \<open>fmov\<close>, \<open>saved_regs\<close> the registers at the store.
\<close>

definition access_invalid_memory ::
    "(u64 \<Rightarrow> (u64 \<times> mem_kind) option) \<Rightarrow> nat \<Rightarrow> (string \<Rightarrow> u64) \<Rightarrow> u64 \<Rightarrow> fpu \<Rightarrow> Aarch64_Regs \<Rightarrow> payload \<Rightarrow> el1_outcome option" where
  "access_invalid_memory mmu cpu lit fault_address f saved_regs p =
     (case mmu 0x00F0000000 of
        None \<Rightarrow> Some (SynchronousInterrupt_el1 cpu lit f saved_regs (p\<lparr>ELR_EL1 := fault_address\<rparr>))
      | Some _ \<Rightarrow> None)"

definition access_violation_main ::
    "(u64 \<Rightarrow> (u64 \<times> mem_kind) option) \<Rightarrow> nat \<Rightarrow> (string \<Rightarrow> u64) \<Rightarrow> (nat \<Rightarrow> u64) \<Rightarrow> nat \<Rightarrow> u64 \<Rightarrow> fpu \<Rightarrow> Aarch64_Regs \<Rightarrow>
      payload \<Rightarrow> el1_outcome option" where
  "access_violation_main mmu cpu lit timer fuel fault_address f saved_regs p =
     Option.bind (notifyPayloadStarted cpu p) (\<lambda>p1.
     Option.bind (usleep timer (getBuiltinTimerFrequency p1) 100000 fuel) (\<lambda>_.
       let f1 = fmov_d 0 double_0_5 f;
           f2 = fmov_d 1 double_0_25 f1 in
       access_invalid_memory mmu cpu lit fault_address f2 saved_regs p1))"

section \<open>Lemmas\<close>

lemma notifyPayloadStarted_eq:
  "notifyPayloadStarted cpu p = Some (p\<lparr>p_mon := set_state running_payload (p_mon p)\<rparr>)"
  by (simp add: notifyPayloadStarted_def smc_def handleSmc_def Let_def smc_ids reportPayloadStarted_def)

text \<open>The cycle counter starts from zero and then counts every cycle.\<close>

lemma cycle_counter_counts:
  "getCycleCounterValue (count_cycles n1 (count_cycles n0 (startCycleCounter p))) = of_nat (n0 + n1)"
  by (simp add: getCycleCounterValue_def count_cycles_def startCycleCounter_def write_PMCR_EL0_def Let_def bit_simps)

text \<open>Vector register \<open>i\<close> of the floating point note.\<close>

definition note_vreg :: "bytes \<Rightarrow> nat \<Rightarrow> 128 word" where
  "note_vreg desc i = rd 16 desc (i * 16)"

lemma note_vreg_fpregs:
  assumes "i < length (vregs r)"
  shows "note_vreg (fpregs_bytes pad r) i = vregs r ! i"
proof -
  have len: "length (concat (map (le_bytes 16) (vregs r))) = 16 * length (vregs r)"
    by (rule concat_length_const) simp
  have "16 \<le> length (drop (i * 16) (concat (map (le_bytes 16) (vregs r))))" using len assms by simp
  then have "take 16 (drop (i * 16) (fpregs_bytes pad r)) = take 16 (drop (i * 16) (concat (map (le_bytes 16) (vregs r))))"
    using len assms by (simp add: fpregs_bytes_def)
  also have "\<dots> = le_bytes 16 (vregs r ! i)" using concat_const_at [of "vregs r" "le_bytes 16" 16 i] assms by simp
  finally show ?thesis by (simp add: note_vreg_def rd_def le_word_le_bytes)
qed

end
