(* ===== verification/Crash_Scenario.thy ===== *)
theory Crash_Scenario
  imports System Demo_Programs
begin

text \<open>
  The scenario of the hardware test \<open>access_violation\<close> (\<open>src/tests/tests.cpp\<close>) up to the core dump, through all the
  parts it passes: the demonstration payload, the runtime's vectors, the monitor's crash report, the manager's
  view of it, the core dump and what a debugger reads from it.
\<close>

section \<open>The run\<close>

lemma access_violation_outcome:
  assumes "domain_general_state h d = monitorStarted" and "p_mon p = core_of h d c freq"
    and "usleep timer (ucast freq) 100000 fuel = Some k" and "mmu 0xF0000000 = None"
  shows "\<exists>q. access_violation_main mmu cpu lit timer fuel a f saved_regs p = Some (EL1_Hang q) \<and>
    phys_mem (p_mon q) = h_mem h \<and> getState (host_of h d (p_mon q)) d = crashed_payload \<and>
    fault_pc (e2m (ipc (p_mon q))) = a \<and> saved_cpu (e2m (ipc (p_mon q))) = saved_regs \<and>
    saved_fpu (e2m (ipc (p_mon q))) = saveFpuState (fmov_d 1 double_0_25 (fmov_d 0 double_0_5 f))"
proof -
  let ?f = "fmov_d 1 double_0_25 (fmov_d 0 double_0_5 f)"
  let ?p = "p\<lparr>p_mon := set_state running_payload (p_mon p), ELR_EL1 := a\<rparr>"
  let ?h = "set_ipc d (ipc (p_mon ?p)) h"
  have "p_mon ?p = core_of ?h d c freq" using assms(2) by (simp add: core_of_def set_state_def)
  moreover have "domain_general_state ?h d = monitorStarted" using assms(1) by simp
  ultimately obtain q where q: "SynchronousInterrupt_el1 cpu lit ?f saved_regs ?p = EL1_Hang q" "phys_mem (p_mon q) = h_mem ?h"
      "getState (host_of ?h d (p_mon q)) d = crashed_payload" "fault_pc (e2m (ipc (p_mon q))) = ELR_EL1 ?p"
      "saved_cpu (e2m (ipc (p_mon q))) = saved_regs" "saved_fpu (e2m (ipc (p_mon q))) = saveFpuState (fmov_d 1 double_0_25 (fmov_d 0 double_0_5 f))"
    using crash_state by blast
  have fq: "getBuiltinTimerFrequency (p\<lparr>p_mon := set_state running_payload (p_mon p)\<rparr>) = ucast freq"
    using assms(2) by (simp add: getBuiltinTimerFrequency_def core_of_def)
  have "access_violation_main mmu cpu lit timer fuel a f saved_regs p = Some (EL1_Hang q)"
    using assms(3,4) q(1) fq
    by (simp add: access_violation_main_def notifyPayloadStarted_eq access_invalid_memory_def)
  moreover have "getState (host_of h d (p_mon q)) d = crashed_payload"
    using q(3) assms(1) by (simp add: getState_def host_of_def)
  ultimately show ?thesis using q by (intro exI [of _ q]) simp
qed

text \<open>
  C10: the demonstration of a crash, from the payload's start-up code through \<open>main\<close> of \<open>access_violation.cpp\<close> to the
  debugger. On a core that has run \<open>boot.S\<close> at EL1 with its translation tables, the payload reports its start, waits
  a tenth of a second, loads 0.5 and 0.25 into two floating point registers and writes to an address that the
  tables do not map: the manager then sees \<open>crashed_payload\<close> and the address of the faulting instruction, and if the medium has room,
  \<open>dumpCore\<close> leaves a closed file from which an ELF reader recovers the complete payload memory, the saved integer
  registers in the status note, and the two numbers in vector registers 0 and 1 of the floating point note.
\<close>

theorem access_violation_is_diagnosed:
  assumes "domain_general_state h d = monitorStarted" and "p_mon p = core_of h d c freq"
    and "boot B 0x4 scratch c0 = Some cb" and "tables_at (cmem c0) (L0Table B) L1 L2"
    and "(region (L0Table B) 0 0x10 \<union> region L1 0 0x2000 \<union> region L2 0 0x4000) \<inter> boot_writes B c0 = {}"
    and "usleep timer (ucast freq) 100000 fuel = Some k"
    and "getPhysicalMemoryRanges d = Some r" and "get_devmem_handle env h = (h', Inr fd)"
    and "os_map env (payload_address r) (payload_size r)"
    and "length (Q f) = 32" and "length pad = 8" and "4 dvd length prpsinfo" and "4 dvd length (prstatus (regs_bytes saved_regs))"
    and "200000 + length prpsinfo + length (prstatus (regs_bytes saved_regs)) + unat (payload_size r) \<le> room" and "room < 2 ^ 32"
  shows "\<exists>q h2 cf v. access_violation_main (translate cb) cpu lit timer fuel a f saved_regs p = Some (EL1_Hang q) \<and>
    getState (host_of h d (p_mon q)) d = crashed_payload \<and> crash_pc (getCrashInfo (host_of h d (p_mon q)) d) = a \<and>
    dumpCore env prpsinfo prstatus pad (Some room) d None (host_of h d (p_mon q)) = Some (h2, Some d, Dumped cf) \<and>
    f_closed cf \<and> read_core (f_bytes cf) = Some v \<and>
    cv_segments v = [\<lparr>start_address = payload_address r, seg_data = mem_read (h_mem h) (payload_address r) (unat (payload_size r))\<rparr>] \<and>
    n_desc (cv_notes v ! 1) = prstatus (regs_bytes saved_regs) \<and>
    note_vreg (n_desc (cv_notes v ! 2)) 0 = ucast double_0_5 \<and> note_vreg (n_desc (cv_notes v ! 2)) 1 = ucast double_0_25"
proof -
  let ?f = "fmov_d 1 double_0_25 (fmov_d 0 double_0_5 f)"
  let ?seg = "\<lparr>start_address = payload_address r, seg_data = mem_read (h_mem h) (payload_address r) (unat (payload_size r))\<rparr>"
  let ?fp = "fpregs_bytes pad (saveFpuState ?f)"
  have hole: "translate cb 0xF0000000 = None" using startup_translation [OF assms(3-5)] hole_faults by simp
  obtain q where q: "access_violation_main (translate cb) cpu lit timer fuel a f saved_regs p = Some (EL1_Hang q)" "phys_mem (p_mon q) = h_mem h"
      "getState (host_of h d (p_mon q)) d = crashed_payload" "fault_pc (e2m (ipc (p_mon q))) = a"
      "saved_cpu (e2m (ipc (p_mon q))) = saved_regs" "saved_fpu (e2m (ipc (p_mon q))) = saveFpuState ?f"
    using access_violation_outcome [where mmu = "translate cb", OF assms(1,2,6) hole] by blast
  have vr: "vregs (saveFpuState ?f) = (Q f)[0 := ucast double_0_5, 1 := ucast double_0_25]"
    by (simp add: saveFpuState_def fmov_d_def)
  have fpl: "length ?fp = 528"
  proof -
    have "length (concat (map (le_bytes 16) (vregs (saveFpuState ?f)))) = 16 * length (vregs (saveFpuState ?f))"
      by (rule concat_length_const) simp
    then show ?thesis using vr assms(10,11) by (simp add: fpregs_bytes_def)
  qed
  have fits: "length (concat (dump_chunks prpsinfo prstatus pad [?seg] saved_regs (saveFpuState ?f))) \<le> room"
    using dump_length [of "[?seg]" prpsinfo prstatus pad saved_regs "saveFpuState ?f"] fpl assms(14) by simp
  have "length [?seg] + 1 < 2 ^ 16" "4 dvd length ?fp" using fpl by simp_all
  from dump_reads_back [OF this(1) fits assms(15,12,13) this(2)] obtain cf where cf: "writeCoreDump prpsinfo prstatus pad (Some room) [?seg] saved_regs (saveFpuState ?f) = Some cf" "f_closed cf"
      "read_core (f_bytes cf) = Some \<lparr>cv_notes = dumped_notes prpsinfo (prstatus (regs_bytes saved_regs)) ?fp, cv_segments = [?seg]\<rparr>"
    by blast
  obtain h2 where h2: "get_devmem_handle env (host_of h d (p_mon q)) = (h2, Inr fd)"
    using assms(8) q(2) by (auto simp: get_devmem_handle_def host_of_def Let_def split: if_splits)
  have "dumpCore env prpsinfo prstatus pad (Some room) d None (host_of h d (p_mon q)) = Some (h2, Some d, Dumped cf)"
    by (rule dumpCore_writes [OF q(3) assms(7) h2 assms(9)]) (use cf(1) q(2,5,6) in \<open>simp add: host_of_def\<close>)
  moreover have "note_vreg ?fp 0 = ucast double_0_5" "note_vreg ?fp 1 = ucast double_0_25"
  proof -
    have "Q f \<noteq> []" using assms(10) by auto
    then show "note_vreg ?fp 0 = ucast double_0_5" using vr by (simp add: note_vreg_fpregs)
    show "note_vreg ?fp 1 = ucast double_0_25" using vr assms(10) by (subst note_vreg_fpregs) simp_all
  qed
  moreover have "crash_pc (getCrashInfo (host_of h d (p_mon q)) d) = a"
    using q(4) by (simp add: getCrashInfo_def host_of_def)
  ultimately show ?thesis
    using q(1,3) cf(2,3) by (intro exI conjI) (auto simp: dumped_notes_def numeral_2_eq_2)
qed

theorem access_violation_is_diagnosed_witness:
  "\<exists>cb r q h2 cf v. boot demo_boot_labels 0x4 (\<lambda>_. 0) demo_boot_cpu = Some cb \<and> getPhysicalMemoryRanges cpu1 = Some r \<and>
    access_violation_main (translate cb) 1 (\<lambda>_. 0x800200000) (\<lambda>i. of_nat i * 10000000) 1 0x800100040 \<lparr>Q = replicate 32 0, FPSR = 0, FPCR = 0\<rparr> zero_regs
      (idle_payload\<lparr>p_mon := core_of (demo_host monitorStarted running_payload) cpu1 idle_ctl 100000000\<rparr>) = Some (EL1_Hang q) \<and>
    getState (host_of (demo_host monitorStarted running_payload) cpu1 (p_mon q)) cpu1 = crashed_payload \<and>
    dumpCore (demo_env running_payload) (replicate 136 0) (\<lambda>rs. replicate 112 0 @ rs @ replicate 8 0) (replicate 8 0) (Some 40000000)
      cpu1 None (host_of (demo_host monitorStarted running_payload) cpu1 (p_mon q)) = Some (h2, Some cpu1, Dumped cf) \<and>
    read_core (f_bytes cf) = Some v \<and> note_vreg (n_desc (cv_notes v ! 2)) 0 = ucast double_0_5"
proof -
  let ?h = "demo_host monitorStarted running_payload"
  let ?f = "\<lparr>Q = replicate 32 0, FPSR = 0, FPCR = 0\<rparr>"
  let ?ps = "\<lambda>rs :: bytes. replicate 112 0 @ rs @ replicate 8 0"
  obtain r where r: "getPhysicalMemoryRanges cpu1 = Some r" by simp
  obtain cb where cb: "boot demo_boot_labels 0x4 (\<lambda>_. 0) demo_boot_cpu = Some cb" using demo_boots by blast
  have g: "domain_general_state ?h cpu1 = monitorStarted" by (simp add: demo_host_def)
  have p: "p_mon (idle_payload\<lparr>p_mon := core_of ?h cpu1 idle_ctl 100000000\<rparr>) = core_of ?h cpu1 idle_ctl 100000000" by simp
  have u: "usleep (\<lambda>i. of_nat i * 10000000) (ucast (100000000 :: u64)) 100000 1 = Some 1"
    by (simp add: usleep_def divideRoundingUp_def)
  have l: "length (?ps (regs_bytes zero_regs)) = 392" by (simp add: zero_image_lengths)
  have "200000 + length (replicate 136 (0 :: 8 word)) + length (?ps (regs_bytes zero_regs)) + unat (payload_size r) \<le> 40000000"
    using l ranges_bounds(3) [OF r] by simp
  then have "\<exists>q h2 cf v. access_violation_main (translate cb) 1 (\<lambda>_. 0x800200000) (\<lambda>i. of_nat i * 10000000) 1 0x800100040 ?f zero_regs
        (idle_payload\<lparr>p_mon := core_of ?h cpu1 idle_ctl 100000000\<rparr>) = Some (EL1_Hang q) \<and>
      getState (host_of ?h cpu1 (p_mon q)) cpu1 = crashed_payload \<and> crash_pc (getCrashInfo (host_of ?h cpu1 (p_mon q)) cpu1) = 0x800100040 \<and>
      dumpCore (demo_env running_payload) (replicate 136 0) ?ps (replicate 8 0) (Some 40000000) cpu1 None
        (host_of ?h cpu1 (p_mon q)) = Some (h2, Some cpu1, Dumped cf) \<and> f_closed cf \<and> read_core (f_bytes cf) = Some v \<and>
      cv_segments v = [\<lparr>start_address = payload_address r, seg_data = mem_read (h_mem ?h) (payload_address r) (unat (payload_size r))\<rparr>] \<and>
      n_desc (cv_notes v ! 1) = ?ps (regs_bytes zero_regs) \<and>
      note_vreg (n_desc (cv_notes v ! 2)) 0 = ucast double_0_5 \<and> note_vreg (n_desc (cv_notes v ! 2)) 1 = ucast double_0_25"
    by (intro access_violation_is_diagnosed [OF g p cb demo_boot_tables u r demo_devmem demo_map]) (simp_all add: zero_image_lengths)
  then show ?thesis using r cb by blast
qed

end
