(* ===== verification/Executor.thy ===== *)
theory Executor
  imports Payload_Runtime
begin

text \<open>
  A processor core under the control of bmboot, as a machine: the core is in reset, boots the monitor, runs its
  main loop, executes the payload at EL1, or has stopped for good in a handler of the monitor. Its steps are the
  single accesses of the monitor's main loop to the IPC block, the monitor's exception vectors (theory Monitor), what
  the payload may do, and the stores of the manager, which can come between any two of the others. On top of it,
  the state machine of the executor domain as the figure in \<open>bmbook/architecture.tex\<close> (\<open>images/executor-fsm.pdf\<close>) draws it,
  the transitions of the code that the figure does not have, and a simulation.
\<close>

section \<open>Simulation up to stuttering\<close>

text \<open>
  A concrete system simulates an abstract one when, under an invariant, each step either leaves the abstract
  state alone or is an abstract step.
\<close>

locale stutter_simulation =
  fixes step :: "'s \<Rightarrow> 's \<Rightarrow> bool" and astep :: "'a \<Rightarrow> 'a \<Rightarrow> bool" and abs_state :: "'s \<Rightarrow> 'a" and inv :: "'s \<Rightarrow> bool"
  assumes inv_step: "inv s \<Longrightarrow> step s s' \<Longrightarrow> inv s'"
    and sim_step: "inv s \<Longrightarrow> step s s' \<Longrightarrow> abs_state s' = abs_state s \<or> astep (abs_state s) (abs_state s')"
begin

lemma inv_run: "step\<^sup>*\<^sup>* s s' \<Longrightarrow> inv s \<Longrightarrow> inv s'"
  by (induction rule: rtranclp_induct) (auto intro: inv_step)

lemma sim_run: "step\<^sup>*\<^sup>* s s' \<Longrightarrow> inv s \<Longrightarrow> astep\<^sup>*\<^sup>* (abs_state s) (abs_state s')"
proof (induction rule: rtranclp_induct)
  case (step t u)
  then have "inv t" using inv_run by blast
  with step show ?case
    using sim_step [of t u] by (auto intro: rtranclp.rtrancl_into_rtrancl)
qed simp

text \<open>An abstract state that is never left is never left by the concrete system.\<close>

lemma trapped:
  assumes "step\<^sup>*\<^sup>* s s'" and "inv s" and "\<And>a. \<not> astep (abs_state s) a"
  shows "abs_state s' = abs_state s"
  using sim_run [OF assms(1,2)] assms(3) by (metis converse_rtranclpE)

end

section \<open>The main loop, one access at a time\<close>

text \<open>
  Where the monitor is in \<open>main\<close> (\<open>monitor.cpp\<close>; the numbers are its lines): \<open>L_init\<close> before it publishes
  \<open>monitor_ready\<close> (37), \<open>L_poll\<close> at the comparison of the sequence numbers (41), \<open>L_switch\<close> at the \<open>switch\<close> (45),
  \<open>L_ack_noop\<close> before the acknowledgement of \<open>noop\<close> (48), \<open>L_starting\<close> before \<open>starting_payload\<close> is published (52),
  \<open>L_dummy\<close> before the instruction cache is flushed and the entry address is compared (57, 60), \<open>L_entry\<close>, \<open>L_size\<close>
  and \<open>L_crc\<close> before the reads of the three arguments of \<open>validatePayload\<close> (66 to 68), \<open>L_validate\<close> before the call,
  \<open>L_answer\<close> before the response is stored (70), \<open>L_ack\<close> before the acknowledgement (72), \<open>L_enter\<close> before the entry
  address is read again to enter it (76), \<open>L_ready\<close> before the return to \<open>monitor_ready\<close> (80).
\<close>

datatype loop_pc = L_init | L_poll | L_switch | L_ack_noop | L_starting | L_dummy | L_entry | L_size u64 | L_crc u64 u64
  | L_validate u64 u64 u32 | L_answer Response | L_ack Response | L_enter | L_ready

text \<open>
  \<open>EL1 (Some a)\<close>: a payload entered at address \<open>a\<close>; \<open>EL1 None\<close>: \<open>dummy_payload\<close>, or what a debugger has put in
  its place.
\<close>

datatype core_mode = InReset | Boot | MainLoop loop_pc | EL1 "u64 option" | Stopped

record core =
  mode :: core_mode
  mon :: mon_state

text \<open>\<open>main\<close> before the first store to the IPC block.\<close>

definition main_setup :: "nat \<Rightarrow> mon_state \<Rightarrow> mon_state option" where
  "main_setup cpu s =
     (case getIpcBlock cpu of
        None \<Rightarrow> None
      | Some _ \<Rightarrow>
          (case setupInterrupts cpu (ctl s) of
             None \<Rightarrow> None
           | Some c \<Rightarrow> Some (s\<lparr>CNTFRQ_EL0 := ucast (cntfrq (m2e (ipc s))), ctl := c\<rparr>)))"

text \<open>
  One access. The image is read by \<open>validatePayload\<close> in one step. The cache flush changes nothing that is shared
  and happens with the next read.
\<close>

fun loop_step :: "loop_pc \<Rightarrow> mon_state \<Rightarrow> core" where
  "loop_step L_init s = \<lparr>mode = MainLoop L_poll, mon = set_state monitor_ready s\<rparr>"
| "loop_step L_poll s =
     \<lparr>mode = MainLoop (if cmd_seq (m2e (ipc s)) \<noteq> cmd_ack (e2m (ipc s)) then L_switch else L_poll), mon = s\<rparr>"
| "loop_step L_switch s =
     \<lparr>mode = MainLoop (if cmd (m2e (ipc s)) = Command_noop then L_ack_noop
        else if cmd (m2e (ipc s)) = Command_start_payload then L_starting else L_poll), mon = s\<rparr>"
| "loop_step L_ack_noop s = \<lparr>mode = MainLoop L_poll, mon = acknowledge s\<rparr>"
| "loop_step L_starting s = \<lparr>mode = MainLoop L_dummy, mon = set_state starting_payload s\<rparr>"
| "loop_step L_dummy s =
     \<lparr>mode = (if payload_entry_address (m2e (ipc s)) = DUMMY_PAYLOAD then EL1 None else MainLoop L_entry),
      mon = s\<lparr>ctl := flushICache (ctl s)\<rparr>\<rparr>"
| "loop_step L_entry s = \<lparr>mode = MainLoop (L_size (payload_entry_address (m2e (ipc s)))), mon = s\<rparr>"
| "loop_step (L_size b) s = \<lparr>mode = MainLoop (L_crc b (payload_size_ipc (m2e (ipc s)))), mon = s\<rparr>"
| "loop_step (L_crc b n) s = \<lparr>mode = MainLoop (L_validate b n (payload_crc (m2e (ipc s)))), mon = s\<rparr>"
| "loop_step (L_validate b n k) s = \<lparr>mode = MainLoop (L_answer (validatePayload (phys_mem s) b n k)), mon = s\<rparr>"
| "loop_step (L_answer r) s = \<lparr>mode = MainLoop (L_ack r), mon = set_resp r s\<rparr>"
| "loop_step (L_ack r) s = \<lparr>mode = MainLoop (if r = crc_ok then L_enter else L_ready), mon = acknowledge s\<rparr>"
| "loop_step L_enter s = \<lparr>mode = EL1 (Some (payload_entry_address (m2e (ipc s)))), mon = s\<rparr>"
| "loop_step L_ready s = \<lparr>mode = MainLoop L_poll, mon = set_state monitor_ready s\<rparr>"

section \<open>The core\<close>

fun after_el3 :: "core_mode \<Rightarrow> el3_outcome \<Rightarrow> core option" where
  "after_el3 md (Resume s r) = Some \<lparr>mode = md, mon = s\<rparr>"
| "after_el3 md (Reboot s) = Some \<lparr>mode = Boot, mon = s\<rparr>"
| "after_el3 md (Hang s) = Some \<lparr>mode = Stopped, mon = s\<rparr>"
| "after_el3 md Undefined = None"

text \<open>
  The steps. \<open>enterEL1Payload\<close> routes fast interrupts, system errors and external aborts to EL3, other
  interrupts stay at EL1; so from EL1 the monitor is reached by \<open>smc\<close>, by a fast interrupt, by a system error,
  and by a synchronous exception of any class. While the monitor boots, its vectors are in place and system errors
  are unmasked; from \<open>L_init\<close> on interrupts are, too. In the monitor itself \<open>smc\<close> is never executed. An exception
  masks all interrupts, and the handlers that end in \<open>for (;;) {}\<close> do not unmask them: a stopped core makes no
  step. Values read from device registers, the exception syndrome and the interrupted registers are arbitrary.
  The payload may change memory, devices, and the save area for its registers in the IPC block; it is taken not
  to write to the rest of the IPC block. The manager may at any time change its own half of the IPC block and
  memory; while the core is in reset it initialises the whole block, and it does so before it releases the core
  (property \<open>startup_prepares_core\<close> of theory Domain).
\<close>

inductive core_step :: "nat \<Rightarrow> core \<Rightarrow> core \<Rightarrow> bool" for cpu where
  manager_init: "wf_ipc b \<Longrightarrow> core_step cpu \<lparr>mode = InReset, mon = s\<rparr> \<lparr>mode = InReset, mon = s\<lparr>ipc := b, phys_mem := m\<rparr>\<rparr>"
| power_on: "state (e2m (ipc s)) = raw_state invalid_state \<Longrightarrow> core_step cpu \<lparr>mode = InReset, mon = s\<rparr> \<lparr>mode = Boot, mon = s\<rparr>"
| manager_stores: "core_step cpu \<lparr>mode = md, mon = s\<rparr> \<lparr>mode = md, mon = s\<lparr>ipc := (ipc s)\<lparr>m2e := out\<rparr>, phys_mem := m\<rparr>\<rparr>"
| boot: "main_setup cpu s = Some s' \<Longrightarrow> core_step cpu \<lparr>mode = Boot, mon = s\<rparr> \<lparr>mode = MainLoop L_init, mon = s'\<rparr>"
| loop: "core_step cpu \<lparr>mode = MainLoop l, mon = s\<rparr> (loop_step l s)"
| el3_sync: "md = Boot \<or> md = MainLoop l \<Longrightarrow> length (regs r) = 31 \<Longrightarrow> drop_bit 26 esr AND 0b111111 \<noteq> EC_SMC \<Longrightarrow>
    after_el3 md (SynchronousInterrupt cpu EL3 esr elr f s r) = Some c \<Longrightarrow> core_step cpu \<lparr>mode = md, mon = s\<rparr> c"
| el3_irq: "after_el3 (MainLoop l) (IRQInterrupt EL3 iar s) = Some c \<Longrightarrow> core_step cpu \<lparr>mode = MainLoop l, mon = s\<rparr> c"
| el1_sync: "length (regs r) = 31 \<Longrightarrow> after_el3 (EL1 a) (SynchronousInterrupt cpu EL3 esr elr f s r) = Some c \<Longrightarrow>
    core_step cpu \<lparr>mode = EL1 a, mon = s\<rparr> c"
| el1_memory: "core_step cpu \<lparr>mode = EL1 a, mon = s\<rparr> \<lparr>mode = EL1 a, mon = s\<lparr>phys_mem := m\<rparr>\<rparr>"
| el1_device: "core_step cpu \<lparr>mode = EL1 a, mon = s\<rparr> \<lparr>mode = EL1 a, mon = dev_write x v s\<rparr>"
| el1_save: "length (regs r) = 31 \<Longrightarrow> core_step cpu \<lparr>mode = EL1 a, mon = s\<rparr> \<lparr>mode = EL1 a, mon = save_cpu f r s\<rparr>"
| fiq: "md = MainLoop l \<or> md = EL1 a \<Longrightarrow> after_el3 md (FIQInterrupt cpu EL3 iar isr s) = Some c \<Longrightarrow>
    core_step cpu \<lparr>mode = md, mon = s\<rparr> c"
| serror: "md = Boot \<or> md = MainLoop l \<or> md = EL1 a \<Longrightarrow> after_el3 md (SErrorInterrupt EL3 elr s) = Some c \<Longrightarrow>
    core_step cpu \<lparr>mode = md, mon = s\<rparr> c"

section \<open>The state machine of the domain\<close>

text \<open>
  The figure. \<open>unavailable\<close> and \<open>crashed_monitor\<close> are drawn without any edge; the return of a running or crashed payload
  to \<open>monitor_ready\<close> is the restart of the monitor by the manager.
\<close>

inductive figure_edge :: "DomainState \<Rightarrow> DomainState \<Rightarrow> bool" where
  "figure_edge in_reset monitor_ready"
| "figure_edge monitor_ready starting_payload"
| "figure_edge starting_payload running_payload"
| "figure_edge starting_payload crashed_payload"
| "figure_edge running_payload monitor_ready"
| "figure_edge running_payload crashed_payload"
| "figure_edge crashed_payload monitor_ready"

text \<open>
  What the code does beyond it: a refused image, or a kill request while a payload is being started, leads from
  \<open>starting_payload\<close> back to \<open>monitor_ready\<close>; a payload that has reported a crash may still report that it is
  running; and an exception in the monitor, in any state, is published as \<open>crashed_monitor\<close>.
\<close>

inductive extra_edge :: "DomainState \<Rightarrow> DomainState \<Rightarrow> bool" where
  refused: "extra_edge starting_payload monitor_ready"
| revived: "extra_edge crashed_payload running_payload"
| monitor_crash: "st \<in> {in_reset, monitor_ready, starting_payload, running_payload, crashed_payload} \<Longrightarrow>
    extra_edge st crashed_monitor"

inductive_simps edge_simps: "figure_edge s t" "extra_edge s t"

definition domain_edge :: "DomainState \<Rightarrow> DomainState \<Rightarrow> bool" where
  "domain_edge s t \<longleftrightarrow> figure_edge s t \<or> extra_edge s t"

definition published :: "mon_state \<Rightarrow> u32" where
  "published s = state (e2m (ipc s))"

text \<open>
  What is seen from outside. Until the monitor publishes a state for the first time the block contains
  \<open>invalid_state\<close>, which the figure does not have; it counts as \<open>in_reset\<close>. While the monitor restarts, the block
  still contains the state before.
\<close>

definition visible :: "core \<Rightarrow> DomainState" where
  "visible c =
     (if mode c = InReset \<or> decode_state (published (mon c)) = invalid_state then in_reset
      else decode_state (published (mon c)))"

text \<open>The states in which the monitor, at a place in \<open>main\<close>, can have left the domain.\<close>

fun loop_states :: "loop_pc \<Rightarrow> DomainState set" where
  "loop_states L_init = {invalid_state, monitor_ready, starting_payload, running_payload, crashed_payload}"
| "loop_states L_poll = {monitor_ready}"
| "loop_states L_switch = {monitor_ready}"
| "loop_states L_ack_noop = {monitor_ready}"
| "loop_states L_starting = {monitor_ready}"
| "loop_states _ = {starting_payload}"

fun mode_states :: "core_mode \<Rightarrow> DomainState set" where
  "mode_states InReset = UNIV"
| "mode_states Boot = loop_states L_init"
| "mode_states (MainLoop l) = loop_states l"
| "mode_states (EL1 a) = {starting_payload, running_payload, crashed_payload}"
| "mode_states Stopped = {crashed_monitor}"

text \<open>The mode of the core agrees with the state it publishes, and before an acknowledgement its answer is in place.\<close>

definition mode_ok :: "core \<Rightarrow> bool" where
  "mode_ok c \<longleftrightarrow> wf_ipc (ipc (mon c)) \<and>
     (mode c \<noteq> InReset \<longrightarrow> published (mon c) \<in> raw_state ` mode_states (mode c)) \<and>
     (\<forall>r. mode c = MainLoop (L_ack r) \<longrightarrow> cmd_resp (e2m (ipc (mon c))) = raw_Response r)"

section \<open>What the steps do to the published state\<close>

text \<open>
  An EL3 handler that starts in mode \<open>md\<close> returns there with the state as it was or as the payload reported it,
  or restarts the monitor, or stops the core with \<open>crashed_monitor\<close>; commands are not touched.
\<close>

definition el3_effect :: "core_mode \<Rightarrow> mon_state \<Rightarrow> core \<Rightarrow> bool" where
  "el3_effect md s c \<longleftrightarrow>
     wf_ipc (ipc (mon c)) \<and> m2e (ipc (mon c)) = m2e (ipc s) \<and>
     cmd_ack (e2m (ipc (mon c))) = cmd_ack (e2m (ipc s)) \<and> cmd_resp (e2m (ipc (mon c))) = cmd_resp (e2m (ipc s)) \<and>
     (mode c = md \<and> (\<exists>a. md = EL1 a) \<and>
        published (mon c) \<in> {published s, raw_state running_payload, raw_state crashed_payload} \<or>
      mode c = Boot \<and> published (mon c) = published s \<or>
      mode c = Stopped \<and> published (mon c) = raw_state crashed_monitor)"

lemmas effect_defs = el3_effect_def published_def

lemma reportCrash_fields [simp]:
  "cmd_ack (e2m (ipc (reportCrash el who desc a s))) = cmd_ack (e2m (ipc s))"
  "cmd_resp (e2m (ipc (reportCrash el who desc a s))) = cmd_resp (e2m (ipc s))"
  "m2e (ipc (reportCrash el who desc a s)) = m2e (ipc s)"
  "wf_ipc (ipc s) \<Longrightarrow> wf_ipc (ipc (reportCrash el who desc a s))"
  by (simp_all add: reportCrash_def set_state_def wf_ipc_def Let_def)

lemma save_cpu_fields [simp]:
  "cmd_ack (e2m (ipc (save_cpu f r s))) = cmd_ack (e2m (ipc s))"
  "cmd_resp (e2m (ipc (save_cpu f r s))) = cmd_resp (e2m (ipc s))"
  "m2e (ipc (save_cpu f r s)) = m2e (ipc s)" "state (e2m (ipc (save_cpu f r s))) = state (e2m (ipc s))"
  "wf_ipc (ipc s) \<Longrightarrow> length (regs r) = 31 \<Longrightarrow> wf_ipc (ipc (save_cpu f r s))"
  by (simp_all add: save_cpu_def wf_ipc_def)

lemma wf_ipc_set_state [simp]: "wf_ipc (ipc (set_state st s)) \<longleftrightarrow> wf_ipc (ipc s)"
  by (simp add: set_state_def wf_ipc_def)

lemma after_el3_Some:
  "after_el3 md oc = Some c \<longleftrightarrow>
     (\<exists>s r. oc = Resume s r \<and> c = \<lparr>mode = md, mon = s\<rparr>) \<or> (\<exists>s. oc = Reboot s \<and> c = \<lparr>mode = Boot, mon = s\<rparr>) \<or>
     (\<exists>s. oc = Hang s \<and> c = \<lparr>mode = Stopped, mon = s\<rparr>)"
  by (cases oc) auto

lemma stdout_effect:
  assumes "wf_ipc (ipc s)" and "writeToStdout (ipc s) ds = Some (b, n)"
  shows "el3_effect (EL1 a) s \<lparr>mode = EL1 a, mon = s\<lparr>ipc := b\<rparr>\<rparr>"
proof -
  have "stdout_safe b" "same_but_stdout (ipc s) b"
    using writeToStdout_safe [OF assms(1), of ds] assms(2) by auto
  then show ?thesis
    using erase_stdout_fields [of "e2m b" "e2m (ipc s)"]
    by (simp add: effect_defs same_but_stdout_def stdout_safe_def)
qed

lemma handleSmc_effect:
  assumes "wf_ipc (ipc s)" and "after_el3 (EL1 a) (handleSmc cpu el s r) = Some c"
  shows "el3_effect (EL1 a) s c"
proof (cases "regs r ! 0 = SMC_WRITE_STDOUT")
  case True
  then obtain b n where "writeToStdout (ipc s) (mem_read (phys_mem s) (regs r ! 1) (unat (regs r ! 2))) = Some (b, n)"
      "c = \<lparr>mode = EL1 a, mon = s\<lparr>ipc := b\<rparr>\<rparr>"
    using assms(2) by (auto simp: handleSmc_def Let_def after_el3_Some smc_ids split: option.splits)
  then show ?thesis using stdout_effect [OF assms(1)] by simp
next
  case False
  then show ?thesis
    using assms
    by (auto simp: handleSmc_def Let_def after_el3_Some resume_ctl_cases effect_defs reportPayloadStarted_def
        split: if_splits)
qed

lemma vectors_effect:
  assumes "wf_ipc (ipc s)"
  shows "after_el3 md (IRQInterrupt el iar s) = Some c \<Longrightarrow> el3_effect md s c"
    and "after_el3 md (SErrorInterrupt el elr s) = Some c \<Longrightarrow> el3_effect md s c"
    and "after_el3 md (FIQInterrupt cpu el iar isr s) = Some c \<Longrightarrow> el3_effect md s c"
proof -
  assume "after_el3 md (IRQInterrupt el iar s) = Some c"
  then show "el3_effect md s c" using assms by (auto simp: IRQInterrupt_def effect_defs)
next
  assume "after_el3 md (SErrorInterrupt el elr s) = Some c"
  then show "el3_effect md s c" using assms by (auto simp: SErrorInterrupt_def effect_defs)
next
  assume "after_el3 md (FIQInterrupt cpu el iar isr s) = Some c"
  then show "el3_effect md s c"
    using assms by (auto simp: FIQInterrupt_def Let_def effect_defs split: option.splits if_splits)
qed

lemma sync_effect:
  assumes "wf_ipc (ipc s)" and "length (regs r) = 31"
    and "after_el3 md (SynchronousInterrupt cpu el esr elr f s r) = Some c"
    and "md = EL1 a \<or> drop_bit 26 esr AND 0b111111 \<noteq> EC_SMC"
  shows "el3_effect md s c"
proof (cases "drop_bit 26 esr AND 0b111111 = EC_SMC")
  case True
  with assms show ?thesis by (auto simp: SynchronousInterrupt_def Let_def intro: handleSmc_effect)
next
  case False
  then show ?thesis using assms(1-3) by (auto simp: SynchronousInterrupt_def Let_def effect_defs)
qed

lemma main_setup_ipc: "main_setup cpu s = Some s' \<Longrightarrow> ipc s' = ipc s \<and> phys_mem s' = phys_mem s"
  by (auto simp: main_setup_def split: option.splits)

lemma ipc_updates [simp]:
  "published (set_state st s) = raw_state st" "published (acknowledge s) = published s" "published (set_resp r s) = published s"
  "wf_ipc (ipc (acknowledge s)) \<longleftrightarrow> wf_ipc (ipc s)" "wf_ipc (ipc (set_resp r s)) \<longleftrightarrow> wf_ipc (ipc s)"
  "m2e (ipc (set_state st s)) = m2e (ipc s)" "m2e (ipc (acknowledge s)) = m2e (ipc s)" "m2e (ipc (set_resp r s)) = m2e (ipc s)"
  "cmd_ack (e2m (ipc (set_state st s))) = cmd_ack (e2m (ipc s))" "cmd_ack (e2m (ipc (set_resp r s))) = cmd_ack (e2m (ipc s))"
  "cmd_ack (e2m (ipc (acknowledge s))) = cmd_ack (e2m (ipc s)) + 1"
  "cmd_resp (e2m (ipc (set_state st s))) = cmd_resp (e2m (ipc s))" "cmd_resp (e2m (ipc (acknowledge s))) = cmd_resp (e2m (ipc s))"
  "cmd_resp (e2m (ipc (set_resp r s))) = raw_Response r"
  by (simp_all add: published_def set_state_def acknowledge_def set_resp_def wf_ipc_def)

section \<open>The main loop of theory Monitor as a run\<close>

text \<open>With nothing in between, the single accesses are one pass of \<open>main_iteration\<close>, and the start is \<open>main_init\<close>.\<close>

fun after_main :: "main_outcome \<Rightarrow> core" where
  "after_main (Loop s) = \<lparr>mode = MainLoop L_poll, mon = s\<rparr>"
| "after_main (EnterEL1 a s) = \<lparr>mode = EL1 (Some a), mon = s\<rparr>"
| "after_main (EnterDummy s) = \<lparr>mode = EL1 None, mon = s\<rparr>"

definition alone :: "core \<Rightarrow> core" where
  "alone c = (case mode c of MainLoop l \<Rightarrow> loop_step l (mon c) | _ \<Rightarrow> c)"

lemma alone_simps [simp]: "alone \<lparr>mode = MainLoop l, mon = s\<rparr> = loop_step l s"
  by (simp add: alone_def)

lemma main_init_setup: "main_init cpu s = map_option (set_state monitor_ready) (main_setup cpu s)"
  by (simp add: main_init_def main_setup_def split: option.split)

lemma main_iteration_steps:
  "\<exists>n. (alone ^^ n) \<lparr>mode = MainLoop L_poll, mon = s\<rparr> = after_main (main_iteration s)"
proof -
  let ?c = "\<lparr>mode = MainLoop L_poll, mon = s\<rparr>" and ?in = "m2e (ipc s)"
  consider "cmd_seq ?in = cmd_ack (e2m (ipc s))" | "cmd_seq ?in \<noteq> cmd_ack (e2m (ipc s))" "cmd ?in \<noteq> Command_start_payload"
    | "cmd_seq ?in \<noteq> cmd_ack (e2m (ipc s))" "cmd ?in = Command_start_payload" "payload_entry_address ?in = DUMMY_PAYLOAD"
    | "cmd_seq ?in \<noteq> cmd_ack (e2m (ipc s))" "cmd ?in = Command_start_payload" "payload_entry_address ?in \<noteq> DUMMY_PAYLOAD"
    by blast
  then show ?thesis
  proof cases
    case 1
    then show ?thesis by (intro exI [of _ 0]) (simp add: main_iteration_def Let_def)
  next
    case 2
    then have "(alone ^^ (if cmd ?in = Command_noop then 3 else 2)) ?c = after_main (main_iteration s)"
      by (simp add: main_iteration_def Let_def eval_nat_numeral)
    then show ?thesis by blast
  next
    case 3
    then have "(alone ^^ 4) ?c = after_main (main_iteration s)"
      by (simp add: main_iteration_def Let_def eval_nat_numeral Command_start_payload_def Command_noop_def)
    then show ?thesis by blast
  next
    case 4
    then have "(alone ^^ 11) ?c = after_main (main_iteration s)"
      by (simp add: main_iteration_def Let_def eval_nat_numeral Command_start_payload_def Command_noop_def)
    then show ?thesis by blast
  qed
qed

lemma alone_run: "(core_step cpu)\<^sup>*\<^sup>* c ((alone ^^ n) c)"
proof (induction n)
  case (Suc n)
  have "(core_step cpu)\<^sup>*\<^sup>* d (alone d)" for d
    by (cases d; cases "mode d") (auto simp: alone_def intro: r_into_rtranclp loop)
  then have "(core_step cpu)\<^sup>*\<^sup>* ((alone ^^ n) c) (alone ((alone ^^ n) c))" .
  with Suc show ?case by simp
qed simp

section \<open>The simulation\<close>

inductive_cases core_stepE: "core_step cpu c c'"

lemma mode_okI:
  "mode_ok \<lparr>mode = InReset, mon = s\<rparr> \<longleftrightarrow> wf_ipc (ipc s)"
  "md \<noteq> InReset \<Longrightarrow> (\<And>r. md \<noteq> MainLoop (L_ack r)) \<Longrightarrow>
     mode_ok \<lparr>mode = md, mon = s\<rparr> \<longleftrightarrow> wf_ipc (ipc s) \<and> published s \<in> raw_state ` mode_states md"
  "mode_ok \<lparr>mode = MainLoop (L_ack r), mon = s\<rparr> \<longleftrightarrow>
     wf_ipc (ipc s) \<and> published s = raw_state starting_payload \<and> cmd_resp (e2m (ipc s)) = raw_Response r"
  by (auto simp: mode_ok_def)

lemma visible_eq:
  "visible \<lparr>mode = InReset, mon = s\<rparr> = in_reset"
  "published s = raw_state st \<Longrightarrow> md \<noteq> InReset \<Longrightarrow>
     visible \<lparr>mode = md, mon = s\<rparr> = (if st = invalid_state then in_reset else st)"
  by (simp_all add: visible_def)

text \<open>One lemma for all handlers: whatever has an \<open>el3_effect\<close> follows the state machine.\<close>

lemma el3_effect_follows:
  assumes "el3_effect md s c" and "mode_ok \<lparr>mode = md, mon = s\<rparr>" and "md = Boot \<or> md = MainLoop l \<or> md = EL1 a"
  shows "mode_ok c \<and> (visible c = visible \<lparr>mode = md, mon = s\<rparr> \<or> domain_edge (visible \<lparr>mode = md, mon = s\<rparr>) (visible c))"
proof -
  obtain md' t where c: "c = \<lparr>mode = md', mon = t\<rparr>" using core.cases by blast
  have md: "md \<noteq> InReset" using assms(3) by auto
  with assms(2) obtain st where st: "st \<in> mode_states md" "published s = raw_state st" by (auto simp: mode_ok_def)
  have sub: "mode_states md \<subseteq> mode_states Boot" using assms(3) by (cases l) auto
  have wf: "wf_ipc (ipc t)" using assms(1) c by (simp add: el3_effect_def)
  consider "md' = md" "\<exists>b. md = EL1 b" "published t \<in> raw_state ` {st, running_payload, crashed_payload}"
    | "md' = Boot" "published t = raw_state st" | "md' = Stopped" "published t = raw_state crashed_monitor"
    using assms(1) c st(2) by (auto simp: el3_effect_def)
  then show ?thesis
  proof cases
    case 1
    then obtain b st' where el1: "md = EL1 b" and st': "st' \<in> {st, running_payload, crashed_payload}"
        "published t = raw_state st'"
      by blast
    then have in3: "st \<in> {starting_payload, running_payload, crashed_payload}"
        "st' \<in> {starting_payload, running_payload, crashed_payload}"
      using st(1) by auto
    then have "visible c = st'" "visible \<lparr>mode = md, mon = s\<rparr> = st"
      using st'(2) st(2) el1 1(1) c by (auto simp: visible_eq)
    moreover have "st' = st \<or> domain_edge st st'" using in3 st'(1) by (auto simp: domain_edge_def edge_simps)
    moreover have "mode_ok c" using in3(2) st'(2) el1 1(1) c wf by (simp add: mode_okI)
    ultimately show ?thesis by simp
  next
    case 2
    have "mode_ok c" using 2 st sub c wf by (subst c) (auto simp: mode_okI)
    moreover have "visible c = visible \<lparr>mode = md, mon = s\<rparr>" using 2 st md by (simp add: c visible_eq)
    ultimately show ?thesis by simp
  next
    case 3
    have "mode_ok c" using 3 c wf by (auto simp: mode_okI)
    moreover have "extra_edge (visible \<lparr>mode = md, mon = s\<rparr>) crashed_monitor"
      using st sub md by (auto simp: visible_eq edge_simps)
    moreover have "visible c = crashed_monitor" using 3 c by (simp add: visible_eq)
    ultimately show ?thesis by (simp add: domain_edge_def)
  qed
qed

lemma loop_follows:
  assumes "mode_ok \<lparr>mode = MainLoop l, mon = s\<rparr>"
  shows "mode_ok (loop_step l s) \<and> (visible (loop_step l s) = visible \<lparr>mode = MainLoop l, mon = s\<rparr> \<or>
    domain_edge (visible \<lparr>mode = MainLoop l, mon = s\<rparr>) (visible (loop_step l s)))"
proof -
  obtain st where st: "st \<in> loop_states l" "published s = raw_state st" "wf_ipc (ipc s)"
    using assms by (auto simp: mode_ok_def)
  have "published (s\<lparr>ctl := x\<rparr>) = published s" "ipc (s\<lparr>ctl := x\<rparr>) = ipc s" for x by (simp_all add: published_def)
  with st assms show ?thesis
    by (cases l) (auto simp: mode_okI visible_eq domain_edge_def edge_simps)
qed

lemma step_follows:
  assumes "core_step cpu c c'" and "mode_ok c"
  shows "mode_ok c' \<and> (visible c' = visible c \<or> domain_edge (visible c) (visible c'))"
  using assms
proof cases
  case (manager_stores md s out m)
  then show ?thesis using assms(2) by (simp add: mode_ok_def visible_def published_def wf_ipc_def)
next
  case (power_on s)
  then show ?thesis using assms(2) by (simp add: mode_okI visible_eq published_def)
next
  case (boot s s')
  then show ?thesis using assms(2) main_setup_ipc [OF boot(3)] by (simp add: mode_ok_def visible_def published_def)
next
  case (loop l s)
  then show ?thesis using assms(2) loop_follows by simp
next
  case (el3_sync md l r esr elr f s)
  with assms(2) have "wf_ipc (ipc s)" by (simp add: mode_ok_def)
  from sync_effect [OF this el3_sync(3,5)] el3_sync(2,4) assms(2) show ?thesis
    unfolding el3_sync(1) by (intro el3_effect_follows [of md s c' l]) auto
next
  case (el3_irq l iar s)
  with assms(2) have "wf_ipc (ipc s)" by (simp add: mode_ok_def)
  from vectors_effect(1) [OF this el3_irq(2)] assms(2) show ?thesis
    unfolding el3_irq(1) by (intro el3_effect_follows [of "MainLoop l" s c' l]) auto
next
  case (el1_sync r a esr elr f s)
  with assms(2) have "wf_ipc (ipc s)" by (simp add: mode_ok_def)
  from sync_effect [OF this el1_sync(2,3)] assms(2) show ?thesis
    unfolding el1_sync(1) by (intro el3_effect_follows [of "EL1 a" s c' L_init a]) auto
next
  case (fiq md l a iar isr s)
  with assms(2) have "wf_ipc (ipc s)" by (simp add: mode_ok_def)
  from vectors_effect(3) [OF this fiq(3)] assms(2) fiq(2) show ?thesis
    unfolding fiq(1) by (intro el3_effect_follows [of md s c' l a]) auto
next
  case (serror md l a elr s)
  with assms(2) have "wf_ipc (ipc s)" by (simp add: mode_ok_def)
  from vectors_effect(2) [OF this serror(3)] assms(2) serror(2) show ?thesis
    unfolding serror(1) by (intro el3_effect_follows [of md s c' l a]) auto
next
  case (el1_save r a s f)
  then show ?thesis using assms(2) by (simp add: mode_okI visible_def published_def)
next
  case (el1_device a s x v)
  then show ?thesis using assms(2) by (simp add: mode_okI visible_def published_def)
next
  case (el1_memory a s m)
  then show ?thesis using assms(2) by (simp add: mode_okI visible_def published_def)
next
  case (manager_init b s m)
  then show ?thesis by (simp add: mode_okI visible_eq)
qed

interpretation core_sim: stutter_simulation "core_step cpu" domain_edge visible mode_ok for cpu
  by unfold_locales (use step_follows in blast)+

section \<open>What a mode comes from\<close>

text \<open>
  The places of one pass over a command, from the moment the command has been taken up. The loop goes through them
  without coming back to one before, so a run that stays among them is a part of a single pass.
\<close>

definition in_pass :: "core_mode \<Rightarrow> bool" where
  "in_pass md \<longleftrightarrow> (\<exists>l. md = MainLoop l \<and> l \<noteq> L_init \<and> l \<noteq> L_poll)"

definition pass_step :: "nat \<Rightarrow> core \<Rightarrow> core \<Rightarrow> bool" where
  "pass_step cpu c c' \<longleftrightarrow> core_step cpu c c' \<and> in_pass (mode c) \<and> in_pass (mode c')"

definition stay_step :: "nat \<Rightarrow> core_mode \<Rightarrow> core \<Rightarrow> core \<Rightarrow> bool" where
  "stay_step cpu md c c' \<longleftrightarrow> core_step cpu c c' \<and> mode c = md \<and> mode c' = md"

lemma in_pass_simps [simp]:
  "in_pass (MainLoop l) \<longleftrightarrow> l \<noteq> L_init \<and> l \<noteq> L_poll" "\<not> in_pass InReset" "\<not> in_pass Boot" "\<not> in_pass (EL1 a)" "\<not> in_pass Stopped"
  by (simp_all add: in_pass_def)

text \<open>A pass is entered and left, and a payload is entered, only by the main loop itself.\<close>

lemma step_enters:
  assumes "core_step cpu c c'" and "wf_ipc (ipc (mon c))" and "mode c' \<noteq> mode c"
    and "in_pass (mode c') \<or> mode c' = EL1 a"
  shows "\<exists>p. mode c = MainLoop p \<and> c' = loop_step p (mon c)"
  using assms
proof cases
  case (el3_sync md l r esr elr f s)
  with assms sync_effect [of s r md cpu EL3 esr elr f c'] show ?thesis by (auto simp: el3_effect_def)
next
  case (el3_irq l iar s)
  with assms vectors_effect(1) [of s "MainLoop l" EL3 iar c'] show ?thesis by (auto simp: el3_effect_def)
next
  case (el1_sync r a' esr elr f s)
  with assms sync_effect [of s r "EL1 a'" cpu EL3 esr elr f c' a'] show ?thesis by (auto simp: el3_effect_def)
next
  case (fiq md l a' iar isr s)
  with assms vectors_effect(3) [of s md cpu EL3 iar isr c'] show ?thesis by (auto simp: el3_effect_def)
next
  case (serror md l a' elr s)
  with assms vectors_effect(2) [of s md EL3 elr c'] show ?thesis by (auto simp: el3_effect_def)
qed (use assms(3,4) in auto)

lemma came_from:
  assumes "(core_step cpu)\<^sup>*\<^sup>* c0 c" and "mode_ok c0" and "mode c0 = InReset" and "in_pass (mode c) \<or> mode c = EL1 a"
  shows "\<exists>p s. (core_step cpu)\<^sup>*\<^sup>* c0 \<lparr>mode = MainLoop p, mon = s\<rparr> \<and> mode (loop_step p s) = mode c \<and>
    (stay_step cpu (mode c))\<^sup>*\<^sup>* (loop_step p s) c"
  using assms(1,4)
proof (induction rule: rtranclp_induct)
  case (step b c)
  have wf: "wf_ipc (ipc (mon b))" using core_sim.inv_run [OF step(1) assms(2)] by (simp add: mode_ok_def)
  show ?case
  proof (cases "mode c = mode b")
    case True
    then obtain p s where ps: "(core_step cpu)\<^sup>*\<^sup>* c0 \<lparr>mode = MainLoop p, mon = s\<rparr>" "mode (loop_step p s) = mode b"
        "(stay_step cpu (mode b))\<^sup>*\<^sup>* (loop_step p s) b"
      using step by metis
    moreover have "stay_step cpu (mode b) b c" using True step(2) by (simp add: stay_step_def)
    ultimately show ?thesis unfolding True by (blast intro: rtranclp.rtrancl_into_rtrancl)
  next
    case False
    with step_enters [OF step(2) wf] step(4)
    obtain p where p: "mode b = MainLoop p" "c = loop_step p (mon b)" by blast
    then have "b = \<lparr>mode = MainLoop p, mon = mon b\<rparr>" by (cases b) simp
    with p step(1) show ?thesis by (metis rtranclp.rtrancl_refl)
  qed
qed (use assms(3) in auto)

lemma stay_in_pass: "(stay_step cpu md)\<^sup>*\<^sup>* c c' \<Longrightarrow> in_pass md \<Longrightarrow> (pass_step cpu)\<^sup>*\<^sup>* c c'"
  by (induction rule: rtranclp_induct) (auto simp: stay_step_def pass_step_def intro: rtranclp.rtrancl_into_rtrancl)

text \<open>Inside a pass every place has one place before it.\<close>

fun before_pc :: "loop_pc \<Rightarrow> loop_pc \<Rightarrow> bool" where
  "before_pc L_switch p \<longleftrightarrow> p = L_poll"
| "before_pc L_ack_noop p \<longleftrightarrow> p = L_switch"
| "before_pc L_starting p \<longleftrightarrow> p = L_switch"
| "before_pc L_dummy p \<longleftrightarrow> p = L_starting"
| "before_pc L_entry p \<longleftrightarrow> p = L_dummy"
| "before_pc (L_size b) p \<longleftrightarrow> p = L_entry"
| "before_pc (L_crc b n) p \<longleftrightarrow> p = L_size b"
| "before_pc (L_validate b n k) p \<longleftrightarrow> p = L_crc b n"
| "before_pc (L_answer r) p \<longleftrightarrow> (\<exists>b n k. p = L_validate b n k)"
| "before_pc (L_ack r) p \<longleftrightarrow> p = L_answer r"
| "before_pc L_enter p \<longleftrightarrow> p = L_ack crc_ok"
| "before_pc L_ready p \<longleftrightarrow> (\<exists>r. p = L_ack r)"
| "before_pc _ p \<longleftrightarrow> False"

lemma before_pc: "mode (loop_step p s) = MainLoop l \<Longrightarrow> l \<noteq> L_init \<Longrightarrow> l \<noteq> L_poll \<Longrightarrow> before_pc l p"
  by (cases p) (auto split: if_splits)

lemma pass_came_from:
  assumes "(core_step cpu)\<^sup>*\<^sup>* c0 \<lparr>mode = MainLoop l, mon = t\<rparr>" and "mode_ok c0" and "mode c0 = InReset"
    and "l \<noteq> L_init" and "l \<noteq> L_poll"
  shows "\<exists>p s. (core_step cpu)\<^sup>*\<^sup>* c0 \<lparr>mode = MainLoop p, mon = s\<rparr> \<and> before_pc l p \<and> mode (loop_step p s) = MainLoop l \<and>
    (pass_step cpu)\<^sup>*\<^sup>* (loop_step p s) \<lparr>mode = MainLoop l, mon = t\<rparr> \<and>
    (p \<noteq> L_poll \<longrightarrow> (pass_step cpu)\<^sup>*\<^sup>* \<lparr>mode = MainLoop p, mon = s\<rparr> \<lparr>mode = MainLoop l, mon = t\<rparr>)"
proof -
  obtain p s where ps: "(core_step cpu)\<^sup>*\<^sup>* c0 \<lparr>mode = MainLoop p, mon = s\<rparr>" "mode (loop_step p s) = MainLoop l"
      "(stay_step cpu (MainLoop l))\<^sup>*\<^sup>* (loop_step p s) \<lparr>mode = MainLoop l, mon = t\<rparr>"
    using came_from [OF assms(1-3)] assms(4,5) by auto
  have b: "before_pc l p" using before_pc [OF ps(2) assms(4,5)] .
  have tail: "(pass_step cpu)\<^sup>*\<^sup>* (loop_step p s) \<lparr>mode = MainLoop l, mon = t\<rparr>"
    using stay_in_pass [OF ps(3)] assms(4,5) by simp
  have "p \<noteq> L_init" using b by (cases l) auto
  then have "p \<noteq> L_poll \<longrightarrow> pass_step cpu \<lparr>mode = MainLoop p, mon = s\<rparr> (loop_step p s)"
    using ps(2) assms(4,5) loop [of cpu p s] by (simp add: pass_step_def)
  with ps(1,2) b tail show ?thesis by (metis converse_rtranclp_into_rtranclp)
qed









section \<open>Which steps change the command words\<close>

lemma step_commands:
  assumes "core_step cpu c c'" and "mode_ok c" and "mode c \<noteq> InReset"
    and "cmd_ack (e2m (ipc (mon c'))) \<noteq> cmd_ack (e2m (ipc (mon c))) \<or>
         cmd_resp (e2m (ipc (mon c'))) \<noteq> cmd_resp (e2m (ipc (mon c))) \<or>
         mode c' = MainLoop L_switch \<and> mode c \<noteq> MainLoop L_switch"
  shows "\<exists>l. mode c = MainLoop l \<and> c' = loop_step l (mon c)"
  using assms
proof cases
  case (boot s s')
  with main_setup_ipc [of cpu s s'] assms(4) show ?thesis by auto
next
  case (el3_sync md l r esr elr f s)
  with assms sync_effect [of s r md cpu EL3 esr elr f c'] show ?thesis by (auto simp: el3_effect_def mode_ok_def)
next
  case (el3_irq l iar s)
  with assms vectors_effect(1) [of s "MainLoop l" EL3 iar c'] show ?thesis by (auto simp: el3_effect_def mode_ok_def)
next
  case (el1_sync r a' esr elr f s)
  with assms sync_effect [of s r "EL1 a'" cpu EL3 esr elr f c' a'] show ?thesis by (auto simp: el3_effect_def mode_ok_def)
next
  case (fiq md l a' iar isr s)
  with assms vectors_effect(3) [of s md cpu EL3 iar isr c'] show ?thesis by (auto simp: el3_effect_def mode_ok_def)
next
  case (serror md l a' elr s)
  with assms vectors_effect(2) [of s md EL3 elr c'] show ?thesis by (auto simp: el3_effect_def mode_ok_def)
qed (use assms(3,4) in auto)

lemma loop_step_resp:
  "cmd_resp (e2m (ipc (mon (loop_step l s)))) =
     (case l of L_answer r \<Rightarrow> raw_Response r | _ \<Rightarrow> cmd_resp (e2m (ipc s)))"
  by (cases l) simp_all

lemma loop_step_ack:
  "cmd_ack (e2m (ipc (mon (loop_step l s)))) =
     cmd_ack (e2m (ipc s)) + (case l of L_ack_noop \<Rightarrow> 1 | L_ack r \<Rightarrow> 1 | _ \<Rightarrow> 0)"
  by (cases l) simp_all

lemma visible_loop:
  "mode_ok c \<Longrightarrow> mode c = MainLoop l \<Longrightarrow> loop_states l = {st} \<Longrightarrow> st \<noteq> invalid_state \<Longrightarrow> visible c = st"
  by (cases c) (auto simp: mode_ok_def visible_eq)

section \<open>The runtime of the payload as steps of the core\<close>

lemma smc_step:
  assumes "smc cpu args p = Some (q, v)" and "length args \<le> 31"
  shows "core_step cpu \<lparr>mode = EL1 a, mon = p_mon p\<rparr> \<lparr>mode = EL1 a, mon = p_mon q\<rparr>"
proof -
  obtain r where "handleSmc cpu EL3 (p_mon p) (smc_regs args) = Resume (p_mon q) r"
    using assms(1) by (auto simp: smc_def split: el3_outcome.splits)
  then have "after_el3 (EL1 a) (SynchronousInterrupt cpu EL3 (push_bit 26 EC_SMC) 0 f (p_mon p) (smc_regs args)) =
      Some \<lparr>mode = EL1 a, mon = p_mon q\<rparr>" for f
    by (simp add: SynchronousInterrupt_def EC_SMC_def)
  moreover have "length (regs (smc_regs args)) = 31" using assms(2) by (simp add: smc_regs_def)
  ultimately show ?thesis by (rule el1_sync [rotated])
qed

text \<open>A synchronous exception of the payload: its registers are saved and the crash is reported.\<close>

lemma fault_run:
  assumes "SynchronousInterrupt_el1 cpu lit f r p = EL1_Hang q" and "length (regs r) = 31"
  shows "(core_step cpu)\<^sup>*\<^sup>* \<lparr>mode = EL1 a, mon = p_mon p\<rparr> \<lparr>mode = EL1 a, mon = p_mon q\<rparr>"
proof -
  let ?p = "p\<lparr>p_mon := save_cpu f r (p_mon p)\<rparr>"
  obtain v where "smc cpu [SMC_NOTIFY_PAYLOAD_CRASHED, lit ''EL1 SynchronousInterrupt'', ELR_EL1 p] ?p = Some (q, v)"
    using assms(1)
    by (auto simp: SynchronousInterrupt_el1_def el1_crash_def notifyPayloadCrashed_def split: option.splits)
  then have "core_step cpu \<lparr>mode = EL1 a, mon = p_mon ?p\<rparr> \<lparr>mode = EL1 a, mon = p_mon q\<rparr>"
    by (rule smc_step) simp
  moreover have "core_step cpu \<lparr>mode = EL1 a, mon = p_mon p\<rparr> \<lparr>mode = EL1 a, mon = p_mon ?p\<rparr>"
    using el1_save [OF assms(2)] by simp
  ultimately show ?thesis by (meson converse_rtranclp_into_rtranclp rtranclp.rtrancl_refl)
qed


section \<open>Properties\<close>

text \<open>
  C4: the executor follows its state machine. Take a core in reset with any IPC block, and any sequence of
  steps of monitor, payload, manager and exceptions, with the monitor's main loop interrupted at any access to the
  block: each step leaves what is published alone or takes one edge of the documented figure extended by three kinds of edges the figure does
  not draw (a start that is refused or killed goes from \<open>starting_payload\<close> back to \<open>monitor_ready\<close>, a payload that
  has reported a crash may report running, an exception in the monitor gives \<open>crashed_monitor\<close>); the mode of the core
  agrees with the published state; and once \<open>crashed_monitor\<close> is published no further step ever changes it.
\<close>

theorem core_follows_state_machine:
  assumes "(core_step cpu)\<^sup>*\<^sup>* c0 c" and "mode c0 = InReset" and "wf_ipc (ipc (mon c0))"
  shows "domain_edge\<^sup>*\<^sup>* in_reset (visible c) \<and> mode_ok c \<and>
    (\<forall>c'. core_step cpu c c' \<longrightarrow> visible c' = visible c \<or> domain_edge (visible c) (visible c')) \<and>
    (visible c = crashed_monitor \<longrightarrow> (\<forall>c'. (core_step cpu)\<^sup>*\<^sup>* c c' \<longrightarrow> visible c' = crashed_monitor))"
proof (intro conjI impI allI)
  have ok: "mode_ok c0" "visible c0 = in_reset" using assms(2,3) by (simp_all add: mode_ok_def visible_def)
  show "domain_edge\<^sup>*\<^sup>* in_reset (visible c)" using core_sim.sim_run [OF assms(1) ok(1)] ok(2) by simp
  show inv: "mode_ok c" using core_sim.inv_run [OF assms(1) ok(1)] .
  show "visible d = visible c \<or> domain_edge (visible c) (visible d)" if "core_step cpu c d" for d
    using step_follows [OF that inv] by simp
  fix c' assume "visible c = crashed_monitor" and "(core_step cpu)\<^sup>*\<^sup>* c c'"
  moreover have "\<not> domain_edge crashed_monitor a" for a by (simp add: domain_edge_def edge_simps)
  ultimately show "visible c' = crashed_monitor" using core_sim.trapped [of cpu c c'] inv by simp
qed

text \<open>
  A run on core 1: the manager initialises the block, issues a start command and releases the core, which boots,
  reports that it is ready and starts the ELF payload.
\<close>

definition demo_core :: core where
  "demo_core = \<lparr>mode = InReset, mon = start_elf_mon\<rparr>"

definition demo_mon :: mon_state where
  "demo_mon = start_elf_mon\<lparr>ipc := (ipc start_elf_mon)\<lparr>e2m := (e2m zero_IpcBlock)\<lparr>state := raw_state invalid_state\<rparr>\<rparr>\<rparr>"

lemma demo_setup: "\<exists>s. main_setup 1 demo_mon = Some s"
  using setupInterrupts_accesses [of 1 ch0 "ctl demo_mon"]
  by (auto simp: main_setup_def getIpcBlock_def getIpiChannelForCpu_def)

lemma start_elf_enters:
  assumes "phys_mem s = phys_mem start_elf_mon" and "m2e (ipc s) = m2e (ipc start_elf_mon)"
    and "cmd_ack (e2m (ipc s)) = 0"
  shows "\<exists>t. main_iteration s = EnterEL1 0x800100000 t"
proof -
  have "header_ok elf_header"
    by (simp add: header_ok_def elf_header_def ABI_MAGIC_NUMBER_def ABI_MAJOR_def ABI_MINOR_def)
  then have "validatePayload (phys_mem start_elf_mon) 0x800100000 0 0 = crc_ok"
    by (simp add: validatePayload_ok start_elf_mon_def elf_header_in_memory)
  with assms show ?thesis
    by (simp add: main_iteration_def Let_def start_elf_mon_def zero_IpcBlock_def Command_noop_def
        Command_start_payload_def DUMMY_PAYLOAD_def)
qed

lemma wf_demo_core [simp]: "mode demo_core = InReset" "wf_ipc (ipc (mon demo_core))"
  using wf_ipc_zero by (simp_all add: demo_core_def start_elf_mon_def wf_ipc_def)

lemma demo_run:
  "\<exists>s t. (core_step 1)\<^sup>*\<^sup>* demo_core \<lparr>mode = MainLoop L_poll, mon = s\<rparr> \<and>
     cmd_seq (m2e (ipc s)) \<noteq> cmd_ack (e2m (ipc s)) \<and>
     (core_step 1)\<^sup>*\<^sup>* demo_core \<lparr>mode = EL1 (Some 0x800100000), mon = t\<rparr>"
proof -
  have "wf_ipc (ipc demo_mon)" using wf_ipc_zero by (simp add: demo_mon_def start_elf_mon_def wf_ipc_def)
  then have "core_step 1 demo_core \<lparr>mode = InReset, mon = demo_mon\<rparr>"
    using manager_init [of "ipc demo_mon" 1 start_elf_mon "phys_mem start_elf_mon"] by (simp add: demo_core_def demo_mon_def)
  moreover have "core_step 1 \<lparr>mode = InReset, mon = demo_mon\<rparr> \<lparr>mode = Boot, mon = demo_mon\<rparr>"
    by (rule power_on) (simp add: demo_mon_def)
  moreover obtain s where s: "main_setup 1 demo_mon = Some s" using demo_setup by blast
  moreover note boot [OF s] loop [of 1 L_init s]
  ultimately have run: "(core_step 1)\<^sup>*\<^sup>* demo_core \<lparr>mode = MainLoop L_poll, mon = set_state monitor_ready s\<rparr>"
    by (simp add: converse_rtranclp_into_rtranclp)
  have io: "m2e (ipc s) = m2e (ipc start_elf_mon)" "cmd_ack (e2m (ipc s)) = 0" "phys_mem s = phys_mem start_elf_mon"
    using main_setup_ipc [OF s] by (simp_all add: demo_mon_def zero_IpcBlock_def)
  then obtain t where t: "main_iteration (set_state monitor_ready s) = EnterEL1 0x800100000 t"
    using start_elf_enters [of "set_state monitor_ready s"] by (auto simp: set_state_def)
  obtain n where "(alone ^^ n) \<lparr>mode = MainLoop L_poll, mon = set_state monitor_ready s\<rparr> = \<lparr>mode = EL1 (Some 0x800100000), mon = t\<rparr>"
    using main_iteration_steps [of "set_state monitor_ready s"] t by auto
  with alone_run [of 1 "\<lparr>mode = MainLoop L_poll, mon = set_state monitor_ready s\<rparr>" n] run
  have "(core_step 1)\<^sup>*\<^sup>* demo_core \<lparr>mode = EL1 (Some 0x800100000), mon = t\<rparr>" by (simp add: rtranclp_trans)
  with run main_iteration_enter [OF t] show ?thesis by blast
qed

lemma demo_ack: "\<exists>s. (core_step 1)\<^sup>*\<^sup>* demo_core \<lparr>mode = MainLoop (L_ack crc_ok), mon = s\<rparr>"
proof -
  have ok: "mode_ok demo_core" using wf_demo_core by (simp add: mode_ok_def)
  obtain t where "(core_step 1)\<^sup>*\<^sup>* demo_core \<lparr>mode = EL1 (Some 0x800100000), mon = t\<rparr>" using demo_run by blast
  from came_from [OF this ok wf_demo_core(1), of "Some 0x800100000"]
  obtain p s where ps: "(core_step 1)\<^sup>*\<^sup>* demo_core \<lparr>mode = MainLoop p, mon = s\<rparr>"
      "mode (loop_step p s) = EL1 (Some 0x800100000)"
    by auto
  then have "p = L_enter" by (cases p) (auto split: if_splits)
  with pass_came_from [OF ps(1) ok wf_demo_core(1)] show ?thesis by auto
qed

theorem core_follows_state_machine_witness:
  "\<exists>c. (core_step 1)\<^sup>*\<^sup>* demo_core c \<and> mode c = EL1 (Some 0x800100000) \<and> mode_ok c \<and> domain_edge\<^sup>*\<^sup>* in_reset (visible c)"
  using demo_run core_follows_state_machine [OF _ wf_demo_core] by (metis core.select_convs(1))



text \<open>
  C26: when commands are taken up, answered and acknowledged. In every reachable situation outside reset, with the
  main loop interrupted at any access: a command is taken up only while the published state is \<open>monitor_ready\<close> and its
  number differs from the acknowledged one; the answer changes only while \<open>starting_payload\<close> is published, to the
  result of the validation at hand; and the acknowledgement only grows by one, for \<open>noop\<close> in \<open>monitor_ready\<close> and for
  a start in \<open>starting_payload\<close>, after its answer has been stored.
\<close>

theorem commands_only_when_ready:
  assumes "(core_step cpu)\<^sup>*\<^sup>* c0 c" and "mode c0 = InReset" and "wf_ipc (ipc (mon c0))"
    and "core_step cpu c c'" and "mode c \<noteq> InReset"
  shows "(mode c' = MainLoop L_switch \<and> mode c \<noteq> MainLoop L_switch \<longrightarrow>
      visible c = monitor_ready \<and> cmd_seq (m2e (ipc (mon c))) \<noteq> cmd_ack (e2m (ipc (mon c)))) \<and>
    (cmd_resp (e2m (ipc (mon c'))) \<noteq> cmd_resp (e2m (ipc (mon c))) \<longrightarrow>
      visible c = starting_payload \<and>
      (\<exists>r. mode c = MainLoop (L_answer r) \<and> cmd_resp (e2m (ipc (mon c'))) = raw_Response r)) \<and>
    (cmd_ack (e2m (ipc (mon c'))) \<noteq> cmd_ack (e2m (ipc (mon c))) \<longrightarrow>
      cmd_ack (e2m (ipc (mon c'))) = cmd_ack (e2m (ipc (mon c))) + 1 \<and>
      (mode c = MainLoop L_ack_noop \<and> visible c = monitor_ready \<or>
       (\<exists>r. mode c = MainLoop (L_ack r) \<and> visible c = starting_payload \<and>
          cmd_resp (e2m (ipc (mon c))) = raw_Response r)))"
proof (intro conjI impI)
  have "mode_ok c0" using assms(2,3) by (simp add: mode_ok_def)
  then have ok: "mode_ok c" using core_sim.inv_run [OF assms(1)] by blast
  note loop = step_commands [OF assms(4) ok assms(5)] and vis = visible_loop [OF ok]
  {
    assume sw: "mode c' = MainLoop L_switch \<and> mode c \<noteq> MainLoop L_switch"
    then obtain l where l: "mode c = MainLoop l" "c' = loop_step l (mon c)" using loop by blast
    then have "l = L_poll" using sw before_pc [of l "mon c" L_switch] by simp
    with l sw vis show "visible c = monitor_ready" "cmd_seq (m2e (ipc (mon c))) \<noteq> cmd_ack (e2m (ipc (mon c)))"
      by (auto split: if_splits)
  next
    assume ne: "cmd_resp (e2m (ipc (mon c'))) \<noteq> cmd_resp (e2m (ipc (mon c)))"
    then obtain l where l: "mode c = MainLoop l" "c' = loop_step l (mon c)" using loop by blast
    then obtain r where "l = L_answer r" using ne by (cases l) (auto simp: loop_step_resp)
    with l vis show "visible c = starting_payload"
        "\<exists>r. mode c = MainLoop (L_answer r) \<and> cmd_resp (e2m (ipc (mon c'))) = raw_Response r"
      by auto
  next
    assume ne: "cmd_ack (e2m (ipc (mon c'))) \<noteq> cmd_ack (e2m (ipc (mon c)))"
    then obtain l where l: "mode c = MainLoop l" "c' = loop_step l (mon c)" using loop by blast
    then have what: "l = L_ack_noop \<or> (\<exists>r. l = L_ack r)" using ne by (cases l) (simp_all add: loop_step_ack)
    show "cmd_ack (e2m (ipc (mon c'))) = cmd_ack (e2m (ipc (mon c))) + 1"
      using l what by (auto simp: loop_step_ack)
    from ok have "mode c = MainLoop (L_ack r) \<Longrightarrow> cmd_resp (e2m (ipc (mon c))) = raw_Response r" for r
      by (simp add: mode_ok_def)
    then show "mode c = MainLoop L_ack_noop \<and> visible c = monitor_ready \<or>
         (\<exists>r. mode c = MainLoop (L_ack r) \<and> visible c = starting_payload \<and> cmd_resp (e2m (ipc (mon c))) = raw_Response r)"
      using l vis what by auto
  }
qed

theorem commands_only_when_ready_witness:
  "\<exists>s t. (core_step 1)\<^sup>*\<^sup>* demo_core \<lparr>mode = MainLoop (L_ack crc_ok), mon = s\<rparr> \<and>
     visible \<lparr>mode = MainLoop (L_ack crc_ok), mon = s\<rparr> = starting_payload \<and> cmd_resp (e2m (ipc s)) = raw_Response crc_ok \<and>
     (core_step 1)\<^sup>*\<^sup>* demo_core \<lparr>mode = MainLoop L_poll, mon = t\<rparr> \<and>
     visible \<lparr>mode = MainLoop L_poll, mon = t\<rparr> = monitor_ready \<and> cmd_seq (m2e (ipc t)) \<noteq> cmd_ack (e2m (ipc t))"
proof -
  obtain s where s: "(core_step 1)\<^sup>*\<^sup>* demo_core \<lparr>mode = MainLoop (L_ack crc_ok), mon = s\<rparr>" using demo_ack by blast
  obtain t where t: "(core_step 1)\<^sup>*\<^sup>* demo_core \<lparr>mode = MainLoop L_poll, mon = t\<rparr>"
      "cmd_seq (m2e (ipc t)) \<noteq> cmd_ack (e2m (ipc t))"
    using demo_run by blast
  from commands_only_when_ready [OF s wf_demo_core loop] commands_only_when_ready [OF t(1) wf_demo_core loop] s t
  show ?thesis by auto
qed

end
