(* ===== verification/Fp_Nesting.thy ===== *)
theory Fp_Nesting
  imports Vectors
begin

text \<open>
  Nested interrupts over the handlers of theory Vectors. The main results are that an interrupt is transparent
  for the interrupted code, with interrupts nested as deep as the context array has room for (eight contexts),
  and what happens when the first floating point instruction of all is executed by an interrupt handler.
\<close>

section \<open>Where things are, and what handlers may do\<close>

text \<open>
  The stack of the core, the bytes of it that a stretch of straight code may use below its stack pointer, the
  first slot of the context stack that is in use (0, unless the stack has underflown), and the addresses of the
  variables that code may write.
\<close>

record setting =
  lab :: labels
  stack_top :: u64
  stack_size :: int
  leaf_stack :: int
  first_slot :: int
  globals :: "u64 set"

definition stack_area :: "setting \<Rightarrow> u64 set" where
  "stack_area S = region (stack_top S) (- stack_size S) 0"

definition fpu_area :: "setting \<Rightarrow> u64 set" where
  "fpu_area S = region (FPUContext (lab S)) (0x210 * first_slot S) FPUContextSize"

definition base_area :: "setting \<Rightarrow> u64 set" where
  "base_area S = region (FPUContextBase (lab S)) 0 8"

definition wf_setting :: "setting \<Rightarrow> bool" where
  "wf_setting S \<longleftrightarrow> 0x110 \<le> leaf_stack S \<and> stack_size S < 2 ^ 31 \<and> - 1 \<le> first_slot S \<and>
     (stack_area S \<union> globals S) \<inter> (fpu_area S \<union> base_area S \<union> {FPUStatus (lab S)}) = {} \<and>
     stack_area S \<inter> globals S = {} \<and>
     fpu_area S \<inter> base_area S = {} \<and> FPUStatus (lab S) \<notin> fpu_area S \<union> base_area S"

text \<open>
  The procedure call standard, as far as the vectors rely on it: the stack pointer and the registers the vectors
  do not save come back unchanged, and code writes only below its stack pointer and to its variables.
\<close>

definition callee_saved :: "nat set" where
  "callee_saved = {20..28} \<union> {31}"

definition leaf_frame :: "setting \<Rightarrow> cpu \<Rightarrow> cpu \<Rightarrow> bool" where
  "leaf_frame S c c' \<longleftrightarrow> (\<forall>n \<in> callee_saved. xr c' n = xr c n) \<and>
     (\<forall>r. r \<noteq> SYS_FPCR \<and> r \<noteq> SYS_FPSR \<longrightarrow> sysr c' r = sysr c r) \<and>
     same_outside (region (xr c 31) (- leaf_stack S) 0 \<union> globals S) (cmem c) (cmem c')"

fun act_ok :: "setting \<Rightarrow> activity \<Rightarrow> bool"
  and acts_ok :: "setting \<Rightarrow> activity list \<Rightarrow> bool" where
  "act_ok S (Compute f) \<longleftrightarrow> (\<forall>c. leaf_frame S c (f c) \<and> fp_ctx (f c) = fp_ctx c)"
| "act_ok S (Float elr spsr f) \<longleftrightarrow> (\<forall>c. leaf_frame S c (f c))"
| "act_ok S (Interrupt elr spsr body) \<longleftrightarrow> acts_ok S body"
| "acts_ok S [] \<longleftrightarrow> True"
| "acts_ok S (a # as) \<longleftrightarrow> act_ok S a \<and> acts_ok S as"

fun depth :: "activity \<Rightarrow> int"
  and depths :: "activity list \<Rightarrow> int" where
  "depth (Interrupt elr spsr body) = 1 + depths body"
| "depth _ = 0"
| "depths [] = 0"
| "depths (a # as) = max (depth a) (depths as)"

fun stack_need :: "setting \<Rightarrow> activity \<Rightarrow> int"
  and stack_needs :: "setting \<Rightarrow> activity list \<Rightarrow> int" where
  "stack_need S (Interrupt elr spsr body) = 0xD0 + stack_needs S body"
| "stack_need S _ = leaf_stack S"
| "stack_needs S [] = 0"
| "stack_needs S (a # as) = max (stack_need S a) (stack_needs S as)"

text \<open>The context stack holds \<open>k\<close> contexts; the stack pointer is \<open>d\<close> below the top.\<close>

definition ctx_slot :: "setting \<Rightarrow> int \<Rightarrow> u64" where
  "ctx_slot S k = off (FPUContext (lab S)) (0x210 * k)"

definition at_level :: "setting \<Rightarrow> int \<Rightarrow> int \<Rightarrow> cpu \<Rightarrow> bool" where
  "at_level S d k c \<longleftrightarrow> xr c 31 = off (stack_top S) (- d) \<and> cmem c (FPUStatus (lab S)) \<noteq> 0 \<and>
     load64 (cmem c) (FPUContextBase (lab S)) = ctx_slot S k"

text \<open>What an interrupt at that level may change in memory.\<close>

definition may_write :: "setting \<Rightarrow> int \<Rightarrow> int \<Rightarrow> u64 set" where
  "may_write S d k = region (stack_top S) (- stack_size S) (- d) \<union>
     region (FPUContext (lab S)) (0x210 * k) FPUContextSize \<union> base_area S \<union> globals S"

definition transparent :: "setting \<Rightarrow> int \<Rightarrow> int \<Rightarrow> cpu \<Rightarrow> cpu \<Rightarrow> bool" where
  "transparent S d k c c' \<longleftrightarrow> (\<forall>n \<le> 31. xr c' n = xr c n) \<and> fp_ctx c' = fp_ctx c \<and> sysr c' CPTR = sysr c CPTR \<and>
     at_level S d k c' \<and> same_outside (may_write S d k) (cmem c) (cmem c')"

text \<open>
  The state \<open>c\<close> inside a handler that was entered with state \<open>c1\<close>: either floating point is still trapped and its
  registers are those of the interrupted code, or they are in the topmost context.
\<close>

definition phase :: "setting \<Rightarrow> int \<Rightarrow> int \<Rightarrow> cpu \<Rightarrow> cpu \<Rightarrow> bool" where
  "phase S d k c1 c \<longleftrightarrow> (\<forall>n \<in> callee_saved. xr c n = xr c1 n) \<and> xr c 31 = off (stack_top S) (- d) \<and>
     same_outside (may_write S d k) (cmem c1) (cmem c) \<and>
     (if fp_enabled (lab S) c then at_level S d (k + 1) c \<and> fp_ctx_at (cmem c) (ctx_slot S k) = fp_ctx c1
      else at_level S d k c \<and> fp_ctx c = fp_ctx c1)"

section \<open>Every stretch keeps the phase\<close>

lemma stack_below: "0 \<le> d \<Longrightarrow> d + k \<le> stack_size S \<Longrightarrow> region (off (stack_top S) (- d)) (- k) 0 \<subseteq> region (stack_top S) (- stack_size S) (- d)"
  by (simp add: region_off region_mono)

lemma stack_sub: "0 \<le> d \<Longrightarrow> region (stack_top S) (- stack_size S) (- d) \<subseteq> stack_area S"
  by (simp add: stack_area_def region_mono)

lemma ctx_slot_area: "first_slot S \<le> k \<Longrightarrow> k < 8 \<Longrightarrow> region (ctx_slot S k) 0 0x210 \<subseteq> fpu_area S"
  by (simp add: ctx_slot_def region_off fpu_area_def region_mono FPUContextSize_def)

lemma ctx_slot_region: "k < 8 \<Longrightarrow> region (ctx_slot S k) 0 0x210 \<subseteq> region (FPUContext (lab S)) (0x210 * k) FPUContextSize"
  by (simp add: ctx_slot_def region_off region_mono FPUContextSize_def)

text \<open>Writes to the stack and to variables disturb neither the context stack nor its bookkeeping.\<close>

lemma quiet_write:
  assumes "wf_setting S" and "same_outside R m m'" and "R \<subseteq> stack_area S \<union> globals S"
  shows "load64 m' (FPUContextBase (lab S)) = load64 m (FPUContextBase (lab S))"
    and "m' (FPUStatus (lab S)) = m (FPUStatus (lab S))"
    and "first_slot S \<le> k \<Longrightarrow> k < 8 \<Longrightarrow> fp_ctx_at m' (ctx_slot S k) = fp_ctx_at m (ctx_slot S k)"
proof -
  have dis: "R \<inter> (fpu_area S \<union> base_area S \<union> {FPUStatus (lab S)}) = {}"
    using assms(1,3) by (auto simp: wf_setting_def)
  then have "region (FPUContextBase (lab S)) 0 8 \<inter> R = {}" by (auto simp: base_area_def)
  then show "load64 m' (FPUContextBase (lab S)) = load64 m (FPUContextBase (lab S))"
    using load_same_outside(1) [OF assms(2), of "FPUContextBase (lab S)" 0] by simp
  show "m' (FPUStatus (lab S)) = m (FPUStatus (lab S))"
    using dis assms(2) by (auto simp: same_outside_def)
  assume "first_slot S \<le> k" "k < 8"
  then have "region (ctx_slot S k) 0 0x210 \<inter> R = {}" using ctx_slot_area dis by blast
  then show "fp_ctx_at m' (ctx_slot S k) = fp_ctx_at m (ctx_slot S k)"
    using fp_ctx_at_same_outside [OF assms(2)] by blast
qed


definition leaf_writes :: "setting \<Rightarrow> int \<Rightarrow> u64 set" where
  "leaf_writes S d = region (stack_top S) (- stack_size S) (- d) \<union> globals S"

lemma leaf_writes_sub:
  "0 \<le> d \<Longrightarrow> leaf_writes S d \<subseteq> stack_area S \<union> globals S" "leaf_writes S d \<subseteq> may_write S d k"
  using stack_sub [of d S] by (auto simp: leaf_writes_def may_write_def)

lemma leaf_step:
  assumes "leaf_frame S c c'" and "xr c 31 = off (stack_top S) (- d)" and "0 \<le> d" and "d + leaf_stack S \<le> stack_size S"
  shows "same_outside (leaf_writes S d) (cmem c) (cmem c')" "fp_enabled (lab S) c' = fp_enabled (lab S) c"
    "\<forall>n \<in> callee_saved. xr c' n = xr c n"
proof -
  have "region (xr c 31) (- leaf_stack S) 0 \<union> globals S \<subseteq> leaf_writes S d"
    using stack_below [OF assms(3,4)] assms(2) by (auto simp: leaf_writes_def)
  then show "same_outside (leaf_writes S d) (cmem c) (cmem c')"
    using assms(1) same_outside_mono by (auto simp: leaf_frame_def)
  show "fp_enabled (lab S) c' = fp_enabled (lab S) c"
    using assms(1) by (intro fp_enabled_cong) (simp add: leaf_frame_def)
  show "\<forall>n \<in> callee_saved. xr c' n = xr c n" using assms(1) by (simp add: leaf_frame_def)
qed

lemma callee_saved_31 [simp]: "31 \<in> callee_saved"
  by (simp add: callee_saved_def)

lemma at_level_quiet:
  assumes "wf_setting S" and "same_outside (leaf_writes S d) (cmem c) (cmem c')" and "0 \<le> d" and "xr c' 31 = xr c 31"
  shows "at_level S d' k c' = at_level S d' k c"
  using quiet_write(1,2) [OF assms(1,2) leaf_writes_sub(1) [OF assms(3)]] assms(4) by (simp add: at_level_def)

text \<open>Straight code, once floating point is enabled, or if it does not use it.\<close>

lemma phase_leaf:
  assumes "wf_setting S" and "phase S d k c1 c" and "leaf_frame S c c'"
    and "fp_enabled (lab S) c \<or> fp_ctx c' = fp_ctx c" and "0 \<le> d" and "d + leaf_stack S \<le> stack_size S" and "first_slot S \<le> k" and "k < 8"
  shows "phase S d k c1 c'"
proof -
  have sp: "xr c 31 = off (stack_top S) (- d)" using assms(2) by (simp add: phase_def)
  note st = leaf_step [OF assms(3) sp assms(5,6)]
  have sp': "xr c' 31 = xr c 31" using st(3) by simp
  note lev = at_level_quiet [OF assms(1) st(1) assms(5) sp']
  note ctx = quiet_write(3) [OF assms(1) st(1) leaf_writes_sub(1) [OF assms(5)] assms(7,8)]
  have "same_outside (may_write S d k) (cmem c1) (cmem c')"
    using assms(2) same_outside_trans [OF _ st(1)] leaf_writes_sub(2) [of S d k] by (auto simp: phase_def)
  then show ?thesis
    using assms(2,4) st(2,3) sp' lev ctx by (auto simp: phase_def split: if_splits)
qed

text \<open>The trap itself moves the registers of the interrupted code into a new context.\<close>

lemma phase_trap:
  assumes "wf_setting S" and "phase S d k c1 c" and "\<not> fp_enabled (lab S) c"
    and "0 \<le> d" and "d + leaf_stack S \<le> stack_size S" and "first_slot S \<le> k" and "k < 8"
  shows "phase S d k c1 (fp_trap_taken (lab S) elr spsr c) \<and> fp_enabled (lab S) (fp_trap_taken (lab S) elr spsr c)"
proof -
  let ?c' = "fp_trap_taken (lab S) elr spsr c" and ?V = "FPUContextBase (lab S)" and ?B = "ctx_slot S k"
  have c: "at_level S d k c" "fp_ctx c = fp_ctx c1" "same_outside (may_write S d k) (cmem c1) (cmem c)"
      "\<forall>n \<in> callee_saved. xr c n = xr c1 n"
    using assms(2,3) by (simp_all add: phase_def)
  have sp: "xr c 31 = off (stack_top S) (- d)" using c(1) by (simp add: at_level_def)
  have "d + 0x110 \<le> stack_size S" using assms(1,5) by (simp add: wf_setting_def)
  then have stk: "region (xr c 31) (- 0x110) 0 \<subseteq> region (stack_top S) (- stack_size S) (- d)"
      "region (xr c 31) (- 0x110) 0 \<subseteq> stack_area S"
    using stack_below [of d "0x110" S] stack_sub [of d S] assms(4) sp by auto
  have B: "region ?B 0 0x210 \<subseteq> fpu_area S" "region ?B 0 0x210 \<subseteq> region (FPUContext (lab S)) (0x210 * k) FPUContextSize"
    using ctx_slot_area ctx_slot_region assms(6,7) by blast+
  have V: "region ?V 0 8 = base_area S" by (simp add: base_area_def)
  have d1: "region ?B 0 0x210 \<inter> region ?V 0 8 = {}" and d2: "region (xr c 31) (- 0x110) 0 \<inter> region ?V 0 8 = {}"
    and d3: "region (xr c 31) (- 0x110) 0 \<inter> region ?B 0 0x210 = {}" and d4: "FPUStatus (lab S) \<notin> region (xr c 31) (- 0x110) 0"
    using assms(1) stk(2) B(1) V by (auto simp: wf_setting_def)
  have st: "cmem c (FPUStatus (lab S)) \<noteq> 0" and base: "load64 (cmem c) ?V = ?B" using c(1) by (simp_all add: at_level_def)
  note eff = fp_trap_taken_effect [OF st base d1 d2 d3 d4, where elr = elr and spsr = spsr]
  have "same_outside (may_write S d k) (cmem c1) (cmem ?c')"
    by (rule same_outside_trans [OF c(3) eff(6)]) (use stk(1) B(2) V in \<open>auto simp: may_write_def\<close>)
  moreover have "cmem ?c' (FPUStatus (lab S)) = cmem c (FPUStatus (lab S))"
    using eff(6) d4 assms(1) B(1) V by (auto simp: same_outside_def wf_setting_def)
  moreover have "off ?B 0x210 = ctx_slot S (k + 1)" by (simp add: ctx_slot_def)
  moreover have "\<forall>n \<in> callee_saved. xr ?c' n = xr c n" using eff(1) by (auto simp: callee_saved_def)
  ultimately show ?thesis
    using eff(3-5) c st sp by (simp add: phase_def at_level_def)
qed


lemma phase_float:
  assumes "wf_setting S" and "phase S d k c1 c" and "\<And>c. leaf_frame S c (f c)"
    and "0 \<le> d" and "d + leaf_stack S \<le> stack_size S" and "first_slot S \<le> k" and "k < 8"
  shows "phase S d k c1 (run (lab S) (Float elr spsr f) c)"
proof (cases "fp_enabled (lab S) c")
  case True
  then show ?thesis using phase_leaf [OF assms(1,2,3)] assms(4-7) by simp
next
  case False
  from phase_trap [OF assms(1,2) False assms(4-7)]
  show ?thesis using phase_leaf [OF assms(1) _ assms(3)] assms(4-7) False by simp
qed

text \<open>A nested interrupt that is transparent.\<close>

lemma phase_interrupt:
  assumes "phase S d k c1 c" and "first_slot S \<le> k" and "k < 8" and "0 \<le> d" and "wf_setting S"
    and "\<And>j. at_level S d j c \<Longrightarrow> k \<le> j \<Longrightarrow> j \<le> k + 1 \<Longrightarrow> transparent S d j c c'"
  shows "phase S d k c1 c'"
proof -
  define j where "j = (if fp_enabled (lab S) c then k + 1 else k)"
  have "at_level S d j c" using assms(1) by (auto simp: phase_def j_def split: if_splits)
  then have t: "transparent S d j c c'" using assms(6) by (simp add: j_def)
  have en: "fp_enabled (lab S) c' = fp_enabled (lab S) c"
    using t by (intro fp_enabled_cong) (simp add: transparent_def)
  have out: "same_outside (may_write S d j) (cmem c) (cmem c')" using t by (simp add: transparent_def)
  have "may_write S d j \<subseteq> may_write S d k"
    using region_mono [of "0x210 * k" "0x210 * j" FPUContextSize FPUContextSize "FPUContext (lab S)"]
    by (auto simp: may_write_def j_def)
  then have "same_outside (may_write S d k) (cmem c1) (cmem c')"
    using assms(1) same_outside_trans [OF _ out] by (auto simp: phase_def)
  moreover have "fp_ctx_at (cmem c') (ctx_slot S k) = fp_ctx_at (cmem c) (ctx_slot S k)" if "fp_enabled (lab S) c"
  proof (rule fp_ctx_at_same_outside [OF out])
    have "- 1 \<le> k" using assms(2,5) by (simp add: wf_setting_def)
    then have "region (ctx_slot S k) 0 0x210 \<inter> region (FPUContext (lab S)) (0x210 * j) FPUContextSize = {}"
      using assms(3) that by (simp add: ctx_slot_def region_off j_def region_disjoint FPUContextSize_def)
    moreover have "region (ctx_slot S k) 0 0x210 \<subseteq> fpu_area S" using ctx_slot_area assms(2,3) by simp
    ultimately show "region (ctx_slot S k) 0 0x210 \<inter> may_write S d j = {}"
      using assms(4,5) stack_sub [of d S] by (auto simp: may_write_def wf_setting_def)
  qed
  moreover have "\<forall>n \<in> callee_saved. xr c' n = xr c n" using t by (auto simp: transparent_def callee_saved_def)
  ultimately show ?thesis
    using assms(1) t en by (auto simp: phase_def transparent_def at_level_def j_def split: if_splits)
qed

section \<open>Interrupts are transparent\<close>

lemma irq_saved_same_outside:
  assumes "same_outside R m m'" and "region s (- 0xD0) 0 \<inter> R = {}"
  shows "irq_saved m' s = irq_saved m s"
proof -
  have "load64 m' (off s i) = load64 m (off s i)" if "- 0xD0 \<le> i" "i + 8 \<le> 0" for i
    using load_same_outside(1) [OF assms(1)] disjoint_mono [OF assms(2) region_mono [OF that]] by simp
  then show ?thesis by (simp add: irq_saved_def)
qed

lemma irq_registers_eq:
  assumes "irq_registers c' = irq_registers c"
  shows "n < 20 \<or> n = 29 \<or> n = 30 \<Longrightarrow> xr c' n = xr c n" "sysr c' CPTR = sysr c CPTR"
proof -
  have eq: "map (xr c') ([0..<20] @ [29, 30]) = map (xr c) ([0..<20] @ [29, 30])" "sysr c' CPTR = sysr c CPTR"
    using assms by (simp_all add: irq_registers_def)
  then show "sysr c' CPTR = sysr c CPTR" by simp
  assume "n < 20 \<or> n = 29 \<or> n = 30"
  then have "n \<in> set ([0..<20] @ [29, 30])" by auto
  then show "xr c' n = xr c n" using eq(1) unfolding map_eq_conv by (rule bspec [rotated])
qed

text \<open>The end of the interrupt, when the handler's body has kept the phase.\<close>

lemma irq_reload:
  assumes "phase S d k c1 c" and "wf_setting S" and "0 \<le> d" and "first_slot S \<le> k" and "k < 8"
  defines "c2 \<equiv> exec [MRS 0 CPTR, ANDI 0 0 (fp_bit (lab S))] c"
  defines "c3 \<equiv> (if (if at_EL3 (lab S) then xr c2 0 \<noteq> 0 else xr c2 0 = 0) then c2
      else exec (restorefloatregister (FPUContextBase (lab S))) c2)"
  shows "fp_ctx c3 = fp_ctx c1" "load64 (cmem c3) (FPUContextBase (lab S)) = ctx_slot S k"
    "cmem c3 (FPUStatus (lab S)) \<noteq> 0" "same_outside (may_write S d k) (cmem c1) (cmem c3)"
    "\<forall>n \<in> callee_saved. xr c3 n = xr c1 n"
proof -
  have c2: "cmem c2 = cmem c" "fp_ctx c2 = fp_ctx c" "\<forall>n \<in> callee_saved. xr c2 n = xr c n"
    by (simp_all add: c2_def fp_ctx_def callee_saved_def)
  have test: "(if at_EL3 (lab S) then xr c2 0 \<noteq> 0 else xr c2 0 = 0) \<longleftrightarrow> \<not> fp_enabled (lab S) c"
    by (simp add: c2_def fp_enabled_def)
  have "fp_ctx c3 = fp_ctx c1 \<and> load64 (cmem c3) (FPUContextBase (lab S)) = ctx_slot S k \<and>
    cmem c3 (FPUStatus (lab S)) \<noteq> 0 \<and> same_outside (may_write S d k) (cmem c1) (cmem c3) \<and>
    (\<forall>n \<in> callee_saved. xr c3 n = xr c1 n)"
  proof (cases "fp_enabled (lab S) c")
    case False
    then show ?thesis using assms(1) c2 test by (simp add: c3_def phase_def at_level_def)
  next
    case True
    then have lev: "load64 (cmem c2) (FPUContextBase (lab S)) = ctx_slot S (k + 1)"
      and ctx: "fp_ctx_at (cmem c2) (ctx_slot S k) = fp_ctx c1" and st: "cmem c (FPUStatus (lab S)) \<noteq> 0"
      and out: "same_outside (may_write S d k) (cmem c1) (cmem c)"
      using assms(1) c2 by (simp_all add: phase_def at_level_def)
    have slot: "off (ctx_slot S (k + 1)) (- 0x210) = ctx_slot S k" by (simp add: ctx_slot_def)
    have c3: "c3 = exec (restorefloatregister (FPUContextBase (lab S))) c2" using test True by (simp add: c3_def)
    note rf = restorefloat_effect [OF lev, folded c3, unfolded slot]
    have out3: "same_outside (base_area S) (cmem c) (cmem c3)" using rf(3) c2(1) by (simp add: base_area_def)
    have "same_outside (may_write S d k) (cmem c1) (cmem c3)"
      by (rule same_outside_trans [OF out out3]) (simp_all add: may_write_def le_supI1)
    moreover have "cmem c3 (FPUStatus (lab S)) \<noteq> 0"
      using out3 st assms(2) by (auto simp: same_outside_def wf_setting_def)
    moreover have "\<forall>n \<in> callee_saved. xr c3 n = xr c1 n"
      using rf(5) c2(3) assms(1) by (auto simp: callee_saved_def phase_def)
    ultimately show ?thesis using rf(1,2) ctx by simp
  qed
  then show "fp_ctx c3 = fp_ctx c1" "load64 (cmem c3) (FPUContextBase (lab S)) = ctx_slot S k"
    "cmem c3 (FPUStatus (lab S)) \<noteq> 0" "same_outside (may_write S d k) (cmem c1) (cmem c3)"
    "\<forall>n \<in> callee_saved. xr c3 n = xr c1 n" by blast+
qed


lemma irq_frame_apart:
  assumes "wf_setting S" and "0 \<le> d" and "d + 0xD0 \<le> stack_size S" and "first_slot S \<le> k"
  shows "region (off (stack_top S) (- d)) (- 0xD0) 0 \<inter> may_write S (d + 0xD0) k = {}"
proof -
  have "region (off (stack_top S) (- d)) (- 0xD0) 0 \<subseteq> stack_area S"
    using assms(2,3) by (simp add: region_off stack_area_def region_mono)
  moreover have "region (FPUContext (lab S)) (0x210 * k) FPUContextSize \<subseteq> fpu_area S"
    using assms(4) by (simp add: fpu_area_def region_mono)
  moreover have "region (off (stack_top S) (- d)) (- 0xD0) 0 \<inter> region (stack_top S) (- stack_size S) (- (d + 0xD0)) = {}"
    using assms(1-3) by (simp add: region_off region_disjoint wf_setting_def)
  ultimately show ?thesis using assms(1) by (auto simp: may_write_def wf_setting_def)
qed

lemma interrupt_entry:
  fixes elr spsr :: u64
  assumes "wf_setting S" and "at_level S d k c" and "0 \<le> d" and "d + 0xD0 \<le> stack_size S"
  defines "c1 \<equiv> exec (irq_entry (lab S)) (take_exception elr spsr c)"
  shows "phase S (d + 0xD0) k c1 c1" "fp_ctx c1 = fp_ctx c" "same_outside (leaf_writes S d) (cmem c) (cmem c1)"
    "20 \<le> n \<Longrightarrow> n < 29 \<Longrightarrow> xr c1 n = xr c n"
    "irq_saved (cmem c1) (off (stack_top S) (- d)) = irq_registers (take_exception elr spsr c)"
proof -
  let ?s = "off (stack_top S) (- d)"
  define c0 where "c0 = take_exception elr spsr c"
  have c0: "xr c0 = xr c" "cmem c0 = cmem c" "fp_ctx c0 = fp_ctx c" "xr c0 31 = ?s"
    using assms(2) by (simp_all add: c0_def take_exception_def fp_ctx_def at_level_def)
  note en = irq_entry_effect [where L = "lab S" and c = c0, unfolded c0(4)]
  have c1: "c1 = exec (irq_entry (lab S)) c0" by (simp add: c1_def c0_def)
  have "region ?s (- 0xD0) 0 \<subseteq> leaf_writes S d"
    using stack_below [OF assms(3,4)] by (auto simp: leaf_writes_def)
  then show out: "same_outside (leaf_writes S d) (cmem c) (cmem c1)"
    using same_outside_mono [OF en(7)] c0(2) c1 by simp
  have sp: "xr c1 31 = off (stack_top S) (- (d + 0xD0))" using en(2) c1 by simp
  have "at_level S (d + 0xD0) k c1"
    using quiet_write(1,2) [OF assms(1) out leaf_writes_sub(1) [OF assms(3)]] assms(2) sp by (simp add: at_level_def)
  then show "phase S (d + 0xD0) k c1 c1" using en(6) c1 sp by (simp add: phase_def)
  show "fp_ctx c1 = fp_ctx c" using en(4,5) c0(3) c1 by (simp add: fp_ctx_def)
  show "20 \<le> n \<Longrightarrow> n < 29 \<Longrightarrow> xr c1 n = xr c n" using en(3) c0(1) c1 by simp
  show "irq_saved (cmem c1) ?s = irq_registers (take_exception elr spsr c)" using en(1) c1 c0_def by simp
qed

lemma interrupt_step:
  assumes "wf_setting S" and "at_level S d k c" and "0 \<le> d" and "d + 0xD0 \<le> stack_size S" and "first_slot S \<le> k" and "k < 8"
    and body: "\<And>c1. phase S (d + 0xD0) k c1 c1 \<Longrightarrow> phase S (d + 0xD0) k c1 (run_all (lab S) body c1)"
  shows "transparent S d k c (run (lab S) (Interrupt elr spsr body) c)"
proof -
  let ?s = "off (stack_top S) (- d)" and ?L = "lab S"
  define c1 where "c1 = exec (irq_entry ?L) (take_exception elr spsr c)"
  define c2 where "c2 = exec [MRS 0 CPTR, ANDI 0 0 (fp_bit ?L)] (run_all ?L body c1)"
  define c3 where "c3 = (if (if at_EL3 ?L then xr c2 0 \<noteq> 0 else xr c2 0 = 0) then c2
      else exec (restorefloatregister (FPUContextBase ?L)) c2)"
  define c4 where "c4 = exec irq_exit c3"
  note en = interrupt_entry [OF assms(1-4), where elr = elr and spsr = spsr, folded c1_def]
  have "0 \<le> d + 0xD0" using assms(3) by simp
  note re = irq_reload [OF body [OF en(1)] assms(1) this assms(5,6), folded c2_def, folded c3_def]
  have sp3: "xr c3 31 = off ?s (- 0xD0)" using re(5) en(1) by (simp add: phase_def)
  note ex = irq_exit_effect [OF sp3, folded c4_def]
  have run: "run ?L (Interrupt elr spsr body) c = c4"
    by (simp add: IRQInterruptHandler_def Let_def c4_def c3_def c2_def c1_def)
  have "irq_saved (cmem c3) ?s = irq_saved (cmem c1) ?s"
    using irq_saved_same_outside [OF re(4) irq_frame_apart [OF assms(1,3,4,5)]] .
  then have "irq_registers c4 = irq_registers (take_exception elr spsr c)" using ex(1) en(5) by simp
  note regs = irq_registers_eq [OF this]
  have sp: "xr c 31 = ?s" using assms(2) by (simp add: at_level_def)
  have "xr c4 n = xr c n" if le: "n \<le> 31" for n
  proof -
    consider "n < 20 \<or> n = 29 \<or> n = 30" | "20 \<le> n" "n < 29" | "n = 31" using le by linarith
    then show ?thesis
    proof cases
      case 1
      then show ?thesis using regs(1) by (simp add: take_exception_def)
    next
      case 2
      then have "n \<in> callee_saved" by (simp add: callee_saved_def)
      with 2 show ?thesis using ex(3) [of n] re(5) en(4) by simp
    next
      case 3
      then show ?thesis using ex(2) sp by simp
    qed
  qed
  moreover have "fp_ctx c4 = fp_ctx c" using ex(5,6) re(1) en(2) by (simp add: fp_ctx_def)
  moreover have "sysr c4 CPTR = sysr c CPTR" using regs(2) by (simp add: take_exception_def)
  moreover have "at_level S d k c4" using ex(2,4) re(2,3) by (simp add: at_level_def)
  moreover have "same_outside (may_write S d k) (cmem c) (cmem c4)"
  proof (rule same_outside_trans [OF en(3)])
    show "same_outside (may_write S (d + 0xD0) k) (cmem c1) (cmem c4)" using re(4) ex(4) by simp
    show "may_write S (d + 0xD0) k \<subseteq> may_write S d k"
      using region_mono [of "- stack_size S" "- stack_size S" "- (d + 0xD0)" "- d" "stack_top S"]
      by (auto simp: may_write_def)
  qed (rule leaf_writes_sub(2))
  ultimately show ?thesis using run by (simp add: transparent_def)
qed

lemma depths_nonneg: "0 \<le> depth a" "0 \<le> depths as"
  by (induction a and "as" rule: depth_depths.induct) auto

lemma stack_needs_nonneg: "wf_setting S \<Longrightarrow> 0 \<le> stack_need S a" "wf_setting S \<Longrightarrow> 0 \<le> stack_needs S as"
  by (induction S a and S "as" rule: stack_need_stack_needs.induct) (auto simp: wf_setting_def)


text \<open>One activity inside a handler keeps the phase, if nested interrupts are transparent.\<close>

lemma phase_activity:
  assumes "wf_setting S" and "act_ok S a" and "phase S d k c1 c" and "0 \<le> d" and "d + stack_need S a \<le> stack_size S"
    and "first_slot S \<le> k" and "k < 8"
    and "\<And>elr spsr body j. a = Interrupt elr spsr body \<Longrightarrow> at_level S d j c \<Longrightarrow> k \<le> j \<Longrightarrow> j \<le> k + 1 \<Longrightarrow>
      transparent S d j c (run (lab S) a c)"
  shows "phase S d k c1 (run (lab S) a c)"
proof (cases a)
  case (Compute f)
  then show ?thesis using phase_leaf [OF assms(1,3), of "f c"] assms(2,4-7) by simp
next
  case (Float elr spsr f)
  then show ?thesis using phase_float [OF assms(1,3)] assms(2,4-7) by simp
next
  case (Interrupt elr spsr body)
  then show ?thesis using phase_interrupt [OF assms(3,6,7,4,1)] assms(8) by blast
qed

lemma run_transparent:
  "\<lbrakk>L = lab S; wf_setting S; act_ok S a; \<exists>elr spsr body. a = Interrupt elr spsr body; at_level S d k c; 0 \<le> d;
    d + stack_need S a \<le> stack_size S; first_slot S \<le> k; k + depth a \<le> 8\<rbrakk> \<Longrightarrow> transparent S d k c (run L a c)"
  "\<lbrakk>L = lab S; wf_setting S; acts_ok S as; phase S d k c1 c; 0 \<le> d; d + stack_needs S as \<le> stack_size S; first_slot S \<le> k;
    k + 1 + depths as \<le> 8\<rbrakk> \<Longrightarrow> phase S d k c1 (run_all L as c)"
proof (induction L a c and L "as" c arbitrary: d k and d k c1 rule: run_run_all.induct)
  case (3 L elr spsr body c)
  have ok: "acts_ok S body" "d + 0xD0 + stack_needs S body \<le> stack_size S" "k + 1 + depths body \<le> 8"
    using "3.prems" by simp_all
  have "phase S (d + 0xD0) k c1 (run_all (lab S) body c1)" if "phase S (d + 0xD0) k c1 c1" for c1
    using "3.IH" [OF "3.prems"(1,2) ok(1) that _ ok(2) "3.prems"(8) ok(3)] "3.prems"(1,6) by simp
  moreover have "d + 0xD0 \<le> stack_size S" "k < 8"
    using ok stack_needs_nonneg(2) [OF "3.prems"(2), of body] depths_nonneg(2) [of body] by linarith+
  ultimately show ?case
    using interrupt_step "3.prems"(1,2,5,6,8) by simp
next
  case (5 L a as c)
  have ok: "act_ok S a" "acts_ok S as" "d + stack_need S a \<le> stack_size S" "d + stack_needs S as \<le> stack_size S"
      "k + 1 + depth a \<le> 8" "k + 1 + depths as \<le> 8" "k < 8"
    using "5.prems" depths_nonneg(2) [of "a # as"] by simp_all
  have "phase S d k c1 (run (lab S) a c)"
  proof (rule phase_activity [OF "5.prems"(2) ok(1) "5.prems"(4,5) ok(3) "5.prems"(7) ok(7)])
    fix elr spsr body j
    assume "a = Interrupt elr spsr body" "at_level S d j c" "k \<le> j" "j \<le> k + 1"
    then show "transparent S d j c (run (lab S) a c)"
      using "5.IH"(1) [OF "5.prems"(1,2) ok(1) _ _ "5.prems"(5) ok(3), of j] "5.prems"(1,7) ok(5) by simp
  qed
  then show ?case
    using "5.IH"(2) [OF "5.prems"(1,2) ok(2) _ "5.prems"(5) ok(4) "5.prems"(7) ok(6)] "5.prems"(1) by simp
qed auto


section \<open>An interrupt handler that is the first to use floating point\<close>

lemma run_interrupt:
  "run L (Interrupt elr spsr body) c =
     (let c1 = run_all L body (exec (irq_entry L) (take_exception elr spsr c));
          c2 = exec [MRS 0 CPTR, ANDI 0 0 (fp_bit L)] c1 in
      exec irq_exit (if fp_enabled L c1 then exec (restorefloatregister (FPUContextBase L)) c2 else c2))"
  by (simp add: IRQInterruptHandler_def Let_def fp_enabled_def)

text \<open>Once the handler has floating point enabled, the end of the interrupt pops a context, whatever was pushed.\<close>

lemma interrupt_pops:
  assumes "fp_enabled (lab S) c1" and "load64 (cmem c1) (FPUContextBase (lab S)) = ctx_slot S (k + 1)"
    and "c1 = run_all (lab S) body (exec (irq_entry (lab S)) (take_exception elr spsr c))"
    and "xr c1 31 = off (off (stack_top S) (- d)) (- 0xD0)" and "cmem c1 (FPUStatus (lab S)) \<noteq> 0" and "wf_setting S"
  shows "at_level S d k (run (lab S) (Interrupt elr spsr body) c)"
    and "same_outside (base_area S) (cmem c1) (cmem (run (lab S) (Interrupt elr spsr body) c))"
    and "fp_ctx (run (lab S) (Interrupt elr spsr body) c) = fp_ctx_at (cmem c1) (ctx_slot S k)"
proof -
  let ?V = "FPUContextBase (lab S)"
  define c2 where "c2 = exec [MRS 0 CPTR, ANDI 0 0 (fp_bit (lab S))] c1"
  define c3 where "c3 = exec (restorefloatregister ?V) c2"
  have c2: "cmem c2 = cmem c1" "xr c2 31 = xr c1 31" by (simp_all add: c2_def)
  have lev: "load64 (cmem c2) ?V = ctx_slot S (k + 1)" using assms(2) c2(1) by simp
  note rf = restorefloat_effect [OF lev, folded c3_def]
  have sp: "xr c3 31 = off (off (stack_top S) (- d)) (- 0xD0)" using rf(5) [of 31] c2(2) assms(4) by simp
  have run: "run (lab S) (Interrupt elr spsr body) c = exec irq_exit c3"
    unfolding run_interrupt assms(3) [symmetric] Let_def using assms(1) by (simp add: c3_def c2_def)
  note ex = irq_exit_effect(2,4) [OF sp]
  have out: "same_outside (base_area S) (cmem c1) (cmem c3)" using rf(3) c2(1) by (simp add: base_area_def)
  then show "same_outside (base_area S) (cmem c1) (cmem (run (lab S) (Interrupt elr spsr body) c))"
    using run ex(2) by simp
  have "cmem c3 (FPUStatus (lab S)) \<noteq> 0" using out assms(5,6) by (auto simp: same_outside_def wf_setting_def)
  then show "at_level S d k (run (lab S) (Interrupt elr spsr body) c)"
    using run ex rf(2) by (simp add: at_level_def ctx_slot_def)
  have "fp_ctx c3 = fp_ctx_at (cmem c1) (ctx_slot S k)" using rf(1) c2(1) by (simp add: ctx_slot_def)
  moreover have "fp_ctx (exec irq_exit c3) = fp_ctx c3" using irq_exit_effect(5,6) [OF sp] by (simp add: fp_ctx_def)
  ultimately show "fp_ctx (run (lab S) (Interrupt elr spsr body) c) = fp_ctx_at (cmem c1) (ctx_slot S k)" using run by simp
qed

text \<open>With \<open>FPUStatus\<close> clear, nothing is pushed when the handler first uses floating point.\<close>

lemma first_float_body:
  fixes S :: setting and c :: cpu and elr spsr e s :: u64 and f :: "cpu \<Rightarrow> cpu"
  defines "c1 \<equiv> exec (irq_entry (lab S)) (take_exception elr spsr c)"
  defines "c3 \<equiv> run_all (lab S) [Float e s f] c1"
  assumes "wf_setting S" and "xr c 31 = off (stack_top S) (- d)" and "cmem c (FPUStatus (lab S)) = 0"
    and f: "\<And>c. leaf_frame S c (f c)" and "0 \<le> d" and "d + 0xD0 + leaf_stack S \<le> stack_size S"
  shows "at_level S (d + 0xD0) 0 c3" "fp_enabled (lab S) c3"
    "same_outside (stack_area S \<union> ({FPUStatus (lab S)} \<union> base_area S) \<union> globals S) (cmem c) (cmem c3)"
proof -
  let ?L = "lab S" and ?V = "FPUContextBase (lab S)" and ?d = "d + 0xD0"
  let ?R = "stack_area S \<union> ({FPUStatus ?L} \<union> base_area S) \<union> globals S"
  define c2 where "c2 = fp_trap_taken ?L e s c1"
  have sp0: "xr (take_exception elr spsr c) 31 = off (stack_top S) (- d)" using assms(4) by (simp add: take_exception_def)
  note en = irq_entry_effect [where L = ?L and c = "take_exception elr spsr c", unfolded sp0, folded c1_def]
  have sp1: "xr c1 31 = off (stack_top S) (- ?d)" using en(2) by simp
  have fit: "d + 0xD0 \<le> stack_size S" "?d + 0x110 \<le> stack_size S" "0 \<le> ?d" using assms(3,7,8) by (simp_all add: wf_setting_def)
  have stk0: "region (off (stack_top S) (- d)) (- 0xD0) 0 \<subseteq> stack_area S"
    using stack_below [OF assms(7) fit(1)] stack_sub [OF assms(7)] by blast
  then have off0: "cmem c1 (FPUStatus ?L) = 0"
    using en(7) assms(3,5) by (auto simp: same_outside_def wf_setting_def take_exception_def)
  have stk: "region (xr c1 31) (- 0x110) 0 \<subseteq> stack_area S"
    unfolding sp1 using stack_below [OF fit(3,2)] stack_sub [OF fit(3)] by blast
  then have "FPUStatus ?L \<notin> region ?V 0 8" "region (xr c1 31) (- 0x110) 0 \<inter> region ?V 0 8 = {}"
    "FPUStatus ?L \<notin> region (xr c1 31) (- 0x110) 0"
    using assms(3) by (auto simp: wf_setting_def base_area_def)
  note ft = fp_trap_taken_first [OF off0 this, where elr = e and spsr = s, folded c2_def]
  have sp2: "xr c2 31 = off (stack_top S) (- ?d)" using ft(1) sp1 by simp
  have "?d + leaf_stack S \<le> stack_size S" using assms(8) by simp
  note lf = leaf_step [OF f [of c2] sp2 fit(3) this]
  have "at_level S ?d 0 c2" using sp2 ft(3,4) by (simp add: at_level_def ctx_slot_def)
  then have lev: "at_level S ?d 0 (f c2)" using at_level_quiet [OF assms(3) lf(1) fit(3)] lf(3) by simp
  have body: "c3 = f c2" using en(6) by (simp add: c2_def c3_def)
  with lev lf(2) ft(2) show "at_level S ?d 0 c3" "fp_enabled ?L c3" by simp_all
  have "region (off (stack_top S) (- d)) (- 0xD0) 0 \<subseteq> ?R" using stk0 by blast
  from same_outside_mono [OF en(7) this] have "same_outside ?R (cmem c) (cmem c1)" by (simp add: take_exception_def)
  then have "same_outside ?R (cmem c) (cmem c2)"
    by (rule same_outside_trans [OF _ ft(5)]) (use stk in \<open>auto simp: base_area_def\<close>)
  then show "same_outside ?R (cmem c) (cmem c3)"
    unfolding body by (rule same_outside_trans [OF _ lf(1)]) (use leaf_writes_sub(1) [OF fit(3), of S] in auto)
qed

text \<open>
  So the end of the interrupt underflows the context stack by one context, and reloads the registers from below the array.
\<close>

lemma first_float_underflows:
  assumes "wf_setting S" and "xr c 31 = off (stack_top S) (- d)" and "cmem c (FPUStatus (lab S)) = 0"
    and f: "\<And>c. leaf_frame S c (f c)" and "0 \<le> d" and "d + 0xD0 + leaf_stack S \<le> stack_size S"
  shows "at_level S d (- 1) (run (lab S) (Interrupt elr spsr [Float e s f]) c)"
    and "first_slot S = - 1 \<Longrightarrow> fp_ctx (run (lab S) (Interrupt elr spsr [Float e s f]) c) = fp_ctx_at (cmem c) (ctx_slot S (- 1))"
proof -
  let ?c3 = "run_all (lab S) [Float e s f] (exec (irq_entry (lab S)) (take_exception elr spsr c))"
  note b = first_float_body [OF assms, where elr = elr and spsr = spsr and e = e and s = s]
  have base: "load64 (cmem ?c3) (FPUContextBase (lab S)) = ctx_slot S (- 1 + 1)"
      "xr ?c3 31 = off (off (stack_top S) (- d)) (- 0xD0)" "cmem ?c3 (FPUStatus (lab S)) \<noteq> 0"
    using b(1) by (simp_all add: at_level_def)
  note pop = interrupt_pops [OF b(2) base(1) refl base(2,3) assms(1)]
  show "at_level S d (- 1) (run (lab S) (Interrupt elr spsr [Float e s f]) c)" by (rule pop(1))
  assume lo: "first_slot S = - 1"
  have "region (ctx_slot S (- 1)) 0 0x210 \<subseteq> fpu_area S" using ctx_slot_area [of S "- 1"] lo by simp
  then have "region (ctx_slot S (- 1)) 0 0x210 \<inter> (stack_area S \<union> ({FPUStatus (lab S)} \<union> base_area S) \<union> globals S) = {}"
    using assms(1) by (auto simp: wf_setting_def)
  from fp_ctx_at_same_outside [OF b(3) this] pop(3)
  show "fp_ctx (run (lab S) (Interrupt elr spsr [Float e s f]) c) = fp_ctx_at (cmem c) (ctx_slot S (- 1))" by simp
qed

text \<open>An interrupt whose handler uses floating point leaves the registers it saved in the slot above the stack.\<close>

lemma float_interrupt_stores:
  assumes "wf_setting S" and "at_level S d k c" and f: "\<And>c. leaf_frame S c (f c)" and "0 \<le> d"
    and "d + 0xD0 + leaf_stack S \<le> stack_size S" and "first_slot S \<le> k" and "k < 8"
  shows "fp_ctx_at (cmem (run (lab S) (Interrupt elr spsr [Float e s f]) c)) (ctx_slot S k) = fp_ctx c"
proof -
  let ?L = "lab S"
  have fit: "d + 0xD0 \<le> stack_size S" "0 \<le> d + 0xD0" using assms(1,4,5) by (simp_all add: wf_setting_def)
  define c1 where "c1 = exec (irq_entry ?L) (take_exception elr spsr c)"
  define c2 where "c2 = run_all ?L [Float e s f] c1"
  note en = interrupt_entry [OF assms(1,2,4) fit(1), where elr = elr and spsr = spsr, folded c1_def]
  have ph: "phase S (d + 0xD0) k c1 c2"
    using phase_float [OF assms(1) en(1) f fit(2) _ assms(6,7)] assms(5) by (simp add: c2_def)
  have "\<not> fp_enabled ?L c1"
    using irq_entry_effect(6) by (simp add: c1_def)
  then have "c2 = f (fp_trap_taken ?L e s c1)" by (simp add: c2_def)
  moreover have "fp_enabled ?L (fp_trap_taken ?L e s c1)"
    using phase_trap [OF assms(1) en(1) \<open>\<not> fp_enabled ?L c1\<close> fit(2) _ assms(6,7)] assms(5) by simp
  moreover have "sysr (f (fp_trap_taken ?L e s c1)) CPTR = sysr (fp_trap_taken ?L e s c1) CPTR"
    using f by (simp add: leaf_frame_def)
  ultimately have on: "fp_enabled ?L c2" using fp_enabled_cong by metis
  then have ctx: "fp_ctx_at (cmem c2) (ctx_slot S k) = fp_ctx c" and lev: "at_level S (d + 0xD0) (k + 1) c2"
    using ph en(2) by (simp_all add: phase_def)
  have "same_outside (base_area S) (cmem c2) (cmem (run ?L (Interrupt elr spsr [Float e s f]) c))"
    by (rule interrupt_pops(2) [OF on]) (use lev assms(1) in \<open>simp_all add: at_level_def c2_def c1_def\<close>)
  moreover have "region (ctx_slot S k) 0 0x210 \<inter> base_area S = {}"
    using ctx_slot_area [OF assms(6,7)] assms(1) by (auto simp: wf_setting_def)
  ultimately show ?thesis using fp_ctx_at_same_outside ctx by metis
qed


section \<open>Properties\<close>

text \<open>
  C14: an interrupt is transparent for the code it interrupts, once the core has used floating point (\<open>FPUStatus\<close> is not
  zero; the case in which it is zero is the next property). Let an interrupt arrive whose handler runs any
  sequence of ordinary code, code with floating point instructions and further interrupts, nested so that the
  stack and the context array have room for them, with handlers that obey the procedure call standard: when the vectors
  return, all general registers and the stack pointer, all vector registers with \<open>FPCR\<close> and \<open>FPSR\<close>, and the floating
  point trap setting are those of the interrupted code, the context stack is as high as before, and memory has
  changed only below the stack pointer, in the unused part of the context array and in the handlers' variables.
\<close>

theorem interrupts_transparent:
  assumes "wf_setting S" and "acts_ok S body" and "cmem c (FPUStatus (lab S)) \<noteq> 0"
    and "xr c 31 = off (stack_top S) (- d)" and "load64 (cmem c) (FPUContextBase (lab S)) = off (FPUContext (lab S)) (0x210 * k)"
    and "0 \<le> d" and "d + 0xD0 + stack_needs S body \<le> stack_size S" and "first_slot S = 0" and "0 \<le> k"
    and "k + 1 + depths body \<le> 8"
  shows "let c' = run (lab S) (Interrupt elr spsr body) c in (\<forall>n \<le> 31. xr c' n = xr c n) \<and> (\<forall>n < 32. qr c' n = qr c n) \<and> sysr c' SYS_FPCR = sysr c SYS_FPCR \<and>
    sysr c' SYS_FPSR = sysr c SYS_FPSR \<and> sysr c' CPTR = sysr c CPTR \<and>
    load64 (cmem c') (FPUContextBase (lab S)) = load64 (cmem c) (FPUContextBase (lab S)) \<and>
    same_outside (may_write S d k) (cmem c) (cmem c')"
proof -
  define c' where "c' = run (lab S) (Interrupt elr spsr body) c"
  have lev: "at_level S d k c" using assms(3-5) by (simp add: at_level_def ctx_slot_def)
  have t: "transparent S d k c c'"
    unfolding c'_def by (rule run_transparent(1)) (use assms lev in simp_all)
  then have "fp_ctx c' = fp_ctx c" by (simp add: transparent_def)
  then have "map (qr c') [0..<32] = map (qr c) [0..<32]" "sysr c' SYS_FPCR = sysr c SYS_FPCR" "sysr c' SYS_FPSR = sysr c SYS_FPSR"
    by (simp_all add: fp_ctx_def)
  then show ?thesis
    unfolding Let_def c'_def [symmetric] using t lev by (simp add: transparent_def at_level_def)
qed

text \<open>A layout, a core that has used floating point before, and a handler that is itself interrupted.\<close>

definition demo_setting :: "int \<Rightarrow> setting" where
  "demo_setting lo = \<lparr>lab = \<lparr>at_EL3 = False, FPUContext = off 0 0x20000, FPUContextBase = off 0 0x30000, FPUStatus = off 0 0x30008\<rparr>,
     stack_top = off 0 0x10000, stack_size = 0x4000, leaf_stack = 0x200, first_slot = lo, globals = {}\<rparr>"

definition demo_cpu :: "u8 \<Rightarrow> cpu" where
  "demo_cpu status = \<lparr>xr = (\<lambda>n. if n = 31 then off 0 0x10000 else of_nat n), qr = of_nat, sysr = (\<lambda>_. push_bit 20 1),
     cmem = store64 ((\<lambda>_. 0)(off 0 0x30008 := status)) (off 0 0x30000) (off 0 0x20000)\<rparr>"

definition clear_q :: "cpu \<Rightarrow> cpu" where
  "clear_q c = c\<lparr>qr := (\<lambda>_. 0)\<rparr>"

lemma wf_demo_setting: "- 1 \<le> lo \<Longrightarrow> lo \<le> 0 \<Longrightarrow> wf_setting (demo_setting lo)"
proof -
  assume lo: "- 1 \<le> lo" "lo \<le> 0"
  have "region (off 0 0x10000) (- 0x4000) 0 \<inter> region (off 0 0x20000) (0x210 * lo) 4224 = {}"
    "region (off 0 0x10000) (- 0x4000) 0 \<inter> region (off 0 0x30000) 0 8 = {}"
    "region (off 0 0x20000) (0x210 * lo) 4224 \<inter> region (off 0 0x30000) 0 8 = {}"
    using lo by (simp_all add: region_off region_disjoint)
  moreover have "region (off 0 0x10000) (- 0x4000) 0 \<inter> region 0 0x30008 0x30009 = {}"
    "region (off 0 0x20000) (0x210 * lo) 4224 \<inter> region 0 0x30008 0x30009 = {}"
    "region (off 0 0x30000) 0 8 \<inter> region 0 0x30008 0x30009 = {}"
    using lo by (simp_all add: region_off region_disjoint)
  moreover have "off 0 0x30008 \<in> region 0 0x30008 0x30009" by (simp add: region_def)
  ultimately show ?thesis
    using lo by (simp add: wf_setting_def demo_setting_def stack_area_def fpu_area_def base_area_def FPUContextSize_def) blast
qed

lemma demo_cpu_level:
  "cmem (demo_cpu st) (off 0 0x30008) = st" "st \<noteq> 0 \<Longrightarrow> at_level (demo_setting lo) 0 0 (demo_cpu st)"
proof -
  have "off 0 0x30008 \<in> region (0 :: u64) 0x30008 0x30009" by (simp add: region_def)
  then have "off 0 0x30008 \<notin> region (0 :: u64) 0x30000 0x30008"
    using region_disjoint [of "0x30008" "0x30008" "0x30009" "0x30000" 0] by auto
  then show st: "cmem (demo_cpu st) (off 0 0x30008) = st"
    using store_outside(1) [of "off 0 0x30008" 0 "0x30000" "0x30008" "0x30000"] by (simp add: demo_cpu_def)
  show "st \<noteq> 0 \<Longrightarrow> at_level (demo_setting lo) 0 0 (demo_cpu st)"
    using st by (simp add: at_level_def demo_setting_def ctx_slot_def) (simp add: demo_cpu_def)
qed

lemma clear_q_leaf: "leaf_frame S c (clear_q c)"
  by (simp add: leaf_frame_def clear_q_def)

theorem interrupts_transparent_witness:
  "map (qr (run (lab (demo_setting 0)) (Interrupt 0x1000 5
       [Float 0x2000 5 clear_q, Interrupt 0x2004 5 [Float 0x3000 5 clear_q]]) (demo_cpu 1))) [0..<32] = map of_nat [0..<32]"
  (is "map ?q _ = _")
proof -
  have "wf_setting (demo_setting 0)" "cmem (demo_cpu 1) (FPUStatus (lab (demo_setting 0))) \<noteq> 0"
      "xr (demo_cpu 1) 31 = off (stack_top (demo_setting 0)) (- 0)"
      "load64 (cmem (demo_cpu 1)) (FPUContextBase (lab (demo_setting 0))) = off (FPUContext (lab (demo_setting 0))) (0x210 * 0)"
      "acts_ok (demo_setting 0) [Float 0x2000 5 clear_q, Interrupt 0x2004 5 [Float 0x3000 5 clear_q]]"
    using demo_cpu_level(2) [of 1 0] by (simp_all add: wf_demo_setting clear_q_leaf at_level_def ctx_slot_def)
  from interrupts_transparent [OF this(1,5,2-4), of "0x1000" 5] have "\<forall>n < 32. ?q n = of_nat n"
    unfolding Let_def by (simp add: demo_setting_def del: run.simps) (simp add: demo_cpu_def)
  then show ?thesis by (intro map_cong) (simp_all del: run.simps)
qed

text \<open>
  C15: when an interrupt handler executes the first floating point instruction since start-up (\<open>FPUStatus\<close> still
  clear), the context stack underflows: at the end of the interrupt \<open>FPUContextBase\<close> points 528 bytes in front of
  the array \<open>FPUContext\<close>; the vector registers the interrupted code goes on with are whatever these 528 bytes contained
  before the interrupt; and the next interrupt whose handler uses floating point stores the vector registers
  into these 528 bytes, which hold the code of the vectors.
\<close>

theorem first_float_in_handler_overwrites:
  assumes "wf_setting S" and "first_slot S = - 1" and "xr c 31 = off (stack_top S) (- d)" and "cmem c (FPUStatus (lab S)) = 0"
    and "\<forall>c. leaf_frame S c (f c)" and "\<forall>c. leaf_frame S c (g c)" and "0 \<le> d" and "d + 0xD0 + leaf_stack S \<le> stack_size S"
  shows "let c1 = run (lab S) (Interrupt elr1 spsr1 [Float elr2 spsr2 f]) c;
        c2 = run (lab S) (Interrupt elr3 spsr3 [Float elr4 spsr4 g]) c1 in
    load64 (cmem c1) (FPUContextBase (lab S)) = off (FPUContext (lab S)) (- 528) \<and>
    fp_ctx c1 = fp_ctx_at (cmem c) (off (FPUContext (lab S)) (- 528)) \<and>
    fp_ctx_at (cmem c2) (off (FPUContext (lab S)) (- 528)) = fp_ctx c1"
proof -
  define c1 where "c1 = run (lab S) (Interrupt elr1 spsr1 [Float elr2 spsr2 f]) c"
  define c2 where "c2 = run (lab S) (Interrupt elr3 spsr3 [Float elr4 spsr4 g]) c1"
  have lev: "at_level S d (- 1) c1"
    unfolding c1_def by (rule first_float_underflows(1)) (use assms in simp_all)
  have re: "fp_ctx c1 = fp_ctx_at (cmem c) (ctx_slot S (- 1))"
    unfolding c1_def by (rule first_float_underflows(2)) (use assms in simp_all)
  have "fp_ctx_at (cmem c2) (ctx_slot S (- 1)) = fp_ctx c1"
    unfolding c2_def by (rule float_interrupt_stores [OF assms(1) lev]) (use assms in simp_all)
  with lev re show ?thesis
    unfolding Let_def c1_def [symmetric] c2_def [symmetric] by (simp add: at_level_def ctx_slot_def)
qed

theorem first_float_in_handler_overwrites_witness:
  "load64 (cmem (run (lab (demo_setting (- 1))) (Interrupt 0x1000 5 [Float 0x2000 5 clear_q]) (demo_cpu 0)))
     (FPUContextBase (lab (demo_setting (- 1)))) = off 0 0x1FDF0"
proof -
  let ?S = "demo_setting (- 1)"
  have "wf_setting ?S" by (simp add: wf_demo_setting)
  moreover have "first_slot ?S = - 1" "xr (demo_cpu 0) 31 = off (stack_top ?S) (- 0)"
      "cmem (demo_cpu 0) (FPUStatus (lab ?S)) = 0"
    using demo_cpu_level(1) by (simp_all add: demo_setting_def demo_cpu_def)
  ultimately show ?thesis
    using first_float_in_handler_overwrites [of ?S "demo_cpu 0" 0 clear_q clear_q "0x1000" 5 "0x2000" 5]
    unfolding Let_def by (simp add: clear_q_leaf del: run.simps) (simp add: demo_setting_def)
qed

end
