(* ===== verification/Spec2Isabelle.thy ===== *)
theory Spec2Isabelle
  imports Crc32 Stdout_Concurrent Protocol Domain Isolation Tools Crash_Scenario Executor Fp_Nesting
begin

text \<open>
  Bmboot: a Linux manager that starts, supervises and stops bare-metal payloads on the other cores of a
  Zynq UltraScale+, together with the monitor that runs on those cores at EL3 and the runtime that is linked into
  payloads at EL1. Paths below are relative to the repository.

  \<^bold>\<open>Parts and how they interact.\<close> The manager (\<open>src/manager\<close>) maps physical memory through \<open>/dev/mem\<close>. It writes the
  monitor image and a cookie into the region of a core, initialises the IPC block, and releases the core from reset.
  The monitor (\<open>src/executor/monitor\<close>) polls the IPC block for commands. The start command carries address, size,
  checksum and argument of a payload image; the monitor validates the image, answers, acknowledges and enters it.
  The payload calls the monitor by SMC (reports, standard output, interrupt set-up). The manager polls the
  IPC block for the answer and the domain state, reads standard output from a ring in the block, and kills the payload
  by an inter-processor interrupt, on which the monitor silences the payload's interrupts and restarts.

  \<^bold>\<open>Theories.\<close>
  \<^item> \<open>Bm_Prelude\<close>: machine integers, physical memory, \<open>memcpy\<close>, little-endian encoding, shared lemmas.
  \<^item> \<open>Bm_Types\<close>: \<open>include/bmboot.hpp\<close> and \<open>src/utility/to_string.cpp\<close>; domain names parse back, printed forms are distinct.
  \<^item> \<open>Crc32\<close>: \<open>src/utility/crc32.c\<close>; equal to the bit-serial register, and every error burst within four bytes changes
    the checksum.
  \<^item> \<open>Memmap\<close>: \<open>src/bmboot_memmap.hpp\<close>, \<open>src/executor/executor.cpp\<close>; the regions are disjoint, both sides agree on them.
  \<^item> \<open>Ipc_Block\<close>: \<open>src/bmboot_internal.hpp\<close>, \<open>src/cpu_state.hpp\<close>; the block fits its region.
  \<^item> \<open>Stdout_Channel\<close>, \<open>Stdout_Concurrent\<close>: \<open>writeToStdout\<close> of \<open>smc_handlers.cpp\<close> and \<open>Domain::getchar\<close>; the pair refines a
    bounded queue (locale \<open>byte_channel\<close>), is memory safe on corrupted positions, and stays a FIFO when
    the two sides interleave at every access.
  \<^item> \<open>Mmio\<close>, \<open>Zynqmp\<close>: \<open>src/utility/mmap.hpp\<close>, \<open>src/platform/zynqmp/zynqmp.hpp\<close>, \<open>zynqmp_manager.cpp\<close>; the exact register accesses
    of releasing a core and of sending an inter-processor interrupt.
  \<^item> \<open>Gicv2\<close>, \<open>Interrupt_Controller\<close>: \<open>src/executor/gicv2.hpp\<close>, \<open>interrupt_controller.cpp\<close>; register layout, bit operations,
    set-up and tear-down of interrupts.
  \<^item> \<open>Payload_Image\<close>: \<open>validatePayload\<close> of \<open>src/executor/monitor/monitor.cpp\<close> (locale \<open>image_checksum\<close>); corrupted images are
    rejected.
  \<^item> \<open>Monitor\<close>: \<open>monitor.cpp\<close>, \<open>smc_handlers.cpp\<close>, \<open>vectors_el3.cpp\<close>; only validated payloads are entered, every service
    call has a defined outcome, a kill leaves no interrupt of the payload enabled.
  \<^item> \<open>Protocol\<close>: manager and monitor as a step relation that interleaves at every access to the IPC block; one outstanding
    command at most, entered addresses are validated ones if the manager is timely, and a race if it is not.
  \<^item> \<open>Configuration\<close>: \<open>src/manager/configuration.cpp\<close>; numbers are read back as written, too large ones are refused.
  \<^item> \<open>Polling\<close>, \<open>Domain\<close>: \<open>src/manager/domain.cpp\<close>; what the operations put in place, that their
    waits (locale \<open>polling\<close>) end with the first answer, and what their success means.
  \<^item> \<open>Isolation\<close>: the interface \<open>IDomain\<close> (\<open>include/bmboot/domain.hpp\<close>) as one type of operations; operations on some domains
    leave the others alone (locale \<open>host_frame\<close>), except \<open>loadElfPayload\<close>, which stores where the ELF library chooses.
  \<^item> \<open>Coredump\<close>, \<open>Core_Reader\<close>: \<open>src/manager/coredump_linux.cpp\<close> and \<open>Domain::dumpCore\<close>; a reader of ELF core files, written
    from the format, recovers the notes and segments from the finished file.
  \<^item> \<open>Console\<close>, \<open>Tools\<close>: \<open>src/manager/domain_helpers.cpp\<close>, \<open>src/tools/bmctl.cpp\<close>, \<open>src/tools/console.cpp\<close>; the console shows what
    the payload wrote, exit status 0 means what it should except for \<open>boot\<close>.
  \<^item> \<open>Payload_Runtime\<close>: \<open>payload_runtime.cpp\<close>, \<open>vectors_el1.cpp\<close>, \<open>sleep.cpp\<close>, \<open>syscalls.cpp\<close>; handlers are dispatched and
    the interrupted context restored, sleeping ends and is exact.
  \<^item> \<open>Payload_Demos\<close>, \<open>Demo_Programs\<close>: \<open>src/payloads\<close> on top of the runtime (locale \<open>c_printf\<close>); the timer does not drift, the
    demonstrations do what their comments say.
  \<^item> \<open>Executor\<close>: a core from reset on as a step relation over the monitor's functions, the payload and the manager's stores,
    with the monitor's main loop taken apart into its single accesses to the IPC block (without anything in between they
    are \<open>main_iteration\<close> of \<open>Monitor\<close>); it simulates (locale \<open>stutter_simulation\<close>) the state machine of
    \<open>bmbook/architecture.tex\<close> with the transitions that figure lacks, what it executes was validated in the same pass unless
    the manager changed the address meanwhile, and commands are taken up, answered and acknowledged in this order.
  \<^item> \<open>Aarch64_Asm\<close>, \<open>Vectors\<close>, \<open>Fp_Nesting\<close>: \<open>asm_vectors.S\<close>, \<open>executor_asm.S\<close>, \<open>monitor_asm.S\<close> as instruction lists on a small model
    of the instruction set; the C++ handlers see the interrupted registers, nested interrupts are transparent
    including the lazily switched floating point registers, once these have been used, and they are not if a handler is the
    first to use them.
  \<^item> \<open>Mmu\<close>, \<open>Boot\<close>: \<open>translation_table.S\<close> with the processor's table walk, \<open>boot.S\<close> and \<open>xil-crt0.S\<close>; the address map that results is
    the documented one up to the size of the memory, the C++ code finds the state it needs, and the cache
    invalidation reaches a quarter of the sets only.
  \<^item> \<open>System\<close>, \<open>Crash_Scenario\<close>: the views manager and monitor have of the same state, and the crash demonstration from the
    start-up code through its \<open>main\<close> and the fault of the translation tables to what a debugger finds in the core dump.
  \<^item> This theory: properties across components, from file to running payload, from refusal to error code, from a
    fault to its core dump, from kill request to the next payload, and from the code to the protocol.

  \<^bold>\<open>State and conventions.\<close> C++ structures are records, enumerations datatypes, fixed-width integers words. The
  manager's state is \<open>host\<close>, the monitor's \<open>mon_state\<close>, the payload's \<open>payload\<close> (which contains the monitor's,
  as SMC calls go there). Device accesses are performed on a register file and recorded in a log, so that
  their order can be stated. \<open>None\<close> is undefined behaviour, \<open>std::terminate\<close> or code that never returns, as each
  theory says; error codes are ordinary results. The operating system, the ELF loader library, the C
  library, the embedded monitor images and whatever the other cores do while a function waits, or once they have been
  released from reset, are arguments.

  \<^bold>\<open>Bounds and fuel.\<close> The polling loops have the iteration counts of the source (50 and 100). The busy loop of
  \<open>usleep\<close> has fuel; its theorem shows that fuel up to the first late enough read of the counter suffices. The recursion of
  \<open>writeToStdout\<close> on a corrupted position is shown to end by a measure. The console loop runs until it is
  interrupted; the number of iterations until then is an argument.

  \<^bold>\<open>Not modelled.\<close> The effect of cache and TLB maintenance and memory ordering: memory is one function, so that the
  operands of the cache operations are modelled but not what they do. The C library (constructors, \<open>printf\<close>) and what the build
  generates (linker symbols, embedded images), which are arguments. Messages the manager prints for debugging, except those
  of the tools. The benchmarks (a third-party program and a measurement of bus accesses), which only print floating
  point timings of the hardware, and the hardware tests (the run of one of them is a theorem of \<open>Crash_Scenario\<close>).
\<close>

section \<open>Manager and monitor together\<close>

text \<open>The error code by which the manager passes on an answer of the monitor.\<close>

fun error_of_response :: "Response \<Rightarrow> MaybeError" where
  "error_of_response crc_ok = None"
| "error_of_response crc_mismatched = Some payload_checksum_mismatch"
| "error_of_response image_malformed = Some payload_image_malformed"
| "error_of_response abi_incompatible = Some payload_abi_incompatible"

lemma poll_refused:
  assumes "cmd_ack (inbox h d) = cmd_seq (outbox h d)" and "cmd_resp (inbox h d) = raw_Response rsp" and "rsp \<noteq> crc_ok"
  shows "poll_start h d = Some (error_of_response rsp)"
  using assms by (cases rsp) (simp_all add: poll_start_def Let_def)

lemma getState_ready: "getState h d = monitor_ready \<Longrightarrow> domain_general_state h d = monitorStarted"
  by (cases "domain_general_state h d") (auto simp: getState_def)

lemma load_enters:
  assumes "getState h d = monitor_ready" and "cmd_ack (inbox h d) = cmd_seq (outbox h d)"
    and "getPhysicalMemoryRanges d = Some r" and "length img \<le> unat (payload_size r)"
    and "get_devmem_handle env h = (h1, Inr fd)" and "os_map env (payload_address r) (size_aligned (length img))"
    and "32 \<le> length img" and "header_ok (decode_header (take 32 img))"
  shows "\<exists>h2 s'. loadAndStartPayload env d img (crc32 0 img) arg h = Some (start_loop env d 0 100 h2) \<and>
    main_iteration (core_of h2 d c freq) = EnterEL1 (payload_address r) s' \<and>
    mem_read (phys_mem s') (payload_address r) (length img) = img \<and>
    payload_argument (m2e (ipc s')) = arg \<and> poll_start (host_of h2 d s') d = None \<and>
    (\<forall>p. p_mon p = s' \<longrightarrow> (\<exists>p1. notifyPayloadStarted cpu p = Some p1 \<and> poll_start (host_of h2 d (p_mon p1)) d = Some None))"
proof -
  obtain h2 where h2: "loadAndStartPayload env d img (crc32 0 img) arg h = Some (start_loop env d 0 100 h2)"
    and mem: "mem_read (h_mem h2) (payload_address r) (length img) = img"
    and ob: "payload_entry_address (outbox h2 d) = payload_address r" "unat (payload_size_ipc (outbox h2 d)) = length img"
      "payload_crc (outbox h2 d) = crc32 0 img" "payload_argument (outbox h2 d) = arg"
      "cmd (outbox h2 d) = Command_start_payload" "cmd_seq (outbox h2 d) = cmd_ack (inbox h2 d) + 1"
    and gs: "domain_general_state h2 d = monitorStarted"
    using load_prepares [OF assms(1-6), of "crc32 0 img" arg] getState_ready [OF assms(1)] by auto
  have "mem_read (h_mem h2) (payload_address r) 32 = take 32 img"
    using mem mem_read_take [of 32 "length img" "h_mem h2" "payload_address r"] assms(7) by simp
  then have "validatePayload (h_mem h2) (payload_address r) (payload_size_ipc (outbox h2 d)) (crc32 0 img) = crc_ok"
    using assms(8) mem ob(2) by (simp add: validatePayload_ok)
  moreover have "payload_address r \<noteq> DUMMY_PAYLOAD"
    using assms(3) by (cases d) (auto simp: memmap_defs DUMMY_PAYLOAD_def)
  ultimately have "\<exists>s'. main_iteration (core_of h2 d c freq) = EnterEL1 (payload_address r) s' \<and> phys_mem s' = h_mem h2 \<and>
      m2e (ipc s') = outbox h2 d \<and> cmd_ack (e2m (ipc s')) = cmd_seq (outbox h2 d) \<and>
      cmd_resp (e2m (ipc s')) = raw_Response crc_ok \<and> state (e2m (ipc s')) = raw_state starting_payload"
    using ob by (simp add: main_iteration_def Let_def core_of_def)
  then obtain s' where s': "main_iteration (core_of h2 d c freq) = EnterEL1 (payload_address r) s'" "phys_mem s' = h_mem h2"
      "m2e (ipc s') = outbox h2 d" "cmd_ack (e2m (ipc s')) = cmd_seq (outbox h2 d)"
      "cmd_resp (e2m (ipc s')) = raw_Response crc_ok" "state (e2m (ipc s')) = raw_state starting_payload"
    by blast
  have "getState (host_of h2 d s') d \<in> {in_reset, unavailable, starting_payload}"
    using s'(6) by (simp add: getState_def host_of_def)
  then have "poll_start (host_of h2 d s') d = None"
    using s'(3-5) by (auto simp: poll_start_def Let_def host_of_def)
  moreover have "\<exists>p1. notifyPayloadStarted cpu p = Some p1 \<and> poll_start (host_of h2 d (p_mon p1)) d = Some None"
    if "p_mon p = s'" for p
    using that s'(3-5) gs
    by (auto simp: notifyPayloadStarted_def smc_def handleSmc_def Let_def smc_ids reportPayloadStarted_def poll_start_ok
        getState_def host_of_def)
  ultimately show ?thesis using h2 s' mem ob(4) by auto
qed


text \<open>An image that consists of a proper header only.\<close>

definition demo_image :: bytes where
  "demo_image = encode_header elf_header"

lemma demo_image_facts: "length demo_image = 32" "header_ok (decode_header (take 32 demo_image))"
proof -
  show len: "length demo_image = 32" by (simp add: demo_image_def encode_header_def elf_header_def)
  have "decode_header demo_image = elf_header"
    using decode_encode_header [of elf_header "[]"] by (simp add: demo_image_def elf_header_def)
  with len show "header_ok (decode_header (take 32 demo_image))"
    by (simp add: header_ok_def elf_header_def ABI_MAGIC_NUMBER_def ABI_MAJOR_def ABI_MINOR_def)
qed

lemma demo_idle: "cmd_ack (inbox (demo_host g st) d) = cmd_seq (outbox (demo_host g st) d)"
  by (simp add: demo_host_def zero_IpcBlock_def)


text \<open>
  C17: from refusal to error code. When the monitor refuses the image of a pending start command, the
  manager's next poll ends the wait with the error code of exactly that reason, and the domain is
  back in \<open>monitor_ready\<close> with no command outstanding, so that the next attempt is possible at once.
\<close>

theorem refused_payload_is_reported:
  assumes "domain_general_state h d = monitorStarted"
    and "cmd (outbox h d) = Command_start_payload" and "cmd_seq (outbox h d) = cmd_ack (inbox h d) + 1"
    and "payload_entry_address (outbox h d) \<noteq> 0xbaadf00d"
    and "validatePayload (h_mem h) (payload_entry_address (outbox h d)) (payload_size_ipc (outbox h d))
           (payload_crc (outbox h d)) = rsp" and "rsp \<noteq> crc_ok"
  shows "\<exists>s'. main_iteration (core_of h d c freq) = Loop s' \<and>
    poll_start (host_of h d s') d = Some (error_of_response rsp) \<and> error_of_response rsp \<noteq> None \<and>
    getState (host_of h d s') d = monitor_ready \<and>
    cmd_ack (inbox (host_of h d s') d) = cmd_seq (outbox (host_of h d s') d)"
proof -
  have "\<exists>s'. main_iteration (core_of h d c freq) = Loop s' \<and> m2e (ipc s') = outbox h d \<and>
      cmd_ack (e2m (ipc s')) = cmd_seq (outbox h d) \<and> cmd_resp (e2m (ipc s')) = raw_Response rsp \<and>
      state (e2m (ipc s')) = raw_state monitor_ready"
    using assms by (simp add: main_iteration_def Let_def core_of_def DUMMY_PAYLOAD_def)
  then obtain s' where s': "main_iteration (core_of h d c freq) = Loop s'" "m2e (ipc s') = outbox h d"
      "cmd_ack (e2m (ipc s')) = cmd_seq (outbox h d)" "cmd_resp (e2m (ipc s')) = raw_Response rsp"
      "state (e2m (ipc s')) = raw_state monitor_ready"
    by blast
  then have "poll_start (host_of h d s') d = Some (error_of_response rsp)"
    using assms(6) by (intro poll_refused) (simp_all add: host_of_def)
  moreover have "error_of_response rsp \<noteq> None" using assms(6) by (cases rsp) simp_all
  ultimately show ?thesis
    using s' assms(1) by (auto simp: host_of_def getState_def)
qed

theorem refused_payload_is_reported_witness:
  "\<exists>s'. main_iteration (core_of (issue_start cpu1 0x800100000 0 1 0 (demo_host monitorStarted monitor_ready)) cpu1 idle_ctl 0) = Loop s' \<and>
     poll_start (host_of (issue_start cpu1 0x800100000 0 1 0 (demo_host monitorStarted monitor_ready)) cpu1 s') cpu1 =
       Some (Some payload_checksum_mismatch)"
proof -
  let ?h = "issue_start cpu1 0x800100000 0 1 0 (demo_host monitorStarted monitor_ready)"
  have "validatePayload (h_mem ?h) 0x800100000 0 1 = crc_mismatched"
    by (simp add: validatePayload_def validatePayload_with_def)
  then show ?thesis
    using refused_payload_is_reported [of ?h cpu1 crc_mismatched idle_ctl 0]
    by (auto simp: issue_start_def demo_host_def zero_IpcBlock_def)
qed



lemma kill_makes_ready:
  assumes "domain_general_state h d = monitorStarted" and "getCpuIndex_manager d = Some cpu" and "getIpiChannelForCpu cpu = Some ch"
    and "get_devmem_handle env h = (h1, Inr fd)" and "os_map env 0xFF990000 0x1000" and "os_map env 0xFF300000 0x1000"
    and "wf_ctl c" and "uint (iar AND IAR_INTERRUPT_ID_MASK) = getInterruptIdForIpi ch" and "isr AND 1 \<noteq> 0"
    and "cmd_seq (outbox h d) \<in> {cmd_ack (inbox h d), cmd_ack (inbox h d) + 1}"
  shows "\<exists>h2 s1 s2 s3. terminatePayload env d h = Some (awaitMonitorStartup env d h2) \<and>
    last (mm_log (h_io h2)) = W32 (IPI_TRIG IPI_SRC_BMBOOT_MANAGER) (getIpiPeerMask ch) \<and>
    FIQInterrupt cpu el iar isr (core_of h2 d c freq) = Reboot s1 \<and> main_init cpu s1 = Some s2 \<and>
    getState (host_of h2 d s2) d = monitor_ready \<and> main_iteration s2 = Loop s3 \<and>
    getState (host_of h2 d s3) d = monitor_ready \<and> cmd_ack (e2m (ipc s3)) = cmd_seq (m2e (ipc s3)) \<and>
    s_devmem_handle h2 = s_devmem_handle h1"
proof -
  note fr = get_devmem_handle_frame [OF assms(4)]
  let ?h = "set_outbox d ((outbox h1 d)\<lparr>cmd := Command_noop\<rparr>) h1"
  obtain io where io: "sendIpiMessage (os_map env) (os_stack env) (h_io ?h) d kill_message = Some (io, None)"
      "last (mm_log io) = W32 (IPI_TRIG IPI_SRC_BMBOOT_MANAGER) (getIpiPeerMask ch)"
    using sendIpiMessage_ok [where mmap = "os_map env" and message = kill_message, OF assms(5,6,2,3)] by fastforce
  let ?h2 = "?h\<lparr>h_io := io\<rparr>"
  have tp: "terminatePayload env d h = Some (awaitMonitorStartup env d ?h2)"
    using assms(1,4) io(1) by (simp add: terminatePayload_def Let_def)
  let ?s = "core_of ?h2 d c freq"
  let ?s' = "dev_write GICC_EOIR iar (dev_write (IPI_ISR ch) isr ?s)"
  have "wf_ctl (ctl ?s')" using assms(7) by (simp add: dev_write_def core_of_def)
  then obtain c1 where c1: "teardownEl1Interrupts (ctl ?s') = Some c1" using teardown_trace by blast
  then have fiq: "FIQInterrupt cpu el iar isr ?s = Reboot (?s'\<lparr>ctl := c1\<rparr>)"
    using assms(3,8,9) by (simp add: FIQInterrupt_def Let_def IPI_SRC_BMBOOT_MANAGER_def)
  have ipc1: "ipc (?s'\<lparr>ctl := c1\<rparr>) = (h_ipc h d)\<lparr>m2e := (outbox h d)\<lparr>cmd := Command_noop\<rparr>\<rparr>"
    using fr by (simp add: dev_write_def core_of_def)
  obtain c2 where "setupInterrupts cpu c1 = Some c2" using setupInterrupts_accesses [OF assms(3)] by blast
  moreover have "getIpcBlock cpu \<noteq> None" using cpu_index_bound [OF assms(2)] by (auto simp: getIpcBlock_def)
  ultimately obtain s2 where s2: "main_init cpu (?s'\<lparr>ctl := c1\<rparr>) = Some s2"
      "ipc s2 = (h_ipc h d)\<lparr>m2e := (outbox h d)\<lparr>cmd := Command_noop\<rparr>, e2m := (inbox h d)\<lparr>state := raw_state monitor_ready\<rparr>\<rparr>"
    using ipc1 by (auto simp: main_init_def set_state_def)
  obtain s3 where s3: "main_iteration s2 = Loop s3" "cmd_ack (e2m (ipc s3)) = cmd_seq (m2e (ipc s3))"
      "state (e2m (ipc s3)) = raw_state monitor_ready"
    using assms(10) s2(2) by (auto simp: main_iteration_def acknowledge_def Let_def)
  have gs: "getState (host_of ?h2 d s) d = monitor_ready" if "state (e2m (ipc s)) = raw_state monitor_ready" for s
    using that assms(1) fr by (simp add: getState_def host_of_def)
  show ?thesis
    using tp fiq s2 s3 io(2) gs [of s2] gs [of s3]
    by (intro exI [of _ ?h2] exI [of _ "?s'\<lparr>ctl := c1\<rparr>"] exI [of _ s2] exI [of _ s3] conjI) simp_all
qed

text \<open>
  C7: from kill request to the next payload. \<open>terminatePayload\<close> withdraws the command, writes the message and, as its last
  access, triggers the interrupt of the domain's core; when that interrupt reaches the monitor, whatever the payload
  was doing, the monitor restarts, and after its initialisation the manager sees \<open>monitor_ready\<close>, which ends its
  wait; a start command that was still outstanding (as after the dummy payload) is acknowledged as withdrawn in the
  first pass of the monitor's loop. The domain is then as good as new: every image with a proper header that fits
  can be loaded for it at once, and the monitor enters it at the payload address.
\<close>

theorem killed_domain_is_ready:
  assumes "domain_general_state h d = monitorStarted" and "getCpuIndex_manager d = Some cpu" and "getIpiChannelForCpu cpu = Some ch"
    and "get_devmem_handle env h = (h1, Inr fd)" and "os_map env 0xFF990000 0x1000" and "os_map env 0xFF300000 0x1000"
    and "wf_ctl c" and "uint (iar AND IAR_INTERRUPT_ID_MASK) = getInterruptIdForIpi ch" and "isr AND 1 \<noteq> 0"
    and "cmd_seq (outbox h d) \<in> {cmd_ack (inbox h d), cmd_ack (inbox h d) + 1}"
  shows "\<exists>h2 s1 s2 s3. terminatePayload env d h = Some (awaitMonitorStartup env d h2) \<and>
    last (mm_log (h_io h2)) = W32 (IPI_TRIG IPI_SRC_BMBOOT_MANAGER) (getIpiPeerMask ch) \<and>
    FIQInterrupt cpu el iar isr (core_of h2 d c freq) = Reboot s1 \<and> main_init cpu s1 = Some s2 \<and>
    getState (host_of h2 d s2) d = monitor_ready \<and> main_iteration s2 = Loop s3 \<and>
    getState (host_of h2 d s3) d = monitor_ready \<and> cmd_ack (e2m (ipc s3)) = cmd_seq (m2e (ipc s3)) \<and>
    (\<forall>r img. getPhysicalMemoryRanges d = Some r \<and> 32 \<le> length img \<and> length img \<le> unat (payload_size r) \<and>
        header_ok (decode_header (take 32 img)) \<and> os_map env (payload_address r) (size_aligned (length img)) \<longrightarrow>
      (\<exists>h3 s4. loadAndStartPayload env d img (crc32 0 img) arg (host_of h2 d s3) = Some (start_loop env d 0 100 h3) \<and>
        main_iteration (core_of h3 d (ctl s3) freq) = EnterEL1 (payload_address r) s4 \<and>
        mem_read (phys_mem s4) (payload_address r) (length img) = img))"
proof -
  obtain h2 s1 s2 s3 where k: "terminatePayload env d h = Some (awaitMonitorStartup env d h2)"
      "last (mm_log (h_io h2)) = W32 (IPI_TRIG IPI_SRC_BMBOOT_MANAGER) (getIpiPeerMask ch)"
      "FIQInterrupt cpu el iar isr (core_of h2 d c freq) = Reboot s1" "main_init cpu s1 = Some s2"
      "getState (host_of h2 d s2) d = monitor_ready" "main_iteration s2 = Loop s3"
      "getState (host_of h2 d s3) d = monitor_ready" "cmd_ack (e2m (ipc s3)) = cmd_seq (m2e (ipc s3))"
      "s_devmem_handle h2 = s_devmem_handle h1"
    using kill_makes_ready [OF assms] by blast
  have dm: "get_devmem_handle env (host_of h2 d s3) = (host_of h2 d s3, Inr fd)"
    using devmem_stays_open [OF assms(4)] k(9) by (simp add: host_of_def)
  have ack: "cmd_ack (inbox (host_of h2 d s3) d) = cmd_seq (outbox (host_of h2 d s3) d)"
    using k(8) by (simp add: host_of_def)
  have "\<exists>h3 s4. loadAndStartPayload env d img (crc32 0 img) arg (host_of h2 d s3) = Some (start_loop env d 0 100 h3) \<and>
        main_iteration (core_of h3 d (ctl s3) freq) = EnterEL1 (payload_address r) s4 \<and>
        mem_read (phys_mem s4) (payload_address r) (length img) = img"
    if "getPhysicalMemoryRanges d = Some r \<and> 32 \<le> length img \<and> length img \<le> unat (payload_size r) \<and>
        header_ok (decode_header (take 32 img)) \<and> os_map env (payload_address r) (size_aligned (length img))" for r img
    using load_enters [OF k(7) ack _ _ dm, of r img arg "ctl s3" freq] that by blast
  with k show ?thesis by blast
qed

theorem killed_domain_is_ready_witness:
  "\<exists>h2 s1 s2 s3 h3 s4. terminatePayload (demo_env monitor_ready) cpu1 (demo_host monitorStarted running_payload) =
       Some (awaitMonitorStartup (demo_env monitor_ready) cpu1 h2) \<and>
     FIQInterrupt 1 0xC 67 1 (core_of h2 cpu1 idle_ctl 0) = Reboot s1 \<and> main_init 1 s1 = Some s2 \<and>
     getState (host_of h2 cpu1 s2) cpu1 = monitor_ready \<and>
     loadAndStartPayload (demo_env monitor_ready) cpu1 demo_image (crc32 0 demo_image) 7 (host_of h2 cpu1 s3) =
       Some (start_loop (demo_env monitor_ready) cpu1 0 100 h3) \<and>
     main_iteration (core_of h3 cpu1 (ctl s3) 0) = EnterEL1 0x800100000 s4"
proof -
  have k: "domain_general_state (demo_host monitorStarted running_payload) cpu1 = monitorStarted"
    "getCpuIndex_manager cpu1 = Some 1" "getIpiChannelForCpu 1 = Some ch0" "wf_ctl idle_ctl"
    "uint (67 AND IAR_INTERRUPT_ID_MASK) = getInterruptIdForIpi ch0" "(1 :: u32) AND 1 \<noteq> 0"
    by (simp_all add: demo_host_def getIpiChannelForCpu_def wf_ctl_def idle_ctl_def IAR_INTERRUPT_ID_MASK_def)
  obtain r where r: "getPhysicalMemoryRanges cpu1 = Some r" "payload_address r = 0x800100000" "payload_size r = 0x2000000"
    by (simp add: memmap_defs)
  have img: "getPhysicalMemoryRanges cpu1 = Some r \<and> 32 \<le> length demo_image \<and> length demo_image \<le> unat (payload_size r) \<and>
      header_ok (decode_header (take 32 demo_image)) \<and>
      os_map (demo_env monitor_ready) (payload_address r) (size_aligned (length demo_image))"
    using r demo_image_facts by simp
  have "cmd_seq (outbox (demo_host monitorStarted running_payload) cpu1) \<in>
      {cmd_ack (inbox (demo_host monitorStarted running_payload) cpu1), cmd_ack (inbox (demo_host monitorStarted running_payload) cpu1) + 1}"
    by (simp add: demo_idle)
  from killed_domain_is_ready [OF k(1-3) demo_devmem [of monitor_ready] demo_map demo_map k(4-6) this, where el = "0xC" and freq = 0 and arg = 7]
  show ?thesis using img unfolding r(2) [symmetric] by blast
qed

section \<open>The code and the protocol\<close>

text \<open>
  C9: the step relation of the protocol contains the code: one pass of the monitor's loop, as the function
  \<open>main_iteration\<close> computes it, is a sequence of protocol steps of the monitor that ends in the same IPC block, the
  same place and with the same address entered; and the stores of \<open>startPayloadAt\<close>, as \<open>issue_start\<close> computes them,
  are a sequence of protocol steps of the manager. The interleavings covered by the protocol theorems are those of
  these sequences.
\<close>

theorem code_refines_protocol:
  "(pr_pc s = Idle \<and> pass_result (main_iteration (mon_of s c freq)) = (pc', t, as) \<longrightarrow>
      (\<exists>s'. (proto_step timely)\<^sup>*\<^sup>* s s' \<and> pr_pc s' = pc' \<and> pr_ipc s' = ipc t \<and> pr_mem s' = phys_mem t \<and>
         pr_entered s' = as @ pr_entered s \<and> pr_mgr s' = pr_mgr s)) \<and>
   (pr_mgr s = M_ready \<lparr>sc_entry = a, sc_size = sz, sc_crc = crc, sc_argument = arg\<rparr> \<and> pr_ack s = pr_seq s \<and>
    pr_ipc s = h_ipc h d \<longrightarrow>
      (\<exists>s'. (proto_step timely)\<^sup>*\<^sup>* s s' \<and> pr_mgr s' = M_wait \<and> pr_ipc s' = h_ipc (issue_start d a sz crc arg h) d \<and>
         pr_pc s' = pr_pc s \<and> pr_entered s' = pr_entered s))"
proof (intro conjI impI)
  assume "pr_pc s = Idle \<and> pass_result (main_iteration (mon_of s c freq)) = (pc', t, as)"
  then show "\<exists>s'. (proto_step timely)\<^sup>*\<^sup>* s s' \<and> pr_pc s' = pc' \<and> pr_ipc s' = ipc t \<and> pr_mem s' = phys_mem t \<and>
      pr_entered s' = as @ pr_entered s \<and> pr_mgr s' = pr_mgr s"
    using monitor_pass_run [of s c freq pc' t as timely] by blast
next
  let ?cmd = "\<lparr>sc_entry = a, sc_size = sz, sc_crc = crc, sc_argument = arg\<rparr>"
  assume "pr_mgr s = M_ready ?cmd \<and> pr_ack s = pr_seq s \<and> pr_ipc s = h_ipc h d"
  then show "\<exists>s'. (proto_step timely)\<^sup>*\<^sup>* s s' \<and> pr_mgr s' = M_wait \<and> pr_ipc s' = h_ipc (issue_start d a sz crc arg h) d \<and>
      pr_pc s' = pr_pc s \<and> pr_entered s' = pr_entered s"
    by (intro run_exI [OF run_issue [of s ?cmd timely]]) (auto simp: issue_start_def)
qed

theorem code_refines_protocol_witness:
  "\<exists>s'. (proto_step True)\<^sup>*\<^sup>* (demo_proto\<lparr>pr_mgr := M_ready \<lparr>sc_entry = 0x800100000, sc_size = 0, sc_crc = 0, sc_argument = 7\<rparr>\<rparr>) s' \<and>
     pr_mgr s' = M_wait \<and> pr_ipc s' = h_ipc (issue_start cpu1 0x800100000 0 0 7 (demo_host monitorStarted invalid_state)) cpu1"
proof -
  let ?s = "demo_proto\<lparr>pr_mgr := M_ready \<lparr>sc_entry = 0x800100000, sc_size = 0, sc_crc = 0, sc_argument = 7\<rparr>\<rparr>"
  have "pr_ipc ?s = h_ipc (demo_host monitorStarted invalid_state) cpu1" "pr_ack ?s = pr_seq ?s"
    by (simp_all add: demo_proto_def demo_host_def zero_IpcBlock_def)
  then show ?thesis
    using code_refines_protocol [of ?s idle_ctl 0 Idle idle_mon "[]" True "0x800100000" 0 0 7
        "demo_host monitorStarted invalid_state" cpu1] by auto
qed

end
